(* ===== verification/Prelude.thy ===== *)
theory Prelude
  imports Main "HOL-Library.Multiset"
begin

text \<open>
  Shared vocabulary of the development: Go slices, the error values the operator passes around,
  the outcome of code that may panic, results of effectful calls, and the generic facts on lists,
  maps and the join of string pieces that the component theories use.

  A Go function with result list \<open>(T, error)\<close> that talks to the outside world is a function
  \<open>'w \<Rightarrow> (go_error + T) \<times> 'w\<close> on an abstract world \<open>'w\<close>; a function that returns
  only \<open>error\<close> gives \<open>go_error option \<times> 'w\<close> with \<open>None\<close> for \<open>nil\<close>.
\<close>

section \<open>Types shared by every component\<close>

text \<open>A slice is \<open>nil\<close> (\<open>None\<close>) or a list; \<open>reflect.DeepEqual\<close> tells the two apart.\<close>

type_synonym 'a slice = "'a list option"

type_synonym bytes = "string"

text \<open>Outcome of code that may panic.\<close>

datatype go_panic = SliceBounds | IndexOutOfRange | NilDereference | PanicValue string

datatype 'a outcome = Return (returned: 'a) | Panic go_panic

primrec map_outcome_bind :: "'a outcome \<Rightarrow> ('a \<Rightarrow> 'b outcome) \<Rightarrow> 'b outcome" where
  "map_outcome_bind (Return x) f = f x"
| "map_outcome_bind (Panic p) f = Panic p"

text \<open>
  Errors of the API server, by the reason the code distinguishes
  (\<open>IsNotFound\<close>, \<open>IsAlreadyExists\<close>, \<open>IsNoMatchError\<close>), and the Go errors built
  from them by \<open>Wrap\<close> and \<open>New\<close>.
\<close>

datatype api_err = NotFound | AlreadyExists | Conflict | NoMatch | OtherErr string

datatype go_error = ApiError api_err | WrapErr go_error string | NewErr string

text \<open>\<open>errors.Wrap\<close> of \<open>nil\<close> is \<open>nil\<close>.\<close>

definition Wrap :: "go_error option \<Rightarrow> string \<Rightarrow> go_error option" where
  "Wrap e msg = map_option (\<lambda>x. WrapErr x msg) e"

lemma Wrap_simps [simp]:
  "Wrap None msg = None"
  "Wrap (Some e) msg = Some (WrapErr e msg)"
  "Wrap oe msg = None \<longleftrightarrow> oe = None"
  by (simp_all add: Wrap_def)

text \<open>The API error at the bottom of a chain of wrappers.\<close>

primrec cause :: "go_error \<Rightarrow> api_err option" where
  "cause (ApiError e) = Some e"
| "cause (WrapErr e msg) = cause e"
| "cause (NewErr msg) = None"

section \<open>Collections of simplification facts\<close>

named_theorems go_string_simps \<open>string operations of the Go standard library\<close>
named_theorems frame_simps \<open>what an operation leaves unchanged\<close>

section \<open>Joining pieces with a separator\<close>

fun join :: "'a list \<Rightarrow> 'a list list \<Rightarrow> 'a list" where
  "join sep [] = []"
| "join sep [p] = p"
| "join sep (p # q # ps) = p @ sep @ join sep (q # ps)"

lemma join_Cons: "ps \<noteq> [] \<Longrightarrow> join sep (p # ps) = p @ sep @ join sep ps"
  by (cases ps) auto

lemma join_merge: "join sep ((p @ sep @ q) # ps) = p @ sep @ join sep (q # ps)"
  by (cases ps) auto

lemma join_snoc: "ps \<noteq> [] \<Longrightarrow> join sep (ps @ [p]) = join sep ps @ sep @ p"
proof (induction ps)
  case Nil
  then show ?case by simp
next
  case (Cons q qs)
  then show ?case by (cases qs) auto
qed

lemma join_eq_Nil: "sep \<noteq> [] \<Longrightarrow> join sep ps = [] \<longleftrightarrow> ps = [] \<or> ps = [[]]"
  by (induction sep ps rule: join.induct) auto

section \<open>Lists, options and maps\<close>

lemma mset_eq_set_distinct:
  assumes "mset xs = mset ys"
  shows "set xs = set ys" and "distinct xs = distinct ys"
  using assms by (metis mset_eq_setD, metis mset_eq_imp_distinct_iff)

lemma set_dropWhile_empty: "set (dropWhile (\<lambda>p. p = []) ps) - {[]} = set ps - {[]}"
  by (induction ps) auto

lemma fun_upd_None_dom: "m(k := None) = m |` (- {k})"
  by (rule ext) (simp add: restrict_map_def)

lemma option_neq_None_iff: "x \<noteq> None \<longleftrightarrow> (\<exists>y. x = Some y)"
  by (cases x) auto

text \<open>The first element satisfying a predicate, as a loop with an early return finds it.\<close>

lemma find_SomeD: "List.find P xs = Some x \<Longrightarrow> P x \<and> x \<in> set xs"
  by (auto simp: find_Some_iff)

lemma find_None_iff_all: "List.find P xs = None \<longleftrightarrow> (\<forall>x\<in>set xs. \<not> P x)"
  by (auto simp: find_None_iff)

end
