(* ===== verification/Go_Lib.thy ===== *)
theory Go_Lib
  imports Prelude "HOL-Library.Word"
begin

text \<open>
  The parts of the Go language and its standard library that the operator uses: \<open>strings.Split\<close>,
  \<open>strings.EqualFold\<close>, \<open>strings.ToLower\<close>, \<open>strings.Contains\<close>, \<open>strings.HasSuffix\<close>,
  \<open>strings.LastIndex\<close>, \<open>strings.ReplaceAll\<close>, slice expressions, and the unspecified
  iteration order of a \<open>range\<close> over a map. A Go string is its list of bytes.
\<close>

section \<open>Split\<close>

text \<open>\<open>strings.Split(s, sep)\<close> for a separator of one byte, the only use in the repository.\<close>

fun strings_Split :: "string \<Rightarrow> char \<Rightarrow> string list" where
  "strings_Split [] c = [[]]"
| "strings_Split (x # xs) c =
     (if x = c then [] # strings_Split xs c
      else (case strings_Split xs c of [] \<Rightarrow> [[x]] | y # ys \<Rightarrow> (x # y) # ys))"

lemma strings_Split_nonempty [simp]: "strings_Split s c \<noteq> []"
  by (induction s c rule: strings_Split.induct) (auto split: list.splits)

lemma strings_Split_pieces: "p \<in> set (strings_Split s c) \<Longrightarrow> c \<notin> set p"
  by (induction s c arbitrary: p rule: strings_Split.induct)
    (auto split: list.splits if_splits)

lemma strings_Split_join: "join [c] (strings_Split s c) = s"
proof (induction s c rule: strings_Split.induct)
  case (1 c)
  then show ?case by simp
next
  case (2 x xs c)
  show ?case
  proof (cases "strings_Split xs c")
    case Nil
    then show ?thesis by simp
  next
    case (Cons y ys)
    with 2 show ?thesis by (cases "x = c"; cases ys) auto
  qed
qed

lemma strings_Split_free: "c \<notin> set p \<Longrightarrow> strings_Split p c = [p]"
  by (induction p) auto

lemma strings_Split_append:
  "c \<notin> set p \<Longrightarrow> strings_Split (p @ c # s) c = p # strings_Split s c"
  by (induction p) auto

text \<open>Splitting undoes joining when no piece contains the separator.\<close>

lemma strings_Split_of_join:
  "ps \<noteq> [] \<Longrightarrow> (\<And>p. p \<in> set ps \<Longrightarrow> c \<notin> set p) \<Longrightarrow> strings_Split (join [c] ps) c = ps"
proof (induction "[c]" ps rule: join.induct)
  case 1
  then show ?case by simp
next
  case (2 p)
  then show ?case by (simp add: strings_Split_free)
next
  case (3 p q ps)
  then show ?case by (simp add: strings_Split_append)
qed

section \<open>Case folding\<close>

text \<open>ASCII case mapping of one byte.\<close>

definition is_upper :: "char \<Rightarrow> bool" where
  "is_upper c \<longleftrightarrow> 65 \<le> (of_char c :: nat) \<and> (of_char c :: nat) \<le> 90"

definition ascii_lower :: "char \<Rightarrow> char" where
  "ascii_lower c = (if is_upper c then char_of (of_char c + 32 :: nat) else c)"

text \<open>
  \<open>strings.EqualFold(s, t)\<close> with an ASCII second argument (a literal at every call). Under
  Unicode simple folding an ASCII letter is equal to its two cases, and further \<open>k\<close> to U+212A
  (bytes E2 84 AA) and \<open>s\<close> to U+017F (bytes C5 BF).
\<close>

fun strings_EqualFold :: "string \<Rightarrow> string \<Rightarrow> bool" where
  "strings_EqualFold s [] = (s = [])"
| "strings_EqualFold [] (d # t) = False"
| "strings_EqualFold (c # s) (d # t) =
     (if ascii_lower c = ascii_lower d then strings_EqualFold s t
      else if ascii_lower d = CHR ''s'' \<and> c = CHR 0xC5 \<and> s \<noteq> [] \<and> hd s = CHR 0xBF
        then strings_EqualFold (tl s) t
      else if ascii_lower d = CHR ''k'' \<and> c = CHR 0xE2 \<and> take 2 s = [CHR 0x84, CHR 0xAA]
        then strings_EqualFold (drop 2 s) t
      else False)"

lemma strings_EqualFold_refl [simp]: "strings_EqualFold s s"
  by (induction s) auto

lemma strings_EqualFold_ascii:
  "map ascii_lower s = map ascii_lower t \<Longrightarrow> strings_EqualFold s t"
  by (induction s t rule: strings_EqualFold.induct) auto

text \<open>
  \<open>strings.ToLower\<close>, exact on the ASCII bytes of the result: U+0130 (C4 B0) is mapped to
  \<open>i\<close> and U+212A (E2 84 AA) to \<open>k\<close>; every other rune outside ASCII stays outside ASCII and
  its bytes are kept.
\<close>

fun strings_ToLower :: "string \<Rightarrow> string" where
  "strings_ToLower [] = []"
| "strings_ToLower (c # s) =
     (if c = CHR 0xC4 \<and> s \<noteq> [] \<and> hd s = CHR 0xB0 then CHR ''i'' # strings_ToLower (tl s)
      else if c = CHR 0xE2 \<and> take 2 s = [CHR 0x84, CHR 0xAA] then CHR ''k'' # strings_ToLower (drop 2 s)
      else ascii_lower c # strings_ToLower s)"

section \<open>Searching\<close>

fun strings_HasPrefix :: "string \<Rightarrow> string \<Rightarrow> bool" where
  "strings_HasPrefix s [] = True"
| "strings_HasPrefix [] (d # t) = False"
| "strings_HasPrefix (c # s) (d # t) = (c = d \<and> strings_HasPrefix s t)"

lemma strings_HasPrefix_iff: "strings_HasPrefix s t \<longleftrightarrow> (\<exists>u. s = t @ u)"
  by (induction s t rule: strings_HasPrefix.induct) auto

definition strings_HasSuffix :: "string \<Rightarrow> string \<Rightarrow> bool" where
  "strings_HasSuffix s t = strings_HasPrefix (rev s) (rev t)"

lemma strings_HasSuffix_iff: "strings_HasSuffix s t \<longleftrightarrow> (\<exists>u. s = u @ t)"
  by (auto simp: strings_HasSuffix_def strings_HasPrefix_iff)
    (metis rev_append rev_rev_ident)

fun strings_Contains :: "string \<Rightarrow> string \<Rightarrow> bool" where
  "strings_Contains [] t = (t = [])"
| "strings_Contains (c # s) t = (strings_HasPrefix (c # s) t \<or> strings_Contains s t)"

lemma strings_Contains_iff: "strings_Contains s t \<longleftrightarrow> (\<exists>u v. s = u @ t @ v)"
proof (induction s t rule: strings_Contains.induct)
  case (1 t)
  then show ?case by auto
next
  case (2 c s t)
  show ?case
  proof
    assume "strings_Contains (c # s) t"
    then consider "strings_HasPrefix (c # s) t" | "strings_Contains s t" by auto
    then show "\<exists>u v. c # s = u @ t @ v"
    proof cases
      case 1
      then show ?thesis
        unfolding strings_HasPrefix_iff by (metis append_Nil)
    next
      case 2
      then show ?thesis
        using \<open>strings_Contains s t \<longleftrightarrow> (\<exists>u v. s = u @ t @ v)\<close> by (metis append_Cons)
    qed
  next
    assume "\<exists>u v. c # s = u @ t @ v"
    then obtain u v where uv: "c # s = u @ t @ v" by blast
    show "strings_Contains (c # s) t"
    proof (cases u)
      case Nil
      with uv have "strings_HasPrefix (c # s) t"
        unfolding strings_HasPrefix_iff by (metis append_Nil)
      then show ?thesis by simp
    next
      case (Cons a u')
      with uv have "s = u' @ t @ v" by simp
      with 2 show ?thesis by auto
    qed
  qed
qed

text \<open>\<open>strings.LastIndex(s, c)\<close> for a one-byte needle: the index of the last occurrence or \<open>-1\<close>.\<close>

fun strings_LastIndex :: "string \<Rightarrow> char \<Rightarrow> int" where
  "strings_LastIndex [] c = -1"
| "strings_LastIndex (x # xs) c =
     (let i = strings_LastIndex xs c in if 0 \<le> i then i + 1 else if x = c then 0 else -1)"

lemma strings_LastIndex_ge: "-1 \<le> strings_LastIndex s c"
  by (induction s c rule: strings_LastIndex.induct) (auto simp: Let_def)

lemma strings_LastIndex_absent: "c \<notin> set s \<Longrightarrow> strings_LastIndex s c = -1"
  by (induction s) auto

lemma strings_LastIndex_append:
  "c \<notin> set v \<Longrightarrow> strings_LastIndex (u @ c # v) c = int (length u)"
  by (induction u) (auto simp: strings_LastIndex_absent Let_def)

text \<open>\<open>strings.ReplaceAll\<close> of one byte by another.\<close>

definition strings_ReplaceAll :: "string \<Rightarrow> char \<Rightarrow> char \<Rightarrow> string" where
  "strings_ReplaceAll s old new = map (\<lambda>x. if x = old then new else x) s"

section \<open>Slice expressions\<close>

text \<open>\<open>s[lo:hi]\<close> panics unless \<open>0 \<le> lo \<le> hi \<le> len(s)\<close>.\<close>

definition slice_expr :: "'a list \<Rightarrow> int \<Rightarrow> int \<Rightarrow> 'a list outcome" where
  "slice_expr s lo hi =
     (if 0 \<le> lo \<and> lo \<le> hi \<and> hi \<le> int (length s)
      then Return (take (nat hi - nat lo) (drop (nat lo) s)) else Panic SliceBounds)"

section \<open>Iteration order of maps\<close>

text \<open>
  A \<open>range\<close> over a map visits every key once, in an order the language leaves open. The order
  is a function from the keys to their sequence of visits.
\<close>

type_synonym map_order = "string list \<Rightarrow> string list"

locale go_map_order =
  fixes order :: map_order
  assumes order_perm: "mset (order ks) = mset ks"
begin

lemma order_set: "set (order ks) = set ks"
  by (rule mset_eq_set_distinct(1) [OF order_perm])

lemma order_distinct: "distinct (order ks) = distinct ks"
  by (rule mset_eq_set_distinct(2) [OF order_perm])

end

text \<open>Two orders a run may take: the order of insertion, and its reverse.\<close>

interpretation insertion_order: go_map_order "\<lambda>ks. ks"
  by unfold_locales simp

interpretation reverse_order: go_map_order rev
  by unfold_locales simp

section \<open>Machine integers\<close>

text \<open>Go's \<open>int\<close> on the 64-bit platforms the operator is built for, and the narrow integers.\<close>

type_synonym go_int = "64 word"
type_synonym int32 = "32 word"
type_synonym int8 = "8 word"

text \<open>
  A conversion that saturates: the value is kept when the narrow type has it, and replaced by the
  nearest end of the range otherwise.
\<close>

locale saturating =
  fixes conv :: "go_int \<Rightarrow> 'b::len word"
  assumes conv_clamps: "sint (conv x) = max (- (2 ^ (LENGTH('b) - 1))) (min (2 ^ (LENGTH('b) - 1) - 1) (sint x))"
begin

lemma conv_exact:
  "- (2 ^ (LENGTH('b) - 1)) \<le> sint x \<Longrightarrow> sint x \<le> 2 ^ (LENGTH('b) - 1) - 1 \<Longrightarrow> sint (conv x) = sint x"
  by (simp add: conv_clamps)

lemma conv_mono: "sint x \<le> sint y \<Longrightarrow> sint (conv x) \<le> sint (conv y)"
  by (simp add: conv_clamps)

lemma conv_keeps_sign: "0 \<le> sint x \<Longrightarrow> 0 \<le> sint (conv x)"
  by (simp add: conv_clamps)

end

text \<open>Truncation, Go's own conversion between integer types, is exact on the narrow range.\<close>

lemma sint_ucast_exact:
  assumes "- (2 ^ (LENGTH('b) - 1)) \<le> sint x" and "sint x \<le> 2 ^ (LENGTH('b) - 1) - 1" and "LENGTH('b) \<le> LENGTH('a)"
  shows "sint (ucast (x :: 'a::len word) :: 'b::len word) = sint x"
proof -
  have "sint (ucast x :: 'b word) = signed_take_bit (LENGTH('b) - 1) (sint x)"
    using assms(3) by (simp add: sint_uint signed_take_bit_signed_take_bit unsigned_ucast_eq
        signed_take_bit_take_bit min_def le_diff_conv)
  also have "\<dots> = sint x" using assms(1,2) by (intro signed_take_bit_int_eq_self) simp_all
  finally show ?thesis .
qed

end
