(* ===== verification/Channel_Types.thy ===== *)
theory Channel_Types
  imports Go_Lib
begin

text \<open>
  The data model: the Channel API of \<open>pkg/apis/apps/v1\<close> (channel_types.go, register.go) and the
  fields of the Kubernetes objects that the operator reads or writes. Fields no line of the
  repository looks at (resource versions, timestamps, managed fields, list metadata) are left out.
  A Go map of strings is a partial function; the code replaces a \<open>nil\<close> map by an empty one
  before it writes, so both are the empty map.
\<close>

section \<open>The group and its annotation keys\<close>

text \<open>register.go, \<open>apiGroup\<close>; channel_types.go, the keys derived from it.\<close>

definition apiGroup :: string where
  "apiGroup = ''apps.open-cluster-management.io''"

record GroupVersion =
  gvGroup :: string
  gvVersion :: string

definition SchemeGroupVersion :: GroupVersion where
  "SchemeGroupVersion = \<lparr>gvGroup = apiGroup, gvVersion = ''v1''\<rparr>"

text \<open>\<open>GroupVersion.String\<close>, by which a scheme is named below.\<close>

definition gv_String :: "GroupVersion \<Rightarrow> string" where
  "gv_String gv = gvGroup gv @ ''/'' @ gvVersion gv"

text \<open>\<open>SchemeGroupVersion.WithResource(resource).GroupResource()\<close>.\<close>

record GroupResource =
  grGroup :: string
  grResource :: string

definition Resource :: "string \<Rightarrow> GroupResource" where
  "Resource resource = \<lparr>grGroup = gvGroup SchemeGroupVersion, grResource = resource\<rparr>"

text \<open>\<open>SchemeBuilder\<close>: the group version, and the kinds that \<open>init\<close> of channel_types.go registers.\<close>

record SchemeBuilder =
  sbGroupVersion :: GroupVersion
  sbKinds :: "string list"

definition new_SchemeBuilder :: SchemeBuilder where
  "new_SchemeBuilder = \<lparr>sbGroupVersion = SchemeGroupVersion, sbKinds = []\<rparr>"

definition sb_Register :: "string list \<Rightarrow> SchemeBuilder \<Rightarrow> SchemeBuilder" where
  "sb_Register kinds sb = sb\<lparr>sbKinds := sbKinds sb @ kinds\<rparr>"

definition registered_types :: SchemeBuilder where
  "registered_types = sb_Register [''Channel'', ''ChannelList''] new_SchemeBuilder"

definition KeyChannelSource :: string where
  "KeyChannelSource = apiGroup @ ''/hosting-deployable''"

definition KeyChannel :: string where
  "KeyChannel = apiGroup @ ''/channel''"

definition KeyChannelType :: string where
  "KeyChannelType = apiGroup @ ''/channel-type''"

definition KeyChannelPath :: string where
  "KeyChannelPath = apiGroup @ ''/channel-path''"

definition ServingChannel :: string where
  "ServingChannel = apiGroup @ ''/serving-channel''"

section \<open>Channel types\<close>

definition ChannelTypeNamespace :: string where
  "ChannelTypeNamespace = ''namespace''"

definition ChannelTypeHelmRepo :: string where
  "ChannelTypeHelmRepo = ''helmrepo''"

definition ChannelTypeObjectBucket :: string where
  "ChannelTypeObjectBucket = ''objectbucket''"

definition ChannelTypeGitHub :: string where
  "ChannelTypeGitHub = ''github''"

definition ChannelTypeGit :: string where
  "ChannelTypeGit = ''git''"

text \<open>The least TLS version, as crypto/tls numbers it and as text.\<close>

definition TLSMinVersionInt :: int where
  "TLSMinVersionInt = 0x0303"

definition TLSMinVersionString :: string where
  "TLSMinVersionString = ''1.2''"

lemmas channel_type_defs =
  ChannelTypeNamespace_def ChannelTypeHelmRepo_def ChannelTypeObjectBucket_def
  ChannelTypeGitHub_def ChannelTypeGit_def

section \<open>Metadata and references\<close>

record NamespacedName =
  nnNamespace :: string
  nnName :: string

abbreviation nskey :: "string \<Rightarrow> string \<Rightarrow> NamespacedName" where
  "nskey ns n \<equiv> \<lparr>nnNamespace = ns, nnName = n\<rparr>"

lemma nskey_surj [simp]: "nskey (nnNamespace k) (nnName k) = k"
  by simp

record GroupVersionKind =
  gvkGroup :: string
  gvkVersion :: string
  gvkKind :: string

text \<open>\<open>GroupVersionKind.String\<close>.\<close>

definition gvk_String :: "GroupVersionKind \<Rightarrow> string" where
  "gvk_String g = gvkGroup g @ ''/'' @ gvkVersion g @ '', Kind='' @ gvkKind g"

record ObjectReference =
  refNamespace :: string
  refName :: string

record OwnerReference =
  orAPIVersion :: string
  orKind :: string
  orName :: string
  orUID :: string
  orController :: bool

type_synonym str_map = "string \<rightharpoonup> string"

record ObjectMeta =
  omNamespace :: string
  omName :: string
  omLabels :: str_map
  omAnnotations :: str_map
  omOwnerReferences :: "OwnerReference list"

definition plain_meta :: "string \<Rightarrow> string \<Rightarrow> ObjectMeta" where
  "plain_meta ns n = \<lparr>omNamespace = ns, omName = n, omLabels = Map.empty,
     omAnnotations = Map.empty, omOwnerReferences = []\<rparr>"

lemma plain_meta_sel [simp]:
  "omNamespace (plain_meta ns n) = ns"
  "omName (plain_meta ns n) = n"
  "omLabels (plain_meta ns n) = Map.empty"
  "omAnnotations (plain_meta ns n) = Map.empty"
  "omOwnerReferences (plain_meta ns n) = []"
  by (simp_all add: plain_meta_def)

definition key_of_meta :: "ObjectMeta \<Rightarrow> NamespacedName" where
  "key_of_meta m = nskey (omNamespace m) (omName m)"

lemma key_of_meta_plain [simp]: "key_of_meta (plain_meta ns n) = nskey ns n"
  by (simp add: key_of_meta_def)

section \<open>The Channel resource\<close>

text \<open>
  The labels to match as the list of their entries, so that they can be enumerated. \<open>None\<close> as the
  annotations of a gate is the nil map, which is another value than the empty map.
\<close>

record LabelSelector =
  MatchLabels :: "(string \<times> string) list"
  MatchExpressions :: "(string \<times> string \<times> string list) list"

record ChannelGate =
  gateName :: string
  gateLabelSelector :: "LabelSelector option"
  gateAnnotations :: "str_map option"

record ChannelSpec =
  spType :: string
  Pathname :: string
  InsecureSkipVerify :: bool
  SecretRef :: "ObjectReference option"
  ConfigMapRef :: "ObjectReference option"
  Gates :: "ChannelGate option"
  SourceNamespaces :: "string slice"

record Channel =
  chMeta :: ObjectMeta
  chUID :: string
  chSpec :: ChannelSpec

abbreviation chName :: "Channel \<Rightarrow> string" where
  "chName ch \<equiv> omName (chMeta ch)"

abbreviation chNamespace :: "Channel \<Rightarrow> string" where
  "chNamespace ch \<equiv> omNamespace (chMeta ch)"

abbreviation chKey :: "Channel \<Rightarrow> NamespacedName" where
  "chKey ch \<equiv> key_of_meta (chMeta ch)"

section \<open>Objects of the cluster the operator works on\<close>

text \<open>
  Secrets and ConfigMaps: the controller handles both as \<open>unstructured.Unstructured\<close> objects
  told apart by their GroupVersionKind, the certificate code handles Secrets by their \<open>Data\<close>.
\<close>

record DataObject =
  doMeta :: ObjectMeta
  doType :: string
  doData :: "string \<rightharpoonup> bytes"

record PolicyRule =
  prVerbs :: "string slice"
  prAPIGroups :: "string slice"
  prResources :: "string slice"
  prResourceNames :: "string slice"

record Role =
  roleMeta :: ObjectMeta
  roleRules :: "PolicyRule slice"

record Subject =
  sjKind :: string
  sjAPIGroup :: string
  sjName :: string
  sjNamespace :: string

record RoleRef =
  rrAPIGroup :: string
  rrKind :: string
  rrName :: string

record RoleBinding =
  rbMeta :: ObjectMeta
  rbSubjects :: "Subject slice"
  rbRoleRef :: RoleRef

record ManagedCluster =
  mcMeta :: ObjectMeta

record MultiClusterHub =
  mchMeta :: ObjectMeta

text \<open>Owners of what the webhook creates: the operator's Deployment and the Channel CRD.\<close>

record OwnerObject =
  ooMeta :: ObjectMeta
  ooUID :: string

record ServicePort =
  svcPort :: int32
  svcTargetPort :: int32

record Service =
  svcMeta :: ObjectMeta
  svcPorts :: "ServicePort list"
  svcSelector :: str_map
  svcClusterIP :: string

record Endpoints =
  epMeta :: ObjectMeta
  epSubsets :: "(string list \<times> int32 list) list"

record ServiceReference =
  srNamespace :: string
  srName :: string
  srPath :: "string option"

record WebhookRule =
  wrAPIGroups :: "string list"
  wrAPIVersions :: "string list"
  wrResources :: "string list"
  wrOperations :: "string list"

record ValidatingWebhook =
  vwName :: string
  vwAdmissionReviewVersions :: "string list"
  vwSideEffects :: "string option"
  vwFailurePolicy :: "string option"
  vwService :: "ServiceReference option"
  vwCABundle :: bytes
  vwRules :: "WebhookRule list"
  vwTimeoutSeconds :: "int32 option"

record WebhookConfiguration =
  wcMeta :: ObjectMeta
  wcWebhooks :: "ValidatingWebhook list"

end
