(* ===== verification/Kube_Api.thy ===== *)
theory Kube_Api
  imports Channel_Types
begin

text \<open>
  The Kubernetes API as the operator sees it. \<open>client.Client\<close>, \<open>dynamic.Interface\<close> and the
  helper functions of apimachinery and controller-runtime are not part of the repository: they are
  the fields of a record \<open>Env\<close> that every definition takes as an argument, over an abstract
  world \<open>'w\<close> that every call may change. What the operator relies on is stated as locales:
  \<open>kind_api\<close> for one kind of object, \<open>kube_api\<close> for the whole environment, and their
  extensions \<open>kind_api_calm\<close> and \<open>kube_api_calm\<close> for a world in which no call fails
  without a reason. A failing write may or may not have reached the server, as with a timeout.
  The laws describe a period in which no other actor writes to the cluster.

  The theory Kube_Mem gives an in-memory client with a script of faults, the counterpart of the
  fake client with interceptors that the repository's tests use, and proves the laws for it.
\<close>

section \<open>The client\<close>

type_synonym selector = "str_map \<Rightarrow> bool"

record ListOptions =
  loNamespace :: string
  loLabelSelector :: selector

definition all_objects :: ListOptions where
  "all_objects = \<lparr>loNamespace = [], loLabelSelector = (\<lambda>_. True)\<rparr>"

definition InNamespace :: "string \<Rightarrow> ListOptions" where
  "InNamespace ns = \<lparr>loNamespace = ns, loLabelSelector = (\<lambda>_. True)\<rparr>"

definition lo_matches :: "ListOptions \<Rightarrow> ObjectMeta \<Rightarrow> bool" where
  "lo_matches lo m \<longleftrightarrow>
     (loNamespace lo = [] \<or> omNamespace m = loNamespace lo) \<and> loLabelSelector lo (omLabels m)"

lemma lo_matches_simps [simp]:
  "lo_matches all_objects m"
  "lo_matches (InNamespace ns) m \<longleftrightarrow> ns = [] \<or> omNamespace m = ns"
  by (simp_all add: lo_matches_def all_objects_def InNamespace_def)

text \<open>
  The calls for one kind of object. \<open>Create\<close> and \<open>Update\<close> write the server's answer into
  their argument, so they return the object.
\<close>

record ('w, 'o) kind_client =
  kGet :: "NamespacedName \<Rightarrow> 'w \<Rightarrow> (api_err + 'o) \<times> 'w"
  kList :: "ListOptions \<Rightarrow> 'w \<Rightarrow> (api_err + 'o list) \<times> 'w"
  kCreate :: "'o \<Rightarrow> 'w \<Rightarrow> (api_err + 'o) \<times> 'w"
  kUpdate :: "'o \<Rightarrow> 'w \<Rightarrow> (api_err + 'o) \<times> 'w"
  kDelete :: "'o \<Rightarrow> 'w \<Rightarrow> (api_err + unit) \<times> 'w"

record GroupVersionResource =
  gvrGroup :: string
  gvrVersion :: string
  gvrResource :: string

record 'w Env =
  channels :: "('w, Channel) kind_client"
  dataObjects :: "GroupVersionKind \<Rightarrow> ('w, DataObject) kind_client"
  roles :: "('w, Role) kind_client"
  roleBindings :: "('w, RoleBinding) kind_client"
  managedClusters :: "('w, ManagedCluster) kind_client"
  services :: "('w, Service) kind_client"
  endpoints :: "('w, Endpoints) kind_client"
  webhookConfigs :: "('w, WebhookConfiguration) kind_client"
  deployments :: "('w, OwnerObject) kind_client"
  crds :: "('w, OwnerObject) kind_client"
  dynListHubs :: "GroupVersionResource \<Rightarrow> 'w \<Rightarrow> (MultiClusterHub list option \<times> api_err option) \<times> 'w"
  mapOrder :: "'w \<Rightarrow> map_order \<times> 'w"
  SetControllerReference :: "Channel \<Rightarrow> ObjectMeta \<Rightarrow> go_error + ObjectMeta"
  nnString :: "NamespacedName \<Rightarrow> string"
  LabelSelectorAsSelector :: "LabelSelector \<Rightarrow> go_error + selector"

section \<open>The state of a cluster\<close>

record cluster =
  clChannels :: "NamespacedName \<rightharpoonup> Channel"
  clDataObjects :: "GroupVersionKind \<Rightarrow> NamespacedName \<rightharpoonup> DataObject"
  clRoles :: "NamespacedName \<rightharpoonup> Role"
  clRoleBindings :: "NamespacedName \<rightharpoonup> RoleBinding"
  clManagedClusters :: "NamespacedName \<rightharpoonup> ManagedCluster"
  clServices :: "NamespacedName \<rightharpoonup> Service"
  clEndpoints :: "NamespacedName \<rightharpoonup> Endpoints"
  clWebhookConfigs :: "NamespacedName \<rightharpoonup> WebhookConfiguration"
  clDeployments :: "NamespacedName \<rightharpoonup> OwnerObject"
  clCrds :: "NamespacedName \<rightharpoonup> OwnerObject"
  clHubs :: "NamespacedName \<rightharpoonup> MultiClusterHub"

text \<open>The objects of one GroupVersionKind as a component of the cluster.\<close>

definition data_sel :: "GroupVersionKind \<Rightarrow> cluster \<Rightarrow> NamespacedName \<rightharpoonup> DataObject" where
  "data_sel g c = clDataObjects c g"

definition data_upd ::
  "GroupVersionKind \<Rightarrow> ((NamespacedName \<rightharpoonup> DataObject) \<Rightarrow> (NamespacedName \<rightharpoonup> DataObject)) \<Rightarrow> cluster \<Rightarrow> cluster" where
  "data_upd g f c = c\<lparr>clDataObjects := (clDataObjects c)(g := f (clDataObjects c g))\<rparr>"

lemma data_upd_frame [frame_simps, simp]:
  "clChannels (data_upd g f c) = clChannels c"
  "clRoles (data_upd g f c) = clRoles c"
  "clRoleBindings (data_upd g f c) = clRoleBindings c"
  "clManagedClusters (data_upd g f c) = clManagedClusters c"
  "clServices (data_upd g f c) = clServices c"
  "clEndpoints (data_upd g f c) = clEndpoints c"
  "clWebhookConfigs (data_upd g f c) = clWebhookConfigs c"
  "clDeployments (data_upd g f c) = clDeployments c"
  "clCrds (data_upd g f c) = clCrds c"
  "clHubs (data_upd g f c) = clHubs c"
  "clDataObjects (data_upd g f c) = (clDataObjects c)(g := f (clDataObjects c g))"
  by (simp_all add: data_upd_def)

section \<open>What one kind of client promises\<close>

locale kind_api =
  fixes ops :: "('w, 'o) kind_client"
    and meta :: "'o \<Rightarrow> ObjectMeta"
    and fill :: "'o \<Rightarrow> 'o \<Rightarrow> bool"
    and st :: "'w \<Rightarrow> 's"
    and sel :: "'s \<Rightarrow> NamespacedName \<rightharpoonup> 'o"
    and upd :: "((NamespacedName \<rightharpoonup> 'o) \<Rightarrow> (NamespacedName \<rightharpoonup> 'o)) \<Rightarrow> 's \<Rightarrow> 's"
  assumes sel_upd: "sel (upd f s) = f (sel s)"
    and keyed: "sel (st w) k = Some ob \<Longrightarrow> key_of_meta (meta ob) = k"
    and fill_meta: "fill ob ob' \<Longrightarrow> meta ob' = meta ob"
    and get_st: "kGet ops k w = (r, w') \<Longrightarrow> st w' = st w"
    and get_ok: "kGet ops k w = (Inr ob, w') \<Longrightarrow> sel (st w) k = Some ob"
    and get_nf: "kGet ops k w = (Inl NotFound, w') \<Longrightarrow> sel (st w) k = None"
    and list_st: "kList ops lo w = (l, w') \<Longrightarrow> st w' = st w"
    and list_ok: "kList ops lo w = (Inr obs, w') \<Longrightarrow>
       set obs = {ob. \<exists>k. sel (st w) k = Some ob \<and> lo_matches lo (meta ob)}"
    and list_distinct: "kList ops lo w = (Inr obs, w') \<Longrightarrow>
       distinct (map (\<lambda>ob. key_of_meta (meta ob)) obs)"
    and create_ok: "kCreate ops ob w = (Inr ob', w') \<Longrightarrow>
       fill ob ob' \<and> sel (st w) (key_of_meta (meta ob)) = None \<and>
       st w' = upd (\<lambda>m. m(key_of_meta (meta ob) \<mapsto> ob')) (st w)"
    and create_err: "kCreate ops ob w = (Inl e, w') \<Longrightarrow>
       st w' = st w \<or> sel (st w) (key_of_meta (meta ob)) = None \<and>
         (\<exists>ob'. fill ob ob' \<and> st w' = upd (\<lambda>m. m(key_of_meta (meta ob) \<mapsto> ob')) (st w))"
    and create_exists: "kCreate ops ob w = (Inl AlreadyExists, w') \<Longrightarrow>
       sel (st w) (key_of_meta (meta ob)) \<noteq> None \<and> st w' = st w"
    and update_ok: "kUpdate ops ob w = (Inr ob', w') \<Longrightarrow>
       fill ob ob' \<and> sel (st w) (key_of_meta (meta ob)) \<noteq> None \<and>
       st w' = upd (\<lambda>m. m(key_of_meta (meta ob) \<mapsto> ob')) (st w)"
    and update_err: "kUpdate ops ob w = (Inl e, w') \<Longrightarrow>
       st w' = st w \<or> sel (st w) (key_of_meta (meta ob)) \<noteq> None \<and>
         (\<exists>ob'. fill ob ob' \<and> st w' = upd (\<lambda>m. m(key_of_meta (meta ob) \<mapsto> ob')) (st w))"
    and delete_ok: "kDelete ops ob w = (Inr u, w') \<Longrightarrow>
       st w' = upd (\<lambda>m. m(key_of_meta (meta ob) := None)) (st w)"
    and delete_err: "kDelete ops ob w = (Inl e, w') \<Longrightarrow>
       st w' = st w \<or> st w' = upd (\<lambda>m. m(key_of_meta (meta ob) := None)) (st w)"
    and delete_nf: "kDelete ops ob w = (Inl NotFound, w') \<Longrightarrow>
       sel (st w) (key_of_meta (meta ob)) = None \<and> st w' = st w"
    and upd_upd: "upd f (upd g s) = upd (\<lambda>m. f (g m)) s"
begin

text \<open>Whatever a write answers, it touches at most the entry of its object.\<close>

lemma create_touches:
  "kCreate ops ob w = (r, w') \<Longrightarrow>
   st w' = st w \<or> (\<exists>ob'. fill ob ob' \<and> sel (st w) (key_of_meta (meta ob)) = None \<and>
      st w' = upd (\<lambda>m. m(key_of_meta (meta ob) \<mapsto> ob')) (st w))"
  by (cases r) (auto dest: create_ok create_err)

lemma update_touches:
  "kUpdate ops ob w = (r, w') \<Longrightarrow>
   st w' = st w \<or> (\<exists>ob'. fill ob ob' \<and> sel (st w) (key_of_meta (meta ob)) \<noteq> None \<and>
      st w' = upd (\<lambda>m. m(key_of_meta (meta ob) \<mapsto> ob')) (st w))"
  by (cases r) (auto dest: update_ok update_err)

lemma delete_touches:
  "kDelete ops ob w = (r, w') \<Longrightarrow>
   st w' = st w \<or> st w' = upd (\<lambda>m. m(key_of_meta (meta ob) := None)) (st w)"
  by (cases r) (auto dest: delete_ok delete_err)

lemma list_mem:
  "kList ops lo w = (Inr obs, w') \<Longrightarrow> ob \<in> set obs \<longleftrightarrow>
   sel (st w) (key_of_meta (meta ob)) = Some ob \<and> lo_matches lo (meta ob)"
  by (drule list_ok) (auto dest: keyed)

end

text \<open>
  A server may refuse to change a field that is immutable: \<open>may_update old new\<close> says which updates
  it accepts.
\<close>

locale kind_api_calm = kind_api +
  fixes calm :: "'a \<Rightarrow> bool" and may_update :: "'b \<Rightarrow> 'b \<Rightarrow> bool"
  assumes calm_get: "calm w \<Longrightarrow> \<exists>w'. calm w' \<and>
       kGet ops k w = (case sel (st w) k of None \<Rightarrow> Inl NotFound | Some ob \<Rightarrow> Inr ob, w')"
    and calm_list: "calm w \<Longrightarrow> \<exists>obs w'. calm w' \<and> kList ops lo w = (Inr obs, w')"
    and calm_create: "calm w \<Longrightarrow> sel (st w) (key_of_meta (meta ob)) = None \<Longrightarrow>
       \<exists>ob' w'. calm w' \<and> kCreate ops ob w = (Inr ob', w')"
    and calm_update: "calm w \<Longrightarrow> sel (st w) (key_of_meta (meta ob)) = Some old \<Longrightarrow> may_update old ob \<Longrightarrow>
       \<exists>ob' w'. calm w' \<and> kUpdate ops ob w = (Inr ob', w')"
    and calm_delete: "calm w \<Longrightarrow> sel (st w) (key_of_meta (meta ob)) \<noteq> None \<Longrightarrow>
       \<exists>w'. calm w' \<and> kDelete ops ob w = (Inr (), w')"

section \<open>What the environment promises\<close>

text \<open>The server fills in the cluster IP of a new service; nothing else the code reads.\<close>

definition svc_fill :: "Service \<Rightarrow> Service \<Rightarrow> bool" where
  "svc_fill s s' \<longleftrightarrow> (\<exists>ip. s' = s\<lparr>svcClusterIP := ip\<rparr>)"

lemma svc_fill_refl [simp]: "svc_fill s s"
  unfolding svc_fill_def by (rule exI [of _ "svcClusterIP s"]) simp

lemma svc_fillD: "svc_fill s s' \<Longrightarrow> s'\<lparr>svcClusterIP := []\<rparr> = s\<lparr>svcClusterIP := []\<rparr>"
  by (auto simp: svc_fill_def)

definition match_labels :: "(string \<times> string) list \<Rightarrow> str_map \<Rightarrow> bool" where
  "match_labels want ls \<longleftrightarrow> list_all (\<lambda>(k, v). ls k = Some v) want"

locale kube_api =
  chn: kind_api "channels e" chMeta "(=)" st clChannels clChannels_update +
  rol: kind_api "roles e" roleMeta "(=)" st clRoles clRoles_update +
  rbd: kind_api "roleBindings e" rbMeta "(=)" st clRoleBindings clRoleBindings_update +
  mcl: kind_api "managedClusters e" mcMeta "(=)" st clManagedClusters clManagedClusters_update +
  svc: kind_api "services e" svcMeta svc_fill st clServices clServices_update +
  epn: kind_api "endpoints e" epMeta "(=)" st clEndpoints clEndpoints_update +
  wcf: kind_api "webhookConfigs e" wcMeta "(=)" st clWebhookConfigs clWebhookConfigs_update +
  dpl: kind_api "deployments e" ooMeta "(=)" st clDeployments clDeployments_update +
  crd: kind_api "crds e" ooMeta "(=)" st clCrds clCrds_update
  for e :: "'w Env" and st :: "'w \<Rightarrow> cluster" +
  assumes data_api: "kind_api (dataObjects e g) doMeta (=) st (data_sel g) (data_upd g)"
    and hubs_st: "dynListHubs e gvr w = (h, w') \<Longrightarrow> st w' = st w"
    and hubs_ok: "gvrResource gvr = ''multiclusterhubs'' \<Longrightarrow>
       dynListHubs e gvr w = ((Some hs, None), w') \<Longrightarrow>
       set hs = ran (clHubs (st w)) \<and> distinct (map (\<lambda>h. key_of_meta (mchMeta h)) hs)"
    and order_st: "mapOrder e w = (ord, w') \<Longrightarrow> st w' = st w"
    and order_ok: "mapOrder e w = (ord, w') \<Longrightarrow> go_map_order ord"
    and ctrl_ref: "SetControllerReference e ch m = Inr m' \<Longrightarrow>
       m' = m\<lparr>omOwnerReferences := omOwnerReferences m'\<rparr>"
    and nn_string: "nnString e k = nnNamespace k @ ''/'' @ nnName k"
    and selector_labels: "MatchExpressions ls = [] \<Longrightarrow>
       LabelSelectorAsSelector e ls = Inr (match_labels (MatchLabels ls))"

text \<open>The role a binding refers to cannot be changed; everything else the operator updates can.\<close>

definition any_update :: "'o \<Rightarrow> 'o \<Rightarrow> bool" where
  "any_update old new = True"

definition binding_may_update :: "RoleBinding \<Rightarrow> RoleBinding \<Rightarrow> bool" where
  "binding_may_update old new \<longleftrightarrow> rbRoleRef new = rbRoleRef old"

lemma any_update_True [simp]: "any_update old new"
  by (simp add: any_update_def)

locale kube_api_calm = kube_api e st +
  chn: kind_api_calm "channels e" chMeta "(=)" st clChannels clChannels_update calm any_update +
  rol: kind_api_calm "roles e" roleMeta "(=)" st clRoles clRoles_update calm any_update +
  rbd: kind_api_calm "roleBindings e" rbMeta "(=)" st clRoleBindings clRoleBindings_update calm binding_may_update +
  mcl: kind_api_calm "managedClusters e" mcMeta "(=)" st clManagedClusters clManagedClusters_update calm any_update +
  svc: kind_api_calm "services e" svcMeta svc_fill st clServices clServices_update calm any_update +
  epn: kind_api_calm "endpoints e" epMeta "(=)" st clEndpoints clEndpoints_update calm any_update +
  wcf: kind_api_calm "webhookConfigs e" wcMeta "(=)" st clWebhookConfigs clWebhookConfigs_update calm any_update +
  dpl: kind_api_calm "deployments e" ooMeta "(=)" st clDeployments clDeployments_update calm any_update +
  crd: kind_api_calm "crds e" ooMeta "(=)" st clCrds clCrds_update calm any_update
  for e :: "'w Env" and st :: "'w \<Rightarrow> cluster" and calm :: "'w \<Rightarrow> bool" +
  assumes data_calm: "kind_api_calm (dataObjects e g) doMeta (=) st (data_sel g) (data_upd g) calm any_update"
    and hubs_calm: "calm w \<Longrightarrow> \<exists>hs w'. calm w' \<and> dynListHubs e gvr w = ((Some hs, None), w')"
    and order_calm: "mapOrder e w = (ord, w') \<Longrightarrow> calm w \<Longrightarrow> calm w'"

end
