(* ===== verification/Kube_Mem.thy ===== *)
theory Kube_Mem
  imports Kube_Api "HOL-Library.AList"
begin

text \<open>
  An executable in-memory API server: one list of objects per kind, the newest entry of a key
  first, and a script of faults. Each call takes the next entry of the script; an entry
  \<open>Some msg\<close> makes the call fail with that message and no effect, \<open>None\<close> and the empty
  script let it through. It plays the part of the fake client of
  \<open>pkg/webhook/createorrecreate_test.go\<close> and \<open>pkg/controller/channel/channel_controller_test.go\<close>.
  It satisfies the laws of \<open>kube_api_calm\<close> (calm: no fault left in the script), so they are
  consistent, and theorems that assume them can be run on concrete clusters.
\<close>

section \<open>The store\<close>

record mem =
  mChannels :: "Channel list"
  mDataObjects :: "(GroupVersionKind \<times> DataObject) list"
  mRoles :: "Role list"
  mRoleBindings :: "RoleBinding list"
  mManagedClusters :: "ManagedCluster list"
  mServices :: "Service list"
  mEndpoints :: "Endpoints list"
  mWebhookConfigs :: "WebhookConfiguration list"
  mDeployments :: "OwnerObject list"
  mCrds :: "OwnerObject list"
  mHubs :: "MultiClusterHub list"
  mFaults :: "string option list"

definition empty_mem :: mem where
  "empty_mem = \<lparr>mChannels = [], mDataObjects = [], mRoles = [], mRoleBindings = [],
     mManagedClusters = [], mServices = [], mEndpoints = [], mWebhookConfigs = [],
     mDeployments = [], mCrds = [], mHubs = [], mFaults = []\<rparr>"

definition keyed :: "('o \<Rightarrow> ObjectMeta) \<Rightarrow> 'o list \<Rightarrow> (NamespacedName \<times> 'o) list" where
  "keyed meta os = map (\<lambda>ob. (key_of_meta (meta ob), ob)) os"

definition store_map :: "('o \<Rightarrow> ObjectMeta) \<Rightarrow> 'o list \<Rightarrow> NamespacedName \<rightharpoonup> 'o" where
  "store_map meta os = map_of (keyed meta os)"

definition store_list :: "('o \<Rightarrow> ObjectMeta) \<Rightarrow> ListOptions \<Rightarrow> 'o list \<Rightarrow> 'o list" where
  "store_list meta lo os = filter (\<lambda>ob. lo_matches lo (meta ob)) (map snd (AList.clearjunk (keyed meta os)))"

definition store_delete :: "('o \<Rightarrow> ObjectMeta) \<Rightarrow> NamespacedName \<Rightarrow> 'o list \<Rightarrow> 'o list" where
  "store_delete meta k os = filter (\<lambda>ob. key_of_meta (meta ob) \<noteq> k) os"

lemma store_map_Nil [simp]: "store_map meta [] = Map.empty"
  by (simp add: store_map_def keyed_def)

lemma store_map_Cons [simp]:
  "store_map meta (ob # os) = (store_map meta os)(key_of_meta (meta ob) \<mapsto> ob)"
  by (simp add: store_map_def keyed_def)

lemma store_map_keyed: "store_map meta os k = Some ob \<Longrightarrow> key_of_meta (meta ob) = k"
  by (induction os) (auto split: if_splits)

lemma store_map_delete [simp]: "store_map meta (store_delete meta k os) = (store_map meta os)(k := None)"
  by (induction os) (auto simp: store_delete_def fun_eq_iff)

lemma clearjunk_keyed:
  "(k, ob) \<in> set (AList.clearjunk (keyed meta os)) \<longleftrightarrow> store_map meta os k = Some ob"
  by (metis store_map_def distinct_clearjunk map_of_clearjunk map_of_eq_Some_iff)

lemma store_list_set:
  "set (store_list meta lo os) = {ob. \<exists>k. store_map meta os k = Some ob \<and> lo_matches lo (meta ob)}"
  by (force simp: store_list_def simp flip: clearjunk_keyed)

lemma store_list_distinct: "distinct (map (\<lambda>ob. key_of_meta (meta ob)) (store_list meta lo os))"
proof -
  let ?al = "AList.clearjunk (keyed meta os)"
  have keys: "map (\<lambda>ob. key_of_meta (meta ob)) (map snd ?al) = map fst ?al"
    by (auto simp: clearjunk_keyed dest: store_map_keyed)
  have "distinct (map (\<lambda>ob. key_of_meta (meta ob)) (map snd ?al))"
    unfolding keys by (rule distinct_clearjunk)
  then show ?thesis
    unfolding store_list_def by (rule distinct_map_filter)
qed

section \<open>The calls\<close>

text \<open>Take the next entry of the fault script.\<close>

definition pop_fault :: "mem \<Rightarrow> string option \<times> mem" where
  "pop_fault m = (case mFaults m of [] \<Rightarrow> (None, m) | f # fs \<Rightarrow> (f, m\<lparr>mFaults := fs\<rparr>))"

definition faulty :: "(mem \<Rightarrow> (api_err + 'a) \<times> mem) \<Rightarrow> mem \<Rightarrow> (api_err + 'a) \<times> mem" where
  "faulty op m = (case pop_fault m of (Some msg, m') \<Rightarrow> (Inl (OtherErr msg), m') | (None, m') \<Rightarrow> op m')"

definition mem_client ::
  "('o \<Rightarrow> ObjectMeta) \<Rightarrow> ('o \<Rightarrow> 'o) \<Rightarrow> ('o \<Rightarrow> 'o \<Rightarrow> bool) \<Rightarrow> (mem \<Rightarrow> 'o list) \<Rightarrow> (('o list \<Rightarrow> 'o list) \<Rightarrow> mem \<Rightarrow> mem) \<Rightarrow> (mem, 'o) kind_client" where
  "mem_client meta alloc may sel upd = \<lparr>
     kGet = (\<lambda>k. faulty (\<lambda>m. (case store_map meta (sel m) k of None \<Rightarrow> Inl NotFound | Some ob \<Rightarrow> Inr ob, m))),
     kList = (\<lambda>lo. faulty (\<lambda>m. (Inr (store_list meta lo (sel m)), m))),
     kCreate = (\<lambda>ob. faulty (\<lambda>m. case store_map meta (sel m) (key_of_meta (meta ob)) of
        None \<Rightarrow> (Inr (alloc ob), upd (Cons (alloc ob)) m) | Some _ \<Rightarrow> (Inl AlreadyExists, m))),
     kUpdate = (\<lambda>ob. faulty (\<lambda>m. case store_map meta (sel m) (key_of_meta (meta ob)) of
        None \<Rightarrow> (Inl NotFound, m)
      | Some old \<Rightarrow> if may old ob then (Inr ob, upd (Cons ob) m) else (Inl (OtherErr ''field is immutable''), m))),
     kDelete = (\<lambda>ob. faulty (\<lambda>m. case store_map meta (sel m) (key_of_meta (meta ob)) of
        None \<Rightarrow> (Inl NotFound, m) | Some _ \<Rightarrow> (Inr (), upd (store_delete meta (key_of_meta (meta ob))) m)))\<rparr>"

text \<open>A service without an address gets one on creation.\<close>

definition alloc_ip :: "Service \<Rightarrow> Service" where
  "alloc_ip s = (if svcClusterIP s = [] then s\<lparr>svcClusterIP := ''10.0.0.1''\<rparr> else s)"

definition mem_data_sel :: "GroupVersionKind \<Rightarrow> mem \<Rightarrow> DataObject list" where
  "mem_data_sel g m = map snd (filter (\<lambda>x. fst x = g) (mDataObjects m))"

definition mem_data_upd :: "GroupVersionKind \<Rightarrow> (DataObject list \<Rightarrow> DataObject list) \<Rightarrow> mem \<Rightarrow> mem" where
  "mem_data_upd g f m = m\<lparr>mDataObjects :=
     map (Pair g) (f (mem_data_sel g m)) @ filter (\<lambda>x. fst x \<noteq> g) (mDataObjects m)\<rparr>"

text \<open>The controller reference of a channel; an object with another controller is refused.\<close>

definition mem_ctrl_ref :: "Channel \<Rightarrow> ObjectMeta \<Rightarrow> go_error + ObjectMeta" where
  "mem_ctrl_ref ch m =
     (if \<exists>r\<in>set (omOwnerReferences m). orController r \<and> orUID r \<noteq> chUID ch
      then Inl (NewErr ''already owned'')
      else Inr (m\<lparr>omOwnerReferences := \<lparr>orAPIVersion = apiGroup @ ''/v1'', orKind = ''Channel'',
        orName = chName ch, orUID = chUID ch, orController = True\<rparr> #
        filter (\<lambda>r. orUID r \<noteq> chUID ch) (omOwnerReferences m)\<rparr>))"

definition memEnv :: "mem Env" where
  "memEnv = \<lparr>
     channels = mem_client chMeta id any_update mChannels mChannels_update,
     dataObjects = (\<lambda>g. mem_client doMeta id any_update (mem_data_sel g) (mem_data_upd g)),
     roles = mem_client roleMeta id any_update mRoles mRoles_update,
     roleBindings = mem_client rbMeta id binding_may_update mRoleBindings mRoleBindings_update,
     managedClusters = mem_client mcMeta id any_update mManagedClusters mManagedClusters_update,
     services = mem_client svcMeta alloc_ip any_update mServices mServices_update,
     endpoints = mem_client epMeta id any_update mEndpoints mEndpoints_update,
     webhookConfigs = mem_client wcMeta id any_update mWebhookConfigs mWebhookConfigs_update,
     deployments = mem_client ooMeta id any_update mDeployments mDeployments_update,
     crds = mem_client ooMeta id any_update mCrds mCrds_update,
     dynListHubs = (\<lambda>gvr m. case pop_fault m of
        (Some msg, m') \<Rightarrow> ((None, Some (OtherErr msg)), m')
      | (None, m') \<Rightarrow> ((Some (store_list mchMeta all_objects (mHubs m')), None), m')),
     mapOrder = (\<lambda>m. (\<lambda>ks. ks, m)),
     SetControllerReference = mem_ctrl_ref,
     nnString = (\<lambda>k. nnNamespace k @ ''/'' @ nnName k),
     LabelSelectorAsSelector = (\<lambda>ls. if MatchExpressions ls = [] then Inr (match_labels (MatchLabels ls))
        else Inl (NewErr ''unsupported selector''))\<rparr>"

definition mem_cluster :: "mem \<Rightarrow> cluster" where
  "mem_cluster m = \<lparr>
     clChannels = store_map chMeta (mChannels m),
     clDataObjects = (\<lambda>g. store_map doMeta (mem_data_sel g m)),
     clRoles = store_map roleMeta (mRoles m),
     clRoleBindings = store_map rbMeta (mRoleBindings m),
     clManagedClusters = store_map mcMeta (mManagedClusters m),
     clServices = store_map svcMeta (mServices m),
     clEndpoints = store_map epMeta (mEndpoints m),
     clWebhookConfigs = store_map wcMeta (mWebhookConfigs m),
     clDeployments = store_map ooMeta (mDeployments m),
     clCrds = store_map ooMeta (mCrds m),
     clHubs = store_map mchMeta (mHubs m)\<rparr>"

definition mem_calm :: "mem \<Rightarrow> bool" where
  "mem_calm m \<longleftrightarrow> mFaults m = []"

section \<open>The laws hold\<close>

lemma mem_data_sel_upd [simp]:
  "mem_data_sel g' (mem_data_upd g f m) = (if g' = g then f (mem_data_sel g m) else mem_data_sel g' m)"
  by (auto simp: mem_data_upd_def mem_data_sel_def filter_map comp_def intro!: arg_cong [where f = "map snd"] filter_cong)

lemma mem_data_sel_faults [simp]: "mem_data_sel g (m\<lparr>mFaults := fs\<rparr>) = mem_data_sel g m"
  by (simp add: mem_data_sel_def)

lemma mem_cluster_faults [simp]: "mem_cluster (m\<lparr>mFaults := fs\<rparr>) = mem_cluster m"
  by (simp add: mem_cluster_def)

lemma pop_fault_cases:
  assumes "pop_fault m = (f, m')"
  shows "m' = m\<lparr>mFaults := mFaults m'\<rparr>" and "mem_calm m \<Longrightarrow> f = None \<and> m' = m"
  using assms by (auto simp: pop_fault_def mem_calm_def split: list.splits)

lemma faulty_calm: "mem_calm m \<Longrightarrow> faulty op m = op m"
  by (simp add: faulty_def pop_fault_def mem_calm_def)

lemma faulty_cases:
  assumes "faulty op m = (r, m'')"
  obtains (fault) msg m' where "r = Inl (OtherErr msg)" "m'' = m'" "m' = m\<lparr>mFaults := mFaults m'\<rparr>"
    | (through) m' where "m' = m\<lparr>mFaults := mFaults m'\<rparr>" "op m' = (r, m'')"
proof (cases "pop_fault m")
  case (Pair f m')
  note st = pop_fault_cases(1) [OF Pair]
  show ?thesis
  proof (cases f)
    case None
    with Pair assms st show ?thesis by (intro through) (auto simp: faulty_def)
  next
    case (Some msg)
    with Pair assms st show ?thesis by (intro fault) (auto simp: faulty_def)
  qed
qed

text \<open>
  One kind of the store: how its list and the cluster's map of the same kind are read and written.
\<close>

locale mem_kind =
  fixes meta :: "'o \<Rightarrow> ObjectMeta"
    and alloc :: "'o \<Rightarrow> 'o"
    and may :: "'o \<Rightarrow> 'o \<Rightarrow> bool"
    and fill :: "'o \<Rightarrow> 'o \<Rightarrow> bool"
    and sel :: "mem \<Rightarrow> 'o list"
    and upd :: "('o list \<Rightarrow> 'o list) \<Rightarrow> mem \<Rightarrow> mem"
    and csel :: "cluster \<Rightarrow> NamespacedName \<rightharpoonup> 'o"
    and cupd :: "((NamespacedName \<rightharpoonup> 'o) \<Rightarrow> (NamespacedName \<rightharpoonup> 'o)) \<Rightarrow> cluster \<Rightarrow> cluster"
  assumes sel_faults: "sel (m\<lparr>mFaults := fs\<rparr>) = sel m"
    and upd_faults: "mFaults (upd f m) = mFaults m"
    and csel_mem: "csel (mem_cluster m) = store_map meta (sel m)"
    and csel_cupd: "csel (cupd g c) = g (csel c)"
    and cupd_cupd: "cupd h (cupd g c) = cupd (\<lambda>s. h (g s)) c"
    and mem_upd: "store_map meta (f (sel m)) = g (store_map meta (sel m)) \<Longrightarrow>
       mem_cluster (upd f m) = cupd g (mem_cluster m)"
    and fill_alloc: "fill ob (alloc ob)"
    and fill_refl: "fill ob ob"
    and fill_keeps: "fill ob ob' \<Longrightarrow> meta ob' = meta ob"
begin

lemma faulty_st:
  assumes "faulty op m = (r, m')" and "\<And>m0. snd (op m0) = m0"
  shows "mem_cluster m' = mem_cluster m"
  using assms(1)
proof (cases rule: faulty_cases)
  case (fault msg m1)
  then show ?thesis by (metis mem_cluster_faults)
next
  case (through m1)
  then show ?thesis using assms(2) [of m1] by (metis mem_cluster_faults snd_conv)
qed

lemma csel_st: "csel (mem_cluster m) k = store_map meta (sel m) k"
  by (simp add: csel_mem)

lemma mem_get:
  assumes "kGet (mem_client meta alloc may sel upd) k m = (r, m')"
  shows "mem_cluster m' = mem_cluster m"
    and "r = Inr ob \<Longrightarrow> csel (mem_cluster m) k = Some ob"
    and "r = Inl NotFound \<Longrightarrow> csel (mem_cluster m) k = None"
proof -
  let ?op = "\<lambda>m. (case store_map meta (sel m) k of None \<Rightarrow> Inl NotFound | Some ob \<Rightarrow> Inr ob, m)"
  have f: "faulty ?op m = (r, m')" using assms by (simp add: mem_client_def)
  show "mem_cluster m' = mem_cluster m" by (rule faulty_st [OF f]) simp
  show "r = Inr ob \<Longrightarrow> csel (mem_cluster m) k = Some ob"
    and "r = Inl NotFound \<Longrightarrow> csel (mem_cluster m) k = None"
    using f by (cases rule: faulty_cases;
      auto simp: csel_mem split: option.splits dest!: arg_cong [where f = sel] simp: sel_faults)+
qed

lemma mem_list:
  assumes "kList (mem_client meta alloc may sel upd) lo m = (r, m')"
  shows "mem_cluster m' = mem_cluster m"
    and "r = Inr obs \<Longrightarrow> set obs = {ob. \<exists>k. csel (mem_cluster m) k = Some ob \<and> lo_matches lo (meta ob)}"
    and "r = Inr obs \<Longrightarrow> distinct (map (\<lambda>ob. key_of_meta (meta ob)) obs)"
proof -
  let ?op = "\<lambda>m. (Inr (store_list meta lo (sel m)), m)"
  have f: "faulty ?op m = (r, m')" using assms by (simp add: mem_client_def)
  show "mem_cluster m' = mem_cluster m" by (rule faulty_st [OF f]) simp
  have "r = Inr obs \<Longrightarrow> obs = store_list meta lo (sel m)"
    using f by (cases rule: faulty_cases) (auto dest!: arg_cong [where f = sel] simp: sel_faults)
  then show "r = Inr obs \<Longrightarrow> set obs = {ob. \<exists>k. csel (mem_cluster m) k = Some ob \<and> lo_matches lo (meta ob)}"
    and "r = Inr obs \<Longrightarrow> distinct (map (\<lambda>ob. key_of_meta (meta ob)) obs)"
    by (simp_all add: store_list_set store_list_distinct csel_mem)
qed

text \<open>A write that gets through acts on a store that differs in its fault script only.\<close>

lemma through_write:
  assumes "m1 = m\<lparr>mFaults := mFaults m1\<rparr>"
  shows "csel (mem_cluster m) = store_map meta (sel m1)"
    and "mem_cluster (upd (Cons ob) m1) = cupd (\<lambda>s. s(key_of_meta (meta ob) \<mapsto> ob)) (mem_cluster m)"
    and "mem_cluster (upd (store_delete meta k) m1) = cupd (\<lambda>s. s(k := None)) (mem_cluster m)"
proof -
  have eq: "mem_cluster m1 = mem_cluster m" using assms by (metis mem_cluster_faults)
  show "csel (mem_cluster m) = store_map meta (sel m1)" by (metis csel_mem eq)
  show "mem_cluster (upd (Cons ob) m1) = cupd (\<lambda>s. s(key_of_meta (meta ob) \<mapsto> ob)) (mem_cluster m)"
    using mem_upd [of "Cons ob" m1 "\<lambda>s. s(key_of_meta (meta ob) \<mapsto> ob)"] by (simp add: eq)
  show "mem_cluster (upd (store_delete meta k) m1) = cupd (\<lambda>s. s(k := None)) (mem_cluster m)"
    using mem_upd [of "store_delete meta k" m1 "\<lambda>s. s(k := None)"] by (simp add: eq)
qed

lemma unchanged: "m1 = m\<lparr>mFaults := mFaults m1\<rparr> \<Longrightarrow> mem_cluster m1 = mem_cluster m"
  by (metis mem_cluster_faults)

lemma alloc_key: "meta (alloc ob) = meta ob"
  by (rule fill_keeps [OF fill_alloc])

lemma mem_create:
  assumes "kCreate (mem_client meta alloc may sel upd) ob m = (r, m')"
  shows "r = Inr ob' \<Longrightarrow> ob' = alloc ob \<and> csel (mem_cluster m) (key_of_meta (meta ob)) = None \<and>
      mem_cluster m' = cupd (\<lambda>s. s(key_of_meta (meta ob) \<mapsto> ob')) (mem_cluster m)"
    and "r = Inl er \<Longrightarrow> mem_cluster m' = mem_cluster m"
    and "r = Inl AlreadyExists \<Longrightarrow> csel (mem_cluster m) (key_of_meta (meta ob)) \<noteq> None"
  using assms unfolding mem_client_def kind_client.simps
  by (cases rule: faulty_cases;
    auto simp: through_write(1) through_write(2) [of _ m "alloc ob"] alloc_key unchanged split: option.splits)+

lemma mem_update:
  assumes "kUpdate (mem_client meta alloc may sel upd) ob m = (r, m')"
  shows "r = Inr ob' \<Longrightarrow> ob' = ob \<and> csel (mem_cluster m) (key_of_meta (meta ob)) \<noteq> None \<and>
      mem_cluster m' = cupd (\<lambda>s. s(key_of_meta (meta ob) \<mapsto> ob)) (mem_cluster m)"
    and "r = Inl er \<Longrightarrow> mem_cluster m' = mem_cluster m"
  using assms unfolding mem_client_def kind_client.simps
  by (cases rule: faulty_cases; auto simp: through_write unchanged split: option.splits if_splits)+

lemma mem_delete:
  assumes "kDelete (mem_client meta alloc may sel upd) ob m = (r, m')"
  shows "r = Inr u \<Longrightarrow> mem_cluster m' = cupd (\<lambda>s. s(key_of_meta (meta ob) := None)) (mem_cluster m)"
    and "r = Inl er \<Longrightarrow> mem_cluster m' = mem_cluster m"
    and "r = Inl NotFound \<Longrightarrow> csel (mem_cluster m) (key_of_meta (meta ob)) = None"
  using assms unfolding mem_client_def kind_client.simps
  by (cases rule: faulty_cases; auto simp: through_write unchanged split: option.splits)+

end

sublocale mem_kind \<subseteq> laws: kind_api_calm "mem_client meta alloc may sel upd" meta fill mem_cluster csel cupd mem_calm may
proof (unfold_locales, goal_cases)
  case 2
  then show ?case by (simp add: csel_mem store_map_keyed)
next
  case (10 ob w ob' w')
  then show ?case using mem_create(1) by (metis fill_alloc)
next
  case (11 ob w er w')
  then show ?case using mem_create(2) by blast
next
  case (12 ob w w')
  then show ?case using mem_create(2,3) by blast
next
  case (13 ob w ob' w')
  then show ?case using mem_update(1) by (metis fill_refl)
next
  case (14 ob w er w')
  then show ?case using mem_update(2) by blast
next
  case (19 w k)
  then show ?case by (intro exI [of _ w]) (simp add: mem_client_def faulty_calm csel_mem)
next
  case (20 w lo)
  then show ?case by (intro exI conjI) (simp_all add: mem_client_def faulty_calm)
next
  case (21 w ob)
  then show ?case
    by (intro exI [of _ "alloc ob"] exI [of _ "upd (Cons (alloc ob)) w"])
      (simp add: mem_client_def faulty_calm csel_mem mem_calm_def upd_faults)
next
  case (22 w ob old)
  then show ?case
    by (intro exI [of _ ob] exI [of _ "upd (Cons ob) w"])
      (auto simp: mem_client_def faulty_calm csel_mem mem_calm_def upd_faults)
next
  case (23 w ob)
  then show ?case
    by (intro exI [of _ "upd (store_delete meta (key_of_meta (meta ob))) w"])
      (auto simp: mem_client_def faulty_calm csel_mem mem_calm_def upd_faults)
qed (auto intro: csel_cupd cupd_cupd fill_keeps dest: mem_get mem_list mem_delete)

context mem_kind
begin

lemma mem_laws: "kind_api_calm (mem_client meta alloc may sel upd) meta fill mem_cluster csel cupd mem_calm may"
  by unfold_locales

end

interpretation mem_chn: mem_kind chMeta id any_update "(=)" mChannels mChannels_update clChannels clChannels_update
  by unfold_locales (auto simp: mem_cluster_def mem_data_sel_def comp_def)

interpretation mem_rol: mem_kind roleMeta id any_update "(=)" mRoles mRoles_update clRoles clRoles_update
  by unfold_locales (auto simp: mem_cluster_def mem_data_sel_def comp_def)

interpretation mem_rbd: mem_kind rbMeta id binding_may_update "(=)" mRoleBindings mRoleBindings_update clRoleBindings clRoleBindings_update
  by unfold_locales (auto simp: mem_cluster_def mem_data_sel_def comp_def)

interpretation mem_mcl: mem_kind mcMeta id any_update "(=)" mManagedClusters mManagedClusters_update clManagedClusters clManagedClusters_update
  by unfold_locales (auto simp: mem_cluster_def mem_data_sel_def comp_def)

interpretation mem_svc: mem_kind svcMeta alloc_ip any_update svc_fill mServices mServices_update clServices clServices_update
  by unfold_locales (auto simp: mem_cluster_def mem_data_sel_def comp_def alloc_ip_def svc_fill_def intro: svc_fill_refl [unfolded svc_fill_def])

interpretation mem_epn: mem_kind epMeta id any_update "(=)" mEndpoints mEndpoints_update clEndpoints clEndpoints_update
  by unfold_locales (auto simp: mem_cluster_def mem_data_sel_def comp_def)

interpretation mem_wcf: mem_kind wcMeta id any_update "(=)" mWebhookConfigs mWebhookConfigs_update clWebhookConfigs clWebhookConfigs_update
  by unfold_locales (auto simp: mem_cluster_def mem_data_sel_def comp_def)

interpretation mem_dpl: mem_kind ooMeta id any_update "(=)" mDeployments mDeployments_update clDeployments clDeployments_update
  by unfold_locales (auto simp: mem_cluster_def mem_data_sel_def comp_def)

interpretation mem_crd: mem_kind ooMeta id any_update "(=)" mCrds mCrds_update clCrds clCrds_update
  by unfold_locales (auto simp: mem_cluster_def mem_data_sel_def comp_def)

lemma mem_data_upd_frame [simp]:
  "mChannels (mem_data_upd g f m) = mChannels m"
  "mRoles (mem_data_upd g f m) = mRoles m"
  "mRoleBindings (mem_data_upd g f m) = mRoleBindings m"
  "mManagedClusters (mem_data_upd g f m) = mManagedClusters m"
  "mServices (mem_data_upd g f m) = mServices m"
  "mEndpoints (mem_data_upd g f m) = mEndpoints m"
  "mWebhookConfigs (mem_data_upd g f m) = mWebhookConfigs m"
  "mDeployments (mem_data_upd g f m) = mDeployments m"
  "mCrds (mem_data_upd g f m) = mCrds m"
  "mHubs (mem_data_upd g f m) = mHubs m"
  "mFaults (mem_data_upd g f m) = mFaults m"
  by (simp_all add: mem_data_upd_def)

lemma mem_data_kind: "mem_kind doMeta id (=) (mem_data_sel g) (mem_data_upd g) (data_sel g) (data_upd g)"
  by unfold_locales (auto simp: data_sel_def data_upd_def mem_cluster_def fun_eq_iff)

lemmas mem_data_laws = mem_kind.mem_laws [OF mem_data_kind]

lemma memEnv_sel [simp]:
  "channels memEnv = mem_client chMeta id any_update mChannels mChannels_update"
  "dataObjects memEnv g = mem_client doMeta id any_update (mem_data_sel g) (mem_data_upd g)"
  "roles memEnv = mem_client roleMeta id any_update mRoles mRoles_update"
  "roleBindings memEnv = mem_client rbMeta id binding_may_update mRoleBindings mRoleBindings_update"
  "managedClusters memEnv = mem_client mcMeta id any_update mManagedClusters mManagedClusters_update"
  "services memEnv = mem_client svcMeta alloc_ip any_update mServices mServices_update"
  "endpoints memEnv = mem_client epMeta id any_update mEndpoints mEndpoints_update"
  "webhookConfigs memEnv = mem_client wcMeta id any_update mWebhookConfigs mWebhookConfigs_update"
  "deployments memEnv = mem_client ooMeta id any_update mDeployments mDeployments_update"
  "crds memEnv = mem_client ooMeta id any_update mCrds mCrds_update"
  "mapOrder memEnv m = (\<lambda>ks. ks, m)"
  "SetControllerReference memEnv = mem_ctrl_ref"
  "nnString memEnv k = nnNamespace k @ ''/'' @ nnName k"
  by (simp_all add: memEnv_def)

lemma mem_hubs:
  assumes "dynListHubs memEnv gvr m = (h, m')"
  shows "mem_cluster m' = mem_cluster m"
    and "h = (Some hs, None) \<Longrightarrow> hs = store_list mchMeta all_objects (mHubs m)"
  using assms
  by (auto simp: memEnv_def pop_fault_def mem_cluster_def split: list.splits option.splits)

lemma kind_api_calm_base: "kind_api_calm ops meta fill st sel upd calm may \<Longrightarrow> kind_api ops meta fill st sel upd"
  by (simp add: kind_api_calm_def)

lemma ran_store_map: "set (store_list meta all_objects os) = ran (store_map meta os)"
  by (auto simp: store_list_set ran_def)

lemma mem_hubs_ok:
  "dynListHubs memEnv gvr w = ((Some hs, None), w') \<Longrightarrow>
   set hs = ran (clHubs (mem_cluster w)) \<and> distinct (map (\<lambda>h. key_of_meta (mchMeta h)) hs)"
  using mem_hubs(2) [of gvr w "(Some hs, None)" w' hs]
  by (simp add: ran_store_map store_list_distinct mem_cluster_def)

lemma mem_kube_api_axioms: "kube_api_axioms memEnv mem_cluster"
  unfolding kube_api_axioms_def
  using kind_api_calm_base [OF mem_data_laws]
  by (auto simp: mem_hubs(1) mem_ctrl_ref_def memEnv_def [THEN arg_cong [where f = LabelSelectorAsSelector]]
      insertion_order.go_map_order_axioms split: if_splits dest: mem_hubs_ok mem_hubs(1))

lemma mem_kube_api_calm_axioms: "kube_api_calm_axioms memEnv mem_cluster mem_calm"
  unfolding kube_api_calm_axioms_def
  using mem_data_laws by (auto simp: pop_fault_def mem_calm_def memEnv_def)

lemmas mem_kind_laws =
  mem_chn.mem_laws mem_rol.mem_laws mem_rbd.mem_laws mem_mcl.mem_laws mem_svc.mem_laws
  mem_epn.mem_laws mem_wcf.mem_laws mem_dpl.mem_laws mem_crd.mem_laws

lemma mem_kube_api: "kube_api memEnv mem_cluster"
  unfolding kube_api_def
  by (simp add: mem_kube_api_axioms kind_api_calm_base [OF mem_chn.mem_laws]
      kind_api_calm_base [OF mem_rol.mem_laws] kind_api_calm_base [OF mem_rbd.mem_laws]
      kind_api_calm_base [OF mem_mcl.mem_laws] kind_api_calm_base [OF mem_svc.mem_laws]
      kind_api_calm_base [OF mem_epn.mem_laws] kind_api_calm_base [OF mem_wcf.mem_laws]
      kind_api_calm_base [OF mem_dpl.mem_laws] kind_api_calm_base [OF mem_crd.mem_laws])

interpretation fake: kube_api_calm memEnv mem_cluster mem_calm
  unfolding kube_api_calm_def
  by (simp add: mem_kube_api mem_kube_api_calm_axioms mem_kind_laws)

section \<open>Example objects\<close>

text \<open>A channel with a secret, for the examples of the other theories.\<close>

definition ex_key :: NamespacedName where
  "ex_key = nskey ''dev'' ''charts''"

definition ex_channel :: Channel where
  "ex_channel = \<lparr>chMeta = plain_meta ''dev'' ''charts'', chUID = ''u1'',
     chSpec = \<lparr>spType = ''HelmRepo'', Pathname = ''https://charts'', InsecureSkipVerify = False,
       SecretRef = Some \<lparr>refNamespace = ''other'', refName = ''creds''\<rparr>, ConfigMapRef = None,
       Gates = None, SourceNamespaces = None\<rparr>\<rparr>"

definition ex_secret :: DataObject where
  "ex_secret = \<lparr>doMeta = plain_meta ''dev'' ''creds'', doType = ''Opaque'', doData = [''user'' \<mapsto> ''bob'']\<rparr>"

text \<open>A channel of another namespace.\<close>

definition ex_second :: Channel where
  "ex_second = ex_channel\<lparr>chMeta := plain_meta ''ops'' ''charts''\<rparr>"

end
