(* ===== verification/Serving_Channel.thy ===== *)
theory Serving_Channel
  imports Kube_Mem
begin

text \<open>
  \<open>pkg/utils/channel.go\<close>: the serving-channel annotation (a comma separated set of channel
  keys kept on every Secret and ConfigMap a channel refers to), the look-up of channels, the
  credentials in a secret, and the conversion of label selectors.

  \<open>UpdateServingChannel\<close> collects the keys in a Go map and writes them back in the map's
  iteration order, so its result is a function of that order. The locale \<open>serving_set\<close> says what
  callers rely on: the string stands for a set of keys, and the two actions insert and remove. It
  is established for every iteration order.
\<close>

section \<open>UpdateServingChannel\<close>

text \<open>The keys of \<open>newChannelMap\<close> in the order of their first insertion.\<close>

definition channel_keys :: "string \<Rightarrow> string list" where
  "channel_keys servingChannel = foldl (\<lambda>ks ch. if ch \<in> set ks then ks else ks @ [ch]) [] (strings_Split servingChannel CHR '','')"

definition UpdateServingChannel :: "map_order \<Rightarrow> string \<Rightarrow> string \<Rightarrow> string \<Rightarrow> string" where
  "UpdateServingChannel order servingChannel channelKey action =
     (let newChannelMap = channel_keys servingChannel;
          newChannelMap = (if action = ''remove'' then removeAll channelKey newChannelMap else newChannelMap);
          newChannelMap = (if action = ''add'' \<and> channelKey \<notin> set newChannelMap
            then newChannelMap @ [channelKey] else newChannelMap)
      in foldl (\<lambda>newChannelList newch.
            (if newChannelList \<noteq> [] then newChannelList @ '','' else newChannelList) @ newch)
          [] (order newChannelMap))"

text \<open>The set of channels a serving-channel string stands for.\<close>

definition served :: "string \<Rightarrow> string set" where
  "served s = set (strings_Split s CHR '','') - {[]}"

text \<open>A key that fits into the string: not empty and without a comma.\<close>

definition serving_key :: "string \<Rightarrow> bool" where
  "serving_key k \<longleftrightarrow> k \<noteq> [] \<and> CHR '','' \<notin> set k"

subsection \<open>The keys\<close>

lemma insert_keys_set:
  "set (foldl (\<lambda>ks ch. if ch \<in> set ks then ks else ks @ [ch]) ks0 ps) = set ks0 \<union> set ps"
  by (induction ps arbitrary: ks0) auto

lemma insert_keys_distinct:
  "distinct ks0 \<Longrightarrow> distinct (foldl (\<lambda>ks ch. if ch \<in> set ks then ks else ks @ [ch]) ks0 ps)"
  by (induction ps arbitrary: ks0) auto

lemma channel_keys_set: "set (channel_keys s) = set (strings_Split s CHR '','')"
  by (simp add: channel_keys_def insert_keys_set)

lemma channel_keys_distinct: "distinct (channel_keys s)"
  by (simp add: channel_keys_def insert_keys_distinct)

lemma channel_keys_comma: "k \<in> set (channel_keys s) \<Longrightarrow> CHR '','' \<notin> set k"
  by (simp add: channel_keys_set strings_Split_pieces)

lemma served_channel_keys: "served s = set (channel_keys s) - {[]}"
  by (simp add: served_def channel_keys_set)

subsection \<open>The loop that writes the keys back\<close>

lemma write_keys_nonempty:
  "acc \<noteq> [] \<Longrightarrow>
   foldl (\<lambda>l newch. (if l \<noteq> [] then l @ '','' else l) @ newch) acc ks = join '','' (acc # ks)"
proof (induction ks arbitrary: acc)
  case Nil
  then show ?case by simp
next
  case (Cons k ks)
  then show ?case using join_merge [of "'',''" acc k ks] by simp
qed

lemma write_keys:
  "foldl (\<lambda>l newch. (if l \<noteq> [] then l @ '','' else l) @ newch) [] ks =
   join '','' (dropWhile (\<lambda>k. k = []) ks)"
  by (induction ks) (auto simp: write_keys_nonempty)

lemma served_join:
  assumes "\<And>k. k \<in> set ks \<Longrightarrow> CHR '','' \<notin> set k"
  shows "served (join '','' ks) = set ks - {[]}"
proof (cases "ks = []")
  case True
  then show ?thesis by (simp add: served_def)
next
  case False
  then have "strings_Split (join '','' ks) CHR '','' = ks"
    using assms by (rule strings_Split_of_join)
  then show ?thesis by (simp add: served_def)
qed

lemma served_written:
  assumes "\<And>k. k \<in> set ks \<Longrightarrow> CHR '','' \<notin> set k"
  shows "served (foldl (\<lambda>l newch. (if l \<noteq> [] then l @ '','' else l) @ newch) [] ks) = set ks - {[]}"
proof -
  have "served (join '','' (dropWhile (\<lambda>k. k = []) ks)) = set (dropWhile (\<lambda>k. k = []) ks) - {[]}"
    using assms by (intro served_join) (auto dest: set_dropWhileD)
  then show ?thesis by (simp add: write_keys set_dropWhile_empty)
qed

section \<open>What callers rely on\<close>

locale serving_set =
  fixes chans :: "string \<Rightarrow> string set"
    and valid :: "string \<Rightarrow> bool"
    and add :: "string \<Rightarrow> string \<Rightarrow> string"
    and remove :: "string \<Rightarrow> string \<Rightarrow> string"
  assumes chans_empty: "chans [] = {}"
    and chans_add: "valid k \<Longrightarrow> chans (add s k) = insert k (chans s)"
    and chans_remove: "valid k \<Longrightarrow> chans (remove s k) = chans s - {k}"
begin

lemma add_keeps: "valid k \<Longrightarrow> j \<in> chans s \<Longrightarrow> j \<in> chans (add s k)"
  by (simp add: chans_add)

lemma remove_add: "valid k \<Longrightarrow> k \<notin> chans s \<Longrightarrow> chans (remove (add s k) k) = chans s"
  by (simp add: chans_add chans_remove)

lemma remove_all:
  "\<forall>k\<in>set ks. valid k \<Longrightarrow> chans (foldl remove s ks) = chans s - set ks"
  by (induction ks arbitrary: s) (auto simp: chans_remove)

lemma add_all:
  "\<forall>k\<in>set ks. valid k \<Longrightarrow> chans (foldl add s ks) = chans s \<union> set ks"
  by (induction ks arbitrary: s) (auto simp: chans_add)

end

context go_map_order
begin

lemma served_update_add:
  assumes "serving_key k"
  shows "served (UpdateServingChannel order s k ''add'') = insert k (served s)"
proof -
  let ?ks = "if k \<in> set (channel_keys s) then channel_keys s else channel_keys s @ [k]"
  have "served (UpdateServingChannel order s k ''add'') = set (order ?ks) - {[]}"
    unfolding UpdateServingChannel_def Let_def using assms
    by (subst served_written) (auto simp: order_set serving_key_def dest: channel_keys_comma split: if_splits)
  then show ?thesis
    using assms by (auto simp: order_set served_channel_keys serving_key_def)
qed

lemma served_update_remove:
  "served (UpdateServingChannel order s k ''remove'') = served s - {k}"
proof -
  have "served (UpdateServingChannel order s k ''remove'') = set (order (removeAll k (channel_keys s))) - {[]}"
    unfolding UpdateServingChannel_def Let_def
    by (subst served_written) (auto simp: order_set dest: channel_keys_comma)
  then show ?thesis by (auto simp: order_set served_channel_keys)
qed

lemma served_update_other:
  assumes "action \<noteq> ''add''" and "action \<noteq> ''remove''"
  shows "served (UpdateServingChannel order s k action) = served s"
proof -
  have "served (UpdateServingChannel order s k action) = set (order (channel_keys s)) - {[]}"
    unfolding UpdateServingChannel_def Let_def using assms
    by (subst served_written) (auto simp: order_set dest: channel_keys_comma)
  then show ?thesis by (simp add: order_set served_channel_keys)
qed

text \<open>Removing the last channel gives the empty string, so the caller drops the annotation.\<close>

lemma update_remove_empty:
  assumes "served s \<subseteq> {k}"
  shows "UpdateServingChannel order s k ''remove'' = []"
proof -
  let ?ks = "order (removeAll k (channel_keys s))"
  have "set ?ks \<subseteq> {[]}"
    using assms by (auto simp: order_set served_channel_keys)
  then have "dropWhile (\<lambda>k. k = []) ?ks = []" by auto
  then show ?thesis by (simp add: UpdateServingChannel_def Let_def write_keys del: dropWhile_eq_Nil_conv)
qed

end

sublocale go_map_order \<subseteq> srv: serving_set served serving_key
  "\<lambda>s k. UpdateServingChannel order s k ''add''" "\<lambda>s k. UpdateServingChannel order s k ''remove''"
  by unfold_locales (simp_all add: served_update_add served_update_remove, simp add: served_def)

section \<open>Looking channels up\<close>

text \<open>\<open>GenerateChannelMap\<close>: the channels of all namespaces by their name; a later one replaces an earlier one.\<close>

definition GenerateChannelMap :: "'w Env \<Rightarrow> 'w \<Rightarrow> (go_error + (string \<rightharpoonup> Channel)) \<times> 'w" where
  "GenerateChannelMap e w =
     (case kList (channels e) all_objects w of
        (Inl er, w) \<Rightarrow> (Inl (ApiError er), w)
      | (Inr items, w) \<Rightarrow> (Inr (foldl (\<lambda>chmap ch. chmap(chName ch \<mapsto> ch)) Map.empty items), w))"

text \<open>\<open>LocateChannel\<close>: the first listed channel of that name, or a nil pointer.\<close>

definition LocateChannel :: "'w Env \<Rightarrow> string \<Rightarrow> 'w \<Rightarrow> (go_error + Channel option) \<times> 'w" where
  "LocateChannel e name w =
     (case kList (channels e) all_objects w of
        (Inl er, w) \<Rightarrow> (Inl (ApiError er), w)
      | (Inr items, w) \<Rightarrow> (Inr (List.find (\<lambda>ch. chName ch = name) items), w))"

lemma fold_channel_map:
  "foldl (\<lambda>chmap ch. chmap(chName ch \<mapsto> ch)) m items n =
   (case List.find (\<lambda>ch. chName ch = n) (rev items) of None \<Rightarrow> m n | Some ch \<Rightarrow> Some ch)"
  by (induction items arbitrary: m rule: rev_induct) auto

section \<open>Credentials in a secret\<close>

definition SecretMapKeyAccessKeyID :: string where "SecretMapKeyAccessKeyID = ''AccessKeyID''"

definition USERNAME :: string where "USERNAME = ''username''"

definition SecretMapKeySecretAccessKey :: string where "SecretMapKeySecretAccessKey = ''SecretAccessKey''"

definition PASSWORD :: string where "PASSWORD = ''password''"

definition SecretMapKeyRegion :: string where "SecretMapKeyRegion = ''Region''"

text \<open>\<open>string(secret.Data[k])\<close>: a missing key reads as the empty string.\<close>

definition data_str :: "DataObject \<Rightarrow> string \<Rightarrow> string" where
  "data_str d k = (case doData d k of None \<Rightarrow> [] | Some b \<Rightarrow> b)"

definition ParseSecretInfo :: "DataObject option \<Rightarrow> string \<times> string \<times> string" where
  "ParseSecretInfo secret =
     (case secret of
        None \<Rightarrow> ([], [], [])
      | Some d \<Rightarrow>
          (let username = data_str d SecretMapKeyAccessKeyID;
               username = (if username = [] then data_str d USERNAME else username);
               username = (if username = [] then data_str d ''user'' else username);
               password = data_str d SecretMapKeySecretAccessKey;
               password = (if password = [] then data_str d PASSWORD else password);
               password = (if password = [] then data_str d ''accessToken'' else password)
           in (username, password, data_str d SecretMapKeyRegion)))"

section \<open>Label selectors\<close>

text \<open>\<open>ConvertLabels\<close>: \<open>labels.Everything()\<close> for nil; \<open>labels.Nothing()\<close> with the error when the conversion fails.\<close>

definition ConvertLabels :: "'w Env \<Rightarrow> LabelSelector option \<Rightarrow> selector \<times> go_error option" where
  "ConvertLabels e labelSelector =
     (case labelSelector of
        None \<Rightarrow> (\<lambda>_. True, None)
      | Some ls \<Rightarrow> (case LabelSelectorAsSelector e ls of
            Inl er \<Rightarrow> (\<lambda>_. False, Some er)
          | Inr sel \<Rightarrow> (sel, None)))"

context kube_api
begin

lemma ConvertLabels_match:
  "MatchExpressions ls = [] \<Longrightarrow> ConvertLabels e (Some ls) = (match_labels (MatchLabels ls), None)"
  by (simp add: ConvertLabels_def selector_labels)

lemma LocateChannel_result:
  assumes "LocateChannel e name w = (Inr r, w')"
  shows "st w' = st w"
    and "r = Some ch \<Longrightarrow> chName ch = name \<and> clChannels (st w) (chKey ch) = Some ch"
    and "r = None \<Longrightarrow> clChannels (st w) (nskey ns name) = None"
proof -
  obtain items where items: "kList (channels e) all_objects w = (Inr items, w')"
    and r: "r = List.find (\<lambda>ch. chName ch = name) items"
    using assms by (auto simp: LocateChannel_def split: prod.splits sum.splits)
  show "st w' = st w" by (rule chn.list_st [OF items])
  show "r = Some ch \<Longrightarrow> chName ch = name \<and> clChannels (st w) (chKey ch) = Some ch"
    using r find_SomeD [of _ items ch] chn.list_mem [OF items, of ch] by auto
  assume "r = None"
  then have none: "\<forall>ch\<in>set items. chName ch \<noteq> name" using r by (simp add: find_None_iff_all)
  show "clChannels (st w) (nskey ns name) = None"
  proof (rule ccontr)
    assume "clChannels (st w) (nskey ns name) \<noteq> None"
    then obtain ch where ch: "clChannels (st w) (nskey ns name) = Some ch" by blast
    then have key: "chKey ch = nskey ns name" by (rule chn.keyed)
    with ch have "ch \<in> set items" by (simp add: chn.list_mem [OF items])
    with none key show False by (simp add: key_of_meta_def)
  qed
qed

lemma GenerateChannelMap_result:
  assumes "GenerateChannelMap e w = (Inr m, w')"
  shows "st w' = st w"
    and "m n = Some ch \<Longrightarrow> chName ch = n \<and> clChannels (st w) (chKey ch) = Some ch"
    and "dom m = {n. \<exists>ns. clChannels (st w) (nskey ns n) \<noteq> None}"
proof -
  obtain items where items: "kList (channels e) all_objects w = (Inr items, w')"
    and m: "m = foldl (\<lambda>chmap ch. chmap(chName ch \<mapsto> ch)) Map.empty items"
    using assms by (auto simp: GenerateChannelMap_def split: prod.splits sum.splits)
  show "st w' = st w" by (rule chn.list_st [OF items])
  have look: "m n = List.find (\<lambda>ch. chName ch = n) (rev items)" for n
    by (simp add: m fold_channel_map split: option.splits)
  show "m n = Some ch \<Longrightarrow> chName ch = n \<and> clChannels (st w) (chKey ch) = Some ch"
    unfolding look using find_SomeD [of _ "rev items" ch] chn.list_mem [OF items, of ch] by auto
  have "n \<in> dom m \<longleftrightarrow> (\<exists>ch\<in>set items. chName ch = n)" for n
    by (auto simp: domIff look find_None_iff_all)
  also have "\<dots> n \<longleftrightarrow> (\<exists>ns. clChannels (st w) (nskey ns n) \<noteq> None)" for n
    using chn.list_mem [OF items] chn.keyed by (force simp: key_of_meta_def)
  finally show "dom m = {n. \<exists>ns. clChannels (st w) (nskey ns n) \<noteq> None}" by blast
qed

end

section \<open>Properties\<close>

text \<open>
  C10. In whatever order Go visits the map, \<open>UpdateServingChannel\<close> with \<open>add\<close> gives a string
  that stands for the old channels and the new one, with \<open>remove\<close> for the old ones without it,
  and with any other action for the old ones.
\<close>

theorem serving_channel_set:
  assumes "go_map_order ord" and "serving_key k"
  shows "served (UpdateServingChannel ord s k ''add'') = insert k (served s) \<and>
    served (UpdateServingChannel ord s k ''remove'') = served s - {k} \<and>
    (action \<noteq> ''add'' \<and> action \<noteq> ''remove'' \<longrightarrow> served (UpdateServingChannel ord s k action) = served s)"
  using go_map_order.served_update_add [OF assms, of s] go_map_order.served_update_remove [OF assms(1), of s k]
    go_map_order.served_update_other [OF assms(1), of action s k] by simp

theorem serving_channel_set_witness:
  "served (UpdateServingChannel rev ''a/x,b/y'' ''c/z'' ''add'') = insert ''c/z'' (served ''a/x,b/y'') \<and>
   served (UpdateServingChannel rev ''a/x,b/y'' ''c/z'' ''remove'') = served ''a/x,b/y'' - {''c/z''} \<and>
   served (UpdateServingChannel rev ''a/x,b/y'' ''c/z'' ''keep'') = served ''a/x,b/y''"
  using serving_channel_set [OF reverse_order.go_map_order_axioms, of "''c/z''" "''a/x,b/y''" "''keep''"]
  by (simp add: serving_key_def)

text \<open>
  Removing the only channel of a string gives the empty string, so that the caller can drop the
  annotation.
\<close>

theorem last_channel_removed:
  assumes "go_map_order ord" and "served s \<subseteq> {k}"
  shows "UpdateServingChannel ord s k ''remove'' = []"
  by (rule go_map_order.update_remove_empty [OF assms])

theorem last_channel_removed_witness: "UpdateServingChannel rev ''a/x,'' ''a/x'' ''remove'' = []"
  by (rule last_channel_removed [OF reverse_order.go_map_order_axioms]) (auto simp: served_def)

text \<open>
  \<open>LocateChannel\<close> finds a channel of the given name exactly when some namespace has one, and
  \<open>GenerateChannelMap\<close> has an entry for it exactly then; what they return is a channel of that
  name in the cluster.
\<close>

theorem channel_lookup:
  assumes "kube_api e st" and "LocateChannel e name w = (Inr r, w1)" and "GenerateChannelMap e w = (Inr m, w2)"
  shows "(r \<noteq> None) = (\<exists>ns. clChannels (st w) (nskey ns name) \<noteq> None) \<and> (m name \<noteq> None) = (r \<noteq> None) \<and>
    (\<forall>ch. r = Some ch \<or> m name = Some ch \<longrightarrow> chName ch = name \<and> clChannels (st w) (chKey ch) = Some ch)"
proof -
  note l = kube_api.LocateChannel_result [OF assms(1,2)] and g = kube_api.GenerateChannelMap_result [OF assms(1,3)]
  have "(r \<noteq> None) = (\<exists>ns. clChannels (st w) (nskey ns name) \<noteq> None)"
  proof
    assume "r \<noteq> None"
    then obtain ch where "r = Some ch" by blast
    from l(2) [OF this] have "clChannels (st w) (nskey (chNamespace ch) name) \<noteq> None" by (auto simp: key_of_meta_def)
    then show "\<exists>ns. clChannels (st w) (nskey ns name) \<noteq> None" by blast
  next
    assume "\<exists>ns. clChannels (st w) (nskey ns name) \<noteq> None"
    then obtain ns where "clChannels (st w) (nskey ns name) \<noteq> None" ..
    then show "r \<noteq> None" using l(3) [of ns] by (cases r) simp_all
  qed
  moreover have "(m name \<noteq> None) = (\<exists>ns. clChannels (st w) (nskey ns name) \<noteq> None)"
    using g(3) by (simp only: domIff [symmetric] mem_Collect_eq)
  ultimately show ?thesis using l(2) g(2) by blast
qed

theorem channel_lookup_witness:
  "\<exists>r m. fst (LocateChannel memEnv ''charts'' (empty_mem\<lparr>mChannels := [ex_channel]\<rparr>)) = Inr r \<and>
     fst (GenerateChannelMap memEnv (empty_mem\<lparr>mChannels := [ex_channel]\<rparr>)) = Inr m \<and> (m ''charts'' \<noteq> None) = (r \<noteq> None)"
proof -
  let ?w = "empty_mem\<lparr>mChannels := [ex_channel]\<rparr>"
  have calm: "mem_calm ?w" by (simp add: mem_calm_def empty_mem_def)
  obtain items w' where list: "kList (channels memEnv) all_objects ?w = (Inr items, w')"
    using fake.chn.calm_list [OF calm] by blast
  obtain r m where "LocateChannel memEnv ''charts'' ?w = (Inr r, w')" "GenerateChannelMap memEnv ?w = (Inr m, w')"
    unfolding LocateChannel_def GenerateChannelMap_def list by simp
  with channel_lookup [OF mem_kube_api this] show ?thesis by simp
qed

text \<open>
  The empty string splits into one empty key, which stays in the map: a first channel can be
  written with a stray comma after it, and whether it is depends on the order of the map.
\<close>

theorem stray_comma:
  "UpdateServingChannel rev [] ''ns/ch'' ''add'' = ''ns/ch,'' \<and> UpdateServingChannel (\<lambda>ks. ks) [] ''ns/ch'' ''add'' = ''ns/ch''"
  by (simp add: UpdateServingChannel_def channel_keys_def)

end
