(* ===== verification/Channel_Rbac.thy ===== *)
theory Channel_Rbac
  imports Serving_Channel
begin

text \<open>
  \<open>pkg/controller/channel/channel_controller.go\<close>, the part that gives the agents of the managed
  clusters access to a channel: \<open>buildChannelRoleRules\<close>, \<open>setupRole\<close>,
  \<open>validateClusterRBAC\<close>, \<open>cleanRoleFromAcmNS\<close> and \<open>FindMultiClusterHubNS\<close>. The
  definitions keep the guards and early returns of the code; log lines are left out. The
  reconciler's own fields (client, dynamic client, scheme) are the environment \<open>e\<close>.

  The lemmas describe each function as a step on the cluster: which entry it may write, with what,
  and what holds when it returns without an error.
\<close>

section \<open>The role of a channel\<close>

definition buildChannelRoleRules :: "Channel \<Rightarrow> PolicyRule slice" where
  "buildChannelRoleRules inst =
     (let rules = [\<lparr>prVerbs = Some [''get'', ''list'', ''watch''], prAPIGroups = Some [apiGroup],
            prResources = Some [''channels'', ''channels/status''], prResourceNames = None\<rparr>];
          rules = (case SecretRef (chSpec inst) of
              None \<Rightarrow> rules
            | Some ref \<Rightarrow> if refName ref \<noteq> []
                then rules @ [\<lparr>prVerbs = Some [''get'', ''watch''], prAPIGroups = Some [[]],
                  prResources = Some [''secrets''], prResourceNames = Some [refName ref]\<rparr>]
                else rules);
          rules = (case ConfigMapRef (chSpec inst) of
              None \<Rightarrow> rules
            | Some ref \<Rightarrow> if refName ref \<noteq> []
                then rules @ [\<lparr>prVerbs = Some [''get'', ''watch''], prAPIGroups = Some [[]],
                  prResources = Some [''configmaps''], prResourceNames = Some [refName ref]\<rparr>]
                else rules)
      in Some rules)"

section \<open>Role and role binding\<close>

definition setupRole :: "'w Env \<Rightarrow> Channel \<Rightarrow> 'w \<Rightarrow> go_error option \<times> 'w" where
  "setupRole e inst w =
     (let wantRules = buildChannelRoleRules inst
      in case kGet (roles e) (nskey (chNamespace inst) (chName inst)) w of
        (Inl er, w) \<Rightarrow>
          if er = NotFound then
            (case SetControllerReference e inst (plain_meta (chNamespace inst) (chName inst)) of
               Inl er \<Rightarrow> (Some (WrapErr er ''failed to set controller reference for role set up''), w)
             | Inr m \<Rightarrow>
                 (case kCreate (roles e) \<lparr>roleMeta = m, roleRules = wantRules\<rparr> w of
                    (Inl er, w) \<Rightarrow> (Some (WrapErr (ApiError er) (''failed to create role '' @ chName inst)), w)
                  | (Inr _, w) \<Rightarrow> (None, w)))
          else (Some (ApiError er), w)
      | (Inr role, w) \<Rightarrow>
          if roleRules role \<noteq> wantRules then
            (case SetControllerReference e inst (roleMeta role) of
               Inl er \<Rightarrow> (Some (WrapErr er ''failed to set controller reference for role set up''), w)
             | Inr m \<Rightarrow>
                 (case kUpdate (roles e) (role\<lparr>roleMeta := m, roleRules := wantRules\<rparr>) w of
                    (Inl er, w) \<Rightarrow> (Some (WrapErr (ApiError er) (''failed to update role '' @ omName (roleMeta role))), w)
                  | (Inr _, w) \<Rightarrow> (None, w)))
          else (None, w))"

text \<open>Two subjects per managed cluster, appended to a nil slice.\<close>

definition rbacGroup :: string where
  "rbacGroup = ''rbac.authorization.k8s.io''"

definition clusterSubjects :: "ManagedCluster \<Rightarrow> Subject list" where
  "clusterSubjects cl =
     [\<lparr>sjKind = ''User'', sjAPIGroup = rbacGroup, sjName = ''system:open-cluster-management:cluster:'' @
         omName (mcMeta cl) @ '':addon:application-manager:agent:application-manager'', sjNamespace = []\<rparr>,
      \<lparr>sjKind = ''Group'', sjAPIGroup = rbacGroup, sjName = ''system:open-cluster-management:cluster:'' @
         omName (mcMeta cl) @ '':addon:application-manager'', sjNamespace = []\<rparr>]"

definition allSubjects :: "ManagedCluster list \<Rightarrow> Subject slice" where
  "allSubjects cls = foldl (\<lambda>subjects cl.
     Some ((case subjects of None \<Rightarrow> [] | Some ss \<Rightarrow> ss) @ clusterSubjects cl)) None cls"

definition channelRoleRef :: "Channel \<Rightarrow> RoleRef" where
  "channelRoleRef inst = \<lparr>rrAPIGroup = rbacGroup, rrKind = ''Role'', rrName = chName inst\<rparr>"

text \<open>The part of \<open>validateClusterRBAC\<close> after the clusters are listed.\<close>

definition syncRoleBinding :: "'w Env \<Rightarrow> Channel \<Rightarrow> ManagedCluster list \<Rightarrow> 'w \<Rightarrow> go_error option \<times> 'w" where
  "syncRoleBinding e inst cllist w =
     (let subjects = allSubjects cllist; roleref = channelRoleRef inst
      in case kGet (roleBindings e) (nskey (chNamespace inst) (chName inst)) w of
        (Inl er, w) \<Rightarrow>
          if er = NotFound then
            (case SetControllerReference e inst (plain_meta (chNamespace inst) (chName inst)) of
               Inl er \<Rightarrow> (Some (WrapErr er ''failed to set controller reference''), w)
             | Inr m \<Rightarrow>
                 (case kCreate (roleBindings e) \<lparr>rbMeta = m, rbSubjects = subjects, rbRoleRef = roleref\<rparr> w of
                    (Inl er, w) \<Rightarrow> (Some (WrapErr (ApiError er) ''faild to create rolebinding''), w)
                  | (Inr _, w) \<Rightarrow> (None, w)))
          else (Some (WrapErr (ApiError er) ''failed to get rolebinding state''), w)
      | (Inr rolebinding, w) \<Rightarrow>
          if subjects \<noteq> rbSubjects rolebinding \<or> rbRoleRef rolebinding \<noteq> roleref then
            (case SetControllerReference e inst (rbMeta rolebinding) of
               Inl er \<Rightarrow> (Some (WrapErr er ''failed to set controller reference''), w)
             | Inr m \<Rightarrow>
                 (case kUpdate (roleBindings e)
                     (rolebinding\<lparr>rbMeta := m, rbSubjects := subjects, rbRoleRef := roleref\<rparr>) w of
                    (Inl er, w) \<Rightarrow> (Some (WrapErr (ApiError er) ''failed to update rolebinding''), w)
                  | (Inr _, w) \<Rightarrow> (None, w)))
          else (None, w))"

definition validateClusterRBAC :: "'w Env \<Rightarrow> Channel \<Rightarrow> string \<Rightarrow> 'w \<Rightarrow> go_error option \<times> 'w" where
  "validateClusterRBAC e inst mchNamespace w =
     (if chNamespace inst = mchNamespace then (None, w)
      else case setupRole e inst w of
        (Some er, w) \<Rightarrow> (Some (WrapErr er ''failed to create/update rolebinding''), w)
      | (None, w) \<Rightarrow>
         (case kList (managedClusters e) all_objects w of
            (Inl er, w) \<Rightarrow>
              if er = NoMatch then (None, w)
              else if er = NotFound then (None, w)
              else (Some (WrapErr (ApiError er) ''failed to list cluster resource while rolebinding''), w)
          | (Inr cllist, w) \<Rightarrow> syncRoleBinding e inst cllist w))"

text \<open>The two halves of the clean-up: an object that cannot be read is skipped.\<close>

definition deleteChannelRole :: "'w Env \<Rightarrow> Channel \<Rightarrow> 'w \<Rightarrow> go_error option \<times> 'w" where
  "deleteChannelRole e inst w =
     (case kGet (roles e) (nskey (chNamespace inst) (chName inst)) w of
        (Inl _, w) \<Rightarrow> (None, w)
      | (Inr role, w) \<Rightarrow>
          (case kDelete (roles e) role w of
             (Inl er, w) \<Rightarrow> (Some (WrapErr (ApiError er) (''failed to delete role '' @
                 omNamespace (roleMeta role) @ ''/'' @ omName (roleMeta role))), w)
           | (Inr _, w) \<Rightarrow> (None, w)))"

definition deleteChannelRoleBinding :: "'w Env \<Rightarrow> Channel \<Rightarrow> 'w \<Rightarrow> go_error option \<times> 'w" where
  "deleteChannelRoleBinding e inst w =
     (case kGet (roleBindings e) (nskey (chNamespace inst) (chName inst)) w of
        (Inl _, w) \<Rightarrow> (None, w)
      | (Inr rolebinding, w) \<Rightarrow>
          (case kDelete (roleBindings e) rolebinding w of
             (Inl er, w) \<Rightarrow> (Some (WrapErr (ApiError er) (''failed to delete rolebinding '' @
                 omNamespace (rbMeta rolebinding) @ ''/'' @ omName (rbMeta rolebinding))), w)
           | (Inr _, w) \<Rightarrow> (None, w)))"

definition cleanRoleFromAcmNS :: "'w Env \<Rightarrow> Channel \<Rightarrow> string \<Rightarrow> 'w \<Rightarrow> go_error option \<times> 'w" where
  "cleanRoleFromAcmNS e inst mchNamespace w =
     (if chNamespace inst \<noteq> mchNamespace then (None, w)
      else case deleteChannelRole e inst w of
        (Some er, w) \<Rightarrow> (Some er, w)
      | (None, w) \<Rightarrow> deleteChannelRoleBinding e inst w)"

section \<open>The hub namespace\<close>

definition mchGVR :: GroupVersionResource where
  "mchGVR = \<lparr>gvrGroup = ''operator.open-cluster-management.io'', gvrVersion = ''v1'', gvrResource = ''multiclusterhubs''\<rparr>"

text \<open>The error of the list call is dropped.\<close>

definition FindMultiClusterHubNS :: "'w Env \<Rightarrow> 'w \<Rightarrow> string \<times> 'w" where
  "FindMultiClusterHubNS e w =
     (case dynListHubs e mchGVR w of
        ((None, _), w) \<Rightarrow> ([], w)
      | ((Some items, _), w) \<Rightarrow>
          if length items = 1 then (omNamespace (mchMeta (items ! 0)), w) else ([], w))"

section \<open>What a role grants\<close>

text \<open>
  Kubernetes RBAC, as documented: a rule allows a request when its verb, API group and resource
  are listed (or the wildcard is) and the rule names no objects or names the requested one.
\<close>

definition slice_list :: "'a slice \<Rightarrow> 'a list" where
  "slice_list s = (case s of None \<Rightarrow> [] | Some xs \<Rightarrow> xs)"

lemma slice_list_simps [simp]: "slice_list None = []" "slice_list (Some xs) = xs"
  by (simp_all add: slice_list_def)

definition listed :: "string \<Rightarrow> string slice \<Rightarrow> bool" where
  "listed x s \<longleftrightarrow> x \<in> set (slice_list s) \<or> ''*'' \<in> set (slice_list s)"

definition rule_allows :: "PolicyRule \<Rightarrow> string \<Rightarrow> string \<Rightarrow> string \<Rightarrow> string \<Rightarrow> bool" where
  "rule_allows r verb grp res name \<longleftrightarrow>
     listed verb (prVerbs r) \<and> listed grp (prAPIGroups r) \<and> listed res (prResources r) \<and>
     (slice_list (prResourceNames r) = [] \<or> name \<in> set (slice_list (prResourceNames r)))"

definition rules_allow :: "PolicyRule slice \<Rightarrow> string \<Rightarrow> string \<Rightarrow> string \<Rightarrow> string \<Rightarrow> bool" where
  "rules_allow rs verb grp res name \<longleftrightarrow> (\<exists>r\<in>set (slice_list rs). rule_allows r verb grp res name)"

text \<open>The object a channel refers to by this reference and name.\<close>

definition refers :: "ObjectReference option \<Rightarrow> string \<Rightarrow> bool" where
  "refers ref name \<longleftrightarrow> name \<noteq> [] \<and> (\<exists>r. ref = Some r \<and> refName r = name)"

lemma rules_allow_append:
  "rules_allow (Some (rs @ rs')) v g r n \<longleftrightarrow> rules_allow (Some rs) v g r n \<or> rules_allow (Some rs') v g r n"
  by (auto simp: rules_allow_def)

lemma rules_allow_channels:
  "rules_allow (Some [\<lparr>prVerbs = Some [''get'', ''list'', ''watch''], prAPIGroups = Some [apiGroup],
     prResources = Some [''channels'', ''channels/status''], prResourceNames = None\<rparr>]) v g r n \<longleftrightarrow>
   v \<in> {''get'', ''list'', ''watch''} \<and> g = apiGroup \<and> r \<in> {''channels'', ''channels/status''}"
  by (auto simp: rules_allow_def rule_allows_def listed_def apiGroup_def)

lemma rules_allow_named:
  "rules_allow (Some [\<lparr>prVerbs = Some [''get'', ''watch''], prAPIGroups = Some [[]],
     prResources = Some [res], prResourceNames = Some [name]\<rparr>]) v g r n \<longleftrightarrow>
   v \<in> {''get'', ''watch''} \<and> g = [] \<and> (r = res \<or> res = ''*'') \<and> n = name"
  by (auto simp: rules_allow_def rule_allows_def listed_def)

lemma buildChannelRoleRules_split:
  "buildChannelRoleRules inst = Some (
     [\<lparr>prVerbs = Some [''get'', ''list'', ''watch''], prAPIGroups = Some [apiGroup],
       prResources = Some [''channels'', ''channels/status''], prResourceNames = None\<rparr>] @
     (case SecretRef (chSpec inst) of None \<Rightarrow> [] | Some ref \<Rightarrow> if refName ref = [] then [] else
       [\<lparr>prVerbs = Some [''get'', ''watch''], prAPIGroups = Some [[]], prResources = Some [''secrets''],
         prResourceNames = Some [refName ref]\<rparr>]) @
     (case ConfigMapRef (chSpec inst) of None \<Rightarrow> [] | Some ref \<Rightarrow> if refName ref = [] then [] else
       [\<lparr>prVerbs = Some [''get'', ''watch''], prAPIGroups = Some [[]], prResources = Some [''configmaps''],
         prResourceNames = Some [refName ref]\<rparr>]))"
  by (auto simp: buildChannelRoleRules_def Let_def split: option.splits)

lemma rules_allow_ref:
  "rules_allow (Some (case ref of None \<Rightarrow> [] | Some r \<Rightarrow> if refName r = [] then [] else
     [\<lparr>prVerbs = Some [''get'', ''watch''], prAPIGroups = Some [[]], prResources = Some [res],
       prResourceNames = Some [refName r]\<rparr>])) v g rs n \<longleftrightarrow>
   v \<in> {''get'', ''watch''} \<and> g = [] \<and> (rs = res \<or> res = ''*'') \<and> refers ref n"
proof (cases "\<exists>r. ref = Some r \<and> refName r \<noteq> []")
  case True
  then show ?thesis by (auto simp: rules_allow_named refers_def)
next
  case False
  then show ?thesis by (auto simp: rules_allow_def refers_def split: option.splits)
qed

lemma buildChannelRoleRules_allow:
  "rules_allow (buildChannelRoleRules inst) v g r n \<longleftrightarrow>
     v \<in> {''get'', ''list'', ''watch''} \<and> g = apiGroup \<and> r \<in> {''channels'', ''channels/status''} \<or>
     v \<in> {''get'', ''watch''} \<and> g = [] \<and>
       (r = ''secrets'' \<and> refers (SecretRef (chSpec inst)) n \<or> r = ''configmaps'' \<and> refers (ConfigMapRef (chSpec inst)) n)"
  unfolding buildChannelRoleRules_split rules_allow_append rules_allow_channels rules_allow_ref by auto

section \<open>The calls on the role\<close>

lemma meta_owner_key [simp]: "key_of_meta (m\<lparr>omOwnerReferences := rs\<rparr>) = key_of_meta m"
  by (simp add: key_of_meta_def)

text \<open>The role and the role binding of a channel are as the controller wants them.\<close>

definition role_synced :: "Channel \<Rightarrow> cluster \<Rightarrow> bool" where
  "role_synced ch c \<longleftrightarrow> (\<exists>role. clRoles c (chKey ch) = Some role \<and> roleRules role = buildChannelRoleRules ch)"

text \<open>At most the role of this key is written, and only with the rules of the channel.\<close>

definition role_step :: "Channel \<Rightarrow> cluster \<Rightarrow> cluster \<Rightarrow> bool" where
  "role_step ch c c' \<longleftrightarrow> c' = c \<or>
     (\<exists>role. roleRules role = buildChannelRoleRules ch \<and> key_of_meta (roleMeta role) = chKey ch \<and>
        c' = clRoles_update (\<lambda>m. m(chKey ch \<mapsto> role)) c)"

lemma role_stepI [intro]:
  "roleRules role = buildChannelRoleRules ch \<Longrightarrow> key_of_meta (roleMeta role) = chKey ch \<Longrightarrow>
   c' = clRoles_update (\<lambda>m. m(chKey ch \<mapsto> role)) c \<Longrightarrow> role_step ch c c'"
  by (auto simp: role_step_def)

lemma role_step_refl [simp]: "role_step ch c c"
  by (simp add: role_step_def)

context kube_api
begin

lemma ctrl_ref_key: "SetControllerReference e ch m = Inr m' \<Longrightarrow> key_of_meta m' = key_of_meta m"
  by (metis ctrl_ref meta_owner_key)

lemma create_role_step:
  assumes "kCreate (roles e) role w = (r, w')"
    and "roleRules role = buildChannelRoleRules ch" "key_of_meta (roleMeta role) = chKey ch"
  shows "role_step ch (st w) (st w')" and "r = Inr x \<Longrightarrow> role_synced ch (st w')"
  using assms rol.create_touches [OF assms(1)] rol.create_ok [of role w _ w']
  by (auto simp: role_synced_def)

lemma update_role_step:
  assumes "kUpdate (roles e) role w = (r, w')"
    and "roleRules role = buildChannelRoleRules ch" "key_of_meta (roleMeta role) = chKey ch"
  shows "role_step ch (st w) (st w')" and "r = Inr x \<Longrightarrow> role_synced ch (st w')"
  using assms rol.update_touches [OF assms(1)] rol.update_ok [of role w _ w']
  by (auto simp: role_synced_def)

lemma chKey_eq: "nskey (chNamespace ch) (chName ch) = chKey ch"
  by (simp add: key_of_meta_def)

lemma setupRole_step:
  assumes run: "setupRole e ch w = (r, w')"
  shows "role_step ch (st w) (st w') \<and> (r = None \<longrightarrow> role_synced ch (st w'))"
proof -
  obtain g w1 where get: "kGet (roles e) (chKey ch) w = (g, w1)" by fastforce
  have st1: "st w1 = st w" using get by (rule rol.get_st)
  have there: "clRoles (st w) (chKey ch) = Some role" "key_of_meta (roleMeta role) = chKey ch" if "g = Inr role" for role
    using get that rol.get_ok rol.keyed by blast+
  have create: "role_step ch (st w) (st w2) \<and> (\<forall>y. x = Inr y \<longrightarrow> role_synced ch (st w2))"
    if "SetControllerReference e ch (plain_meta (chNamespace ch) (chName ch)) = Inr m"
      and "kCreate (roles e) \<lparr>roleMeta = m, roleRules = buildChannelRoleRules ch\<rparr> w1 = (x, w2)" for m x w2
    using create_role_step [OF that(2)] ctrl_ref_key [OF that(1)] by (auto simp: st1 chKey_eq)
  have update: "role_step ch (st w) (st w2) \<and> (\<forall>y. x = Inr y \<longrightarrow> role_synced ch (st w2))"
    if "g = Inr role" "SetControllerReference e ch (roleMeta role) = Inr m"
      and "kUpdate (roles e) (role\<lparr>roleMeta := m, roleRules := buildChannelRoleRules ch\<rparr>) w1 = (x, w2)" for role m x w2
    using update_role_step [OF that(3)] ctrl_ref_key [OF that(2)] there(2) [OF that(1)] by (auto simp: st1)
  have keep: "role_synced ch (st w)" if "g = Inr role" "roleRules role = buildChannelRoleRules ch" for role
    using there [OF that(1)] that by (auto simp: role_synced_def)
  show ?thesis
    using run get st1 unfolding setupRole_def Let_def chKey_eq
    by (auto split: prod.splits sum.splits if_splits dest: create update keep)
qed

end

section \<open>The calls on the role binding\<close>

definition wanted_subjects :: "cluster \<Rightarrow> Subject set" where
  "wanted_subjects c = (\<Union>cl\<in>ran (clManagedClusters c). set (clusterSubjects cl))"

text \<open>The binding grants the channel's role to the agents of exactly the managed clusters.\<close>

definition binding_for :: "Channel \<Rightarrow> cluster \<Rightarrow> RoleBinding \<Rightarrow> bool" where
  "binding_for ch c rb \<longleftrightarrow> key_of_meta (rbMeta rb) = chKey ch \<and> rbRoleRef rb = channelRoleRef ch \<and>
     set (slice_list (rbSubjects rb)) = wanted_subjects c"

definition binding_synced :: "Channel \<Rightarrow> cluster \<Rightarrow> bool" where
  "binding_synced ch c \<longleftrightarrow> (\<exists>rb. clRoleBindings c (chKey ch) = Some rb \<and> binding_for ch c rb)"

definition binding_step :: "Channel \<Rightarrow> cluster \<Rightarrow> cluster \<Rightarrow> bool" where
  "binding_step ch c c' \<longleftrightarrow> c' = c \<or>
     (\<exists>rb. binding_for ch c rb \<and> c' = clRoleBindings_update (\<lambda>m. m(chKey ch \<mapsto> rb)) c)"

lemma binding_step_refl [simp]: "binding_step ch c c"
  by (simp add: binding_step_def)

lemma wanted_subjects_frame [simp]:
  "wanted_subjects (clRoleBindings_update f c) = wanted_subjects c"
  "wanted_subjects (clRoles_update g c) = wanted_subjects c"
  by (simp_all add: wanted_subjects_def)

lemma binding_for_frame [simp]:
  "binding_for ch (clRoleBindings_update f c) rb = binding_for ch c rb"
  "binding_for ch (clRoles_update g c) rb = binding_for ch c rb"
  by (simp_all add: binding_for_def)

lemma allSubjects_list: "slice_list (allSubjects cls) = concat (map clusterSubjects cls)"
proof -
  have "slice_list (foldl (\<lambda>subjects cl. Some ((case subjects of None \<Rightarrow> [] | Some ss \<Rightarrow> ss) @ clusterSubjects cl)) s cls) =
      slice_list s @ concat (map clusterSubjects cls)" for s
    by (induction cls arbitrary: s) (auto simp: slice_list_def split: option.splits)
  then show ?thesis by (simp add: allSubjects_def)
qed

context kube_api
begin

lemma listed_subjects:
  assumes "kList (managedClusters e) all_objects w = (Inr cls, w')"
  shows "set (slice_list (allSubjects cls)) = wanted_subjects (st w)"
  using mcl.list_ok [OF assms] by (auto simp: allSubjects_list wanted_subjects_def ran_def)

lemma create_binding_step:
  assumes "kCreate (roleBindings e) rb w = (r, w')" and "binding_for ch (st w) rb"
  shows "binding_step ch (st w) (st w')" and "r = Inr x \<Longrightarrow> binding_synced ch (st w')"
  using assms rbd.create_touches [OF assms(1)] rbd.create_ok [of rb w _ w']
  by (auto simp: binding_synced_def binding_step_def binding_for_def)

lemma update_binding_step:
  assumes "kUpdate (roleBindings e) rb w = (r, w')" and "binding_for ch (st w) rb"
  shows "binding_step ch (st w) (st w')" and "r = Inr x \<Longrightarrow> binding_synced ch (st w')"
  using assms rbd.update_touches [OF assms(1)] rbd.update_ok [of rb w _ w']
  by (auto simp: binding_synced_def binding_step_def binding_for_def)

end

context kube_api
begin

lemma syncRoleBinding_step:
  assumes run: "syncRoleBinding e ch cls w = (r, w')"
    and subj: "set (slice_list (allSubjects cls)) = wanted_subjects (st w)"
  shows "binding_step ch (st w) (st w') \<and> (r = None \<longrightarrow> binding_synced ch (st w'))"
proof -
  obtain g w1 where get: "kGet (roleBindings e) (chKey ch) w = (g, w1)" by fastforce
  have st1: "st w1 = st w" using get by (rule rbd.get_st)
  have there: "clRoleBindings (st w) (chKey ch) = Some rb" "key_of_meta (rbMeta rb) = chKey ch" if "g = Inr rb" for rb
    using get that rbd.get_ok rbd.keyed by blast+
  have create: "binding_step ch (st w) (st w2) \<and> (\<forall>y. x = Inr y \<longrightarrow> binding_synced ch (st w2))"
    if "SetControllerReference e ch (plain_meta (chNamespace ch) (chName ch)) = Inr m"
      and "kCreate (roleBindings e) \<lparr>rbMeta = m, rbSubjects = allSubjects cls, rbRoleRef = channelRoleRef ch\<rparr> w1 = (x, w2)" for m x w2
    using create_binding_step [OF that(2)] ctrl_ref_key [OF that(1)] subj by (auto simp: st1 binding_for_def chKey_eq)
  have update: "binding_step ch (st w) (st w2) \<and> (\<forall>y. x = Inr y \<longrightarrow> binding_synced ch (st w2))"
    if "g = Inr rb" "SetControllerReference e ch (rbMeta rb) = Inr m"
      and "kUpdate (roleBindings e) (rb\<lparr>rbMeta := m, rbSubjects := allSubjects cls, rbRoleRef := channelRoleRef ch\<rparr>) w1 = (x, w2)" for rb m x w2
    using update_binding_step [OF that(3)] ctrl_ref_key [OF that(2)] subj there(2) [OF that(1)]
    by (auto simp: st1 binding_for_def)
  have keep: "binding_synced ch (st w)" if "g = Inr rb" "allSubjects cls = rbSubjects rb" "rbRoleRef rb = channelRoleRef ch" for rb
    using there [OF that(1)] that subj by (auto simp: binding_synced_def binding_for_def)
  show ?thesis
    using run get st1 unfolding syncRoleBinding_def Let_def chKey_eq
    by (auto split: prod.splits sum.splits if_splits dest: create update keep)
qed

end

section \<open>validateClusterRBAC and cleanRoleFromAcmNS\<close>

text \<open>The cluster API is not installed: the list call in this world answers that the kind or path is unknown.\<close>

definition clusters_unknown :: "'w Env \<Rightarrow> 'w \<Rightarrow> bool" where
  "clusters_unknown e w \<longleftrightarrow> fst (kList (managedClusters e) all_objects w) \<in> {Inl NoMatch, Inl NotFound}"

definition rbac_step :: "Channel \<Rightarrow> cluster \<Rightarrow> cluster \<Rightarrow> bool" where
  "rbac_step ch c c' \<longleftrightarrow> (\<exists>c1. role_step ch c c1 \<and> binding_step ch c1 c')"

lemma rbac_step_refl [simp]: "rbac_step ch c c"
  unfolding rbac_step_def by (rule exI [of _ c]) simp

lemma role_step_rbac: "role_step ch c c' \<Longrightarrow> rbac_step ch c c'"
  unfolding rbac_step_def by (rule exI [of _ c']) simp

lemma binding_step_role_synced: "binding_step ch c c' \<Longrightarrow> role_synced ch c \<Longrightarrow> role_synced ch c'"
  by (auto simp: binding_step_def role_synced_def)

text \<open>At most the role and the binding of this key are removed.\<close>

definition clean_step :: "NamespacedName \<Rightarrow> cluster \<Rightarrow> cluster \<Rightarrow> bool" where
  "clean_step k c c' \<longleftrightarrow>
     (\<exists>rs\<in>{clRoles c, (clRoles c)(k := None)}. \<exists>bs\<in>{clRoleBindings c, (clRoleBindings c)(k := None)}.
        c' = c\<lparr>clRoles := rs, clRoleBindings := bs\<rparr>)"

context kube_api
begin

lemma validateClusterRBAC_same:
  "chNamespace ch = mch \<Longrightarrow> validateClusterRBAC e ch mch w = (None, w)"
  by (simp add: validateClusterRBAC_def)

lemma validateClusterRBAC_step:
  assumes run: "validateClusterRBAC e ch mch w = (r, w')" and ns: "chNamespace ch \<noteq> mch"
  shows "rbac_step ch (st w) (st w') \<and>
    (r = None \<longrightarrow> role_synced ch (st w') \<and>
      (if clusters_unknown e (snd (setupRole e ch w)) then clRoleBindings (st w') = clRoleBindings (st w)
       else binding_synced ch (st w')))"
proof -
  obtain r1 w1 where role: "setupRole e ch w = (r1, w1)" by fastforce
  note rs = setupRole_step [OF role]
  obtain l w2 where list: "kList (managedClusters e) all_objects w1 = (l, w2)" by fastforce
  have st2: "st w2 = st w1" using list by (rule mcl.list_st)
  have unknown: "clusters_unknown e (snd (setupRole e ch w)) \<longleftrightarrow> l \<in> {Inl NoMatch, Inl NotFound}"
    by (simp add: clusters_unknown_def role list)
  have rb: "clRoleBindings (st w1) = clRoleBindings (st w)"
    using rs by (auto simp: role_step_def)
  show ?thesis
  proof (cases "r1 = None \<and> (\<exists>cls. l = Inr cls)")
    case True
    then obtain cls where l: "l = Inr cls" by blast
    have sync: "syncRoleBinding e ch cls w2 = (r, w')"
      using run ns role list True l by (simp add: validateClusterRBAC_def)
    have "binding_step ch (st w1) (st w') \<and> (r = None \<longrightarrow> binding_synced ch (st w'))"
      using syncRoleBinding_step [OF sync] listed_subjects [of w1 cls w2] list l st2 by simp
    then show ?thesis
      using rs True l unfolding unknown rbac_step_def by (auto elim: binding_step_role_synced)
  next
    case False
    then have "w' = w1 \<or> w' = w2" "r = None \<longrightarrow> r1 = None \<and> l \<in> {Inl NoMatch, Inl NotFound}"
      using run ns role list by (auto simp: validateClusterRBAC_def split: option.splits sum.splits if_splits)
    then show ?thesis using rs rb st2 unfolding unknown by (auto intro: role_step_rbac)
  qed
qed

lemma cleanRole_other:
  "chNamespace ch \<noteq> mch \<Longrightarrow> cleanRoleFromAcmNS e ch mch w = (None, w)"
  by (simp add: cleanRoleFromAcmNS_def)

lemma deleteRole_step:
  assumes "deleteChannelRole e ch w = (r, w')"
  shows "st w' = st w \<or> st w' = clRoles_update (\<lambda>m. m(chKey ch := None)) (st w)"
proof (cases "kGet (roles e) (chKey ch) w")
  case (Pair g w1)
  then show ?thesis
    using assms rol.get_st [OF Pair] rol.get_ok [of "chKey ch" w _ w1] rol.keyed [of w "chKey ch"] rol.delete_touches
    by (fastforce simp: deleteChannelRole_def chKey_eq split: sum.splits prod.splits)
qed

lemma deleteRoleBinding_step:
  assumes "deleteChannelRoleBinding e ch w = (r, w')"
  shows "st w' = st w \<or> st w' = clRoleBindings_update (\<lambda>m. m(chKey ch := None)) (st w)"
proof (cases "kGet (roleBindings e) (chKey ch) w")
  case (Pair g w1)
  then show ?thesis
    using assms rbd.get_st [OF Pair] rbd.get_ok [of "chKey ch" w _ w1] rbd.keyed [of w "chKey ch"] rbd.delete_touches
    by (fastforce simp: deleteChannelRoleBinding_def chKey_eq split: sum.splits prod.splits)
qed

lemma cleanRole_step:
  assumes "cleanRoleFromAcmNS e ch mch w = (r, w')"
  shows "clean_step (chKey ch) (st w) (st w')"
  using assms unfolding cleanRoleFromAcmNS_def clean_step_def
  by (auto split: prod.splits if_splits option.splits dest!: deleteRole_step deleteRoleBinding_step)

lemma hub_st: "FindMultiClusterHubNS e w = (ns, w') \<Longrightarrow> st w' = st w"
  by (auto simp: FindMultiClusterHubNS_def split: prod.splits option.splits if_splits dest: hubs_st)

end

section \<open>Frames, and runs without faults\<close>

text \<open>The namespace of the hub, when there is exactly one.\<close>

definition hub_namespace :: "cluster \<Rightarrow> string" where
  "hub_namespace c = (if is_singleton (ran (clHubs c)) then omNamespace (mchMeta (the_elem (ran (clHubs c)))) else [])"

text \<open>The kinds of objects the reconciler never writes.\<close>

definition rest_of :: "cluster \<Rightarrow>
    (NamespacedName \<rightharpoonup> ManagedCluster) \<times> (NamespacedName \<rightharpoonup> Service) \<times> (NamespacedName \<rightharpoonup> Endpoints) \<times>
    (NamespacedName \<rightharpoonup> WebhookConfiguration) \<times> (NamespacedName \<rightharpoonup> OwnerObject) \<times>
    (NamespacedName \<rightharpoonup> OwnerObject) \<times> (NamespacedName \<rightharpoonup> MultiClusterHub)" where
  "rest_of c = (clManagedClusters c, clServices c, clEndpoints c, clWebhookConfigs c, clDeployments c, clCrds c, clHubs c)"

lemma rest_of_frame [frame_simps, simp]:
  "rest_of (clRoles_update f1 c) = rest_of c"
  "rest_of (clRoleBindings_update f2 c) = rest_of c"
  "rest_of (clChannels_update f3 c) = rest_of c"
  "rest_of (data_upd g f4 c) = rest_of c"
  by (simp_all add: rest_of_def)

lemma rbac_step_frame:
  assumes "rbac_step ch c c'"
  shows "rest_of c' = rest_of c" and "clChannels c' = clChannels c" and "clDataObjects c' = clDataObjects c"
    and "k \<noteq> chKey ch \<Longrightarrow> clRoles c' k = clRoles c k \<and> clRoleBindings c' k = clRoleBindings c k"
  using assms by (auto simp: rbac_step_def role_step_def binding_step_def)

lemma clean_step_frame:
  assumes "clean_step j c c'"
  shows "rest_of c' = rest_of c" and "clChannels c' = clChannels c" and "clDataObjects c' = clDataObjects c"
    and "k \<noteq> j \<Longrightarrow> clRoles c' k = clRoles c k \<and> clRoleBindings c' k = clRoleBindings c k"
  using assms by (auto simp: clean_step_def)

text \<open>
  The controller reference can be set on the role and the binding of the channel, and an existing
  binding already refers to the channel's role, which cannot be changed.
\<close>

definition adopts :: "'w Env \<Rightarrow> Channel \<Rightarrow> ObjectMeta option \<Rightarrow> bool" where
  "adopts e ch there \<longleftrightarrow> (\<exists>m. SetControllerReference e ch
     (case there of None \<Rightarrow> plain_meta (chNamespace ch) (chName ch) | Some m0 \<Rightarrow> m0) = Inr m)"

definition adoptable :: "'w Env \<Rightarrow> Channel \<Rightarrow> cluster \<Rightarrow> bool" where
  "adoptable e ch c \<longleftrightarrow> adopts e ch (map_option roleMeta (clRoles c (chKey ch))) \<and>
     adopts e ch (map_option rbMeta (clRoleBindings c (chKey ch))) \<and>
     (\<forall>rb. clRoleBindings c (chKey ch) = Some rb \<longrightarrow> rbRoleRef rb = channelRoleRef ch)"

context kube_api_calm
begin

lemma setupRole_calm:
  assumes "calm w" and "adopts e ch (map_option roleMeta (clRoles (st w) (chKey ch)))"
  shows "\<exists>w'. calm w' \<and> setupRole e ch w = (None, w')"
proof -
  obtain w1 where w1: "calm w1" "kGet (roles e) (chKey ch) w =
      (case clRoles (st w) (chKey ch) of None \<Rightarrow> Inl NotFound | Some ob \<Rightarrow> Inr ob, w1)"
    using rol.calm_get [OF assms(1)] by blast
  note st1 = rol.get_st [OF w1(2)]
  show ?thesis
  proof (cases "clRoles (st w) (chKey ch)")
    case None
    obtain m where m: "SetControllerReference e ch (plain_meta (chNamespace ch) (chName ch)) = Inr m"
      using assms(2) None by (auto simp: adopts_def)
    let ?r = "\<lparr>roleMeta = m, roleRules = buildChannelRoleRules ch\<rparr>"
    have "clRoles (st w1) (key_of_meta (roleMeta ?r)) = None"
      using ctrl_ref_key [OF m] None st1 by (simp add: chKey_eq)
    then obtain x w2 where "calm w2" "kCreate (roles e) ?r w1 = (Inr x, w2)"
      using rol.calm_create [OF w1(1)] by blast
    with None w1 m show ?thesis by (auto simp: setupRole_def chKey_eq Let_def)
  next
    case (Some role)
    obtain m where m: "SetControllerReference e ch (roleMeta role) = Inr m"
      using assms(2) Some by (auto simp: adopts_def)
    let ?r = "role\<lparr>roleMeta := m, roleRules := buildChannelRoleRules ch\<rparr>"
    have "clRoles (st w1) (key_of_meta (roleMeta ?r)) = Some role"
      using ctrl_ref_key [OF m] Some st1 rol.keyed [OF Some] by simp
    then obtain x w2 where "calm w2" "kUpdate (roles e) ?r w1 = (Inr x, w2)"
      using rol.calm_update [OF w1(1) _ any_update_True] by blast
    with Some w1 m show ?thesis by (auto simp: setupRole_def chKey_eq Let_def)
  qed
qed

lemma syncRoleBinding_calm:
  assumes "calm w" and "adopts e ch (map_option rbMeta (clRoleBindings (st w) (chKey ch)))"
    and "\<And>rb. clRoleBindings (st w) (chKey ch) = Some rb \<Longrightarrow> rbRoleRef rb = channelRoleRef ch"
  shows "\<exists>w'. calm w' \<and> syncRoleBinding e ch cls w = (None, w')"
proof -
  obtain w1 where w1: "calm w1" "kGet (roleBindings e) (chKey ch) w =
      (case clRoleBindings (st w) (chKey ch) of None \<Rightarrow> Inl NotFound | Some ob \<Rightarrow> Inr ob, w1)"
    using rbd.calm_get [OF assms(1)] by blast
  note st1 = rbd.get_st [OF w1(2)]
  show ?thesis
  proof (cases "clRoleBindings (st w) (chKey ch)")
    case None
    obtain m where m: "SetControllerReference e ch (plain_meta (chNamespace ch) (chName ch)) = Inr m"
      using assms(2) None by (auto simp: adopts_def)
    let ?r = "\<lparr>rbMeta = m, rbSubjects = allSubjects cls, rbRoleRef = channelRoleRef ch\<rparr>"
    have "clRoleBindings (st w1) (key_of_meta (rbMeta ?r)) = None"
      using ctrl_ref_key [OF m] None st1 by (simp add: chKey_eq)
    then obtain x w2 where "calm w2" "kCreate (roleBindings e) ?r w1 = (Inr x, w2)"
      using rbd.calm_create [OF w1(1)] by blast
    with None w1 m show ?thesis by (auto simp: syncRoleBinding_def chKey_eq Let_def)
  next
    case (Some rb)
    obtain m where m: "SetControllerReference e ch (rbMeta rb) = Inr m"
      using assms(2) Some by (auto simp: adopts_def)
    let ?r = "rb\<lparr>rbMeta := m, rbSubjects := allSubjects cls, rbRoleRef := channelRoleRef ch\<rparr>"
    have "clRoleBindings (st w1) (key_of_meta (rbMeta ?r)) = Some rb" "binding_may_update rb ?r"
      using ctrl_ref_key [OF m] Some st1 rbd.keyed [OF Some] assms(3) [OF Some] by (simp_all add: binding_may_update_def)
    then obtain x w2 where "calm w2" "kUpdate (roleBindings e) ?r w1 = (Inr x, w2)"
      using rbd.calm_update [OF w1(1)] by blast
    with Some w1 m show ?thesis by (auto simp: syncRoleBinding_def chKey_eq Let_def)
  qed
qed

lemma validateClusterRBAC_calm:
  assumes calm: "calm w" and ad: "adoptable e ch (st w)" and ns: "chNamespace ch \<noteq> mch"
  shows "\<exists>w'. calm w' \<and> validateClusterRBAC e ch mch w = (None, w') \<and>
    rbac_step ch (st w) (st w') \<and> role_synced ch (st w') \<and> binding_synced ch (st w')"
proof -
  obtain w1 where w1: "calm w1" "setupRole e ch w = (None, w1)"
    using setupRole_calm [OF calm] ad by (auto simp: adoptable_def)
  have step1: "role_step ch (st w) (st w1)" "role_synced ch (st w1)" using setupRole_step [OF w1(2)] by auto
  obtain cls w2 where w2: "calm w2" "kList (managedClusters e) all_objects w1 = (Inr cls, w2)"
    using mcl.calm_list [OF w1(1)] by blast
  note st2 = mcl.list_st [OF w2(2)]
  have "clRoleBindings (st w2) = clRoleBindings (st w)"
    using step1(1) st2 by (auto simp: role_step_def)
  then obtain w3 where w3: "calm w3" "syncRoleBinding e ch cls w2 = (None, w3)"
    using syncRoleBinding_calm [OF w2(1), of ch cls] ad by (auto simp: adoptable_def)
  have step3: "binding_step ch (st w1) (st w3)" "binding_synced ch (st w3)"
    using syncRoleBinding_step [OF w3(2)] listed_subjects [OF w2(2)] st2 by auto
  have "validateClusterRBAC e ch mch w = (None, w3)"
    using ns w1(2) w2(2) w3(2) by (simp add: validateClusterRBAC_def)
  then show ?thesis
    using w3(1) step1 step3 binding_step_role_synced [OF step3(1) step1(2)] by (auto simp: rbac_step_def)
qed

lemma deleteRole_calm:
  assumes "calm w"
  shows "\<exists>w'. calm w' \<and> deleteChannelRole e ch w = (None, w') \<and>
    st w' = clRoles_update (\<lambda>m. m(chKey ch := None)) (st w)"
proof -
  obtain w1 where w1: "calm w1" "kGet (roles e) (chKey ch) w =
      (case clRoles (st w) (chKey ch) of None \<Rightarrow> Inl NotFound | Some ob \<Rightarrow> Inr ob, w1)"
    using rol.calm_get [OF assms] by blast
  note st1 = rol.get_st [OF w1(2)]
  show ?thesis
  proof (cases "clRoles (st w) (chKey ch)")
    case None
    then have "clRoles_update (\<lambda>m. m(chKey ch := None)) (st w) = st w" by (simp add: fun_upd_idem)
    with None w1 st1 show ?thesis by (auto simp: deleteChannelRole_def chKey_eq)
  next
    case (Some role)
    note key = rol.keyed [OF Some]
    then obtain w2 where w2: "calm w2" "kDelete (roles e) role w1 = (Inr (), w2)"
      using rol.calm_delete [OF w1(1), of role] Some st1 by auto
    with rol.delete_ok [OF w2(2)] Some w1 st1 key show ?thesis by (auto simp: deleteChannelRole_def chKey_eq)
  qed
qed

lemma deleteRoleBinding_calm:
  assumes "calm w"
  shows "\<exists>w'. calm w' \<and> deleteChannelRoleBinding e ch w = (None, w') \<and>
    st w' = clRoleBindings_update (\<lambda>m. m(chKey ch := None)) (st w)"
proof -
  obtain w1 where w1: "calm w1" "kGet (roleBindings e) (chKey ch) w =
      (case clRoleBindings (st w) (chKey ch) of None \<Rightarrow> Inl NotFound | Some ob \<Rightarrow> Inr ob, w1)"
    using rbd.calm_get [OF assms] by blast
  note st1 = rbd.get_st [OF w1(2)]
  show ?thesis
  proof (cases "clRoleBindings (st w) (chKey ch)")
    case None
    then have "clRoleBindings_update (\<lambda>m. m(chKey ch := None)) (st w) = st w" by (simp add: fun_upd_idem)
    with None w1 st1 show ?thesis by (auto simp: deleteChannelRoleBinding_def chKey_eq)
  next
    case (Some rb)
    note key = rbd.keyed [OF Some]
    then obtain w2 where w2: "calm w2" "kDelete (roleBindings e) rb w1 = (Inr (), w2)"
      using rbd.calm_delete [OF w1(1), of rb] Some st1 by auto
    with rbd.delete_ok [OF w2(2)] Some w1 st1 key show ?thesis by (auto simp: deleteChannelRoleBinding_def chKey_eq)
  qed
qed

lemma cleanRole_calm:
  assumes "calm w" and "chNamespace ch = mch"
  shows "\<exists>w'. calm w' \<and> cleanRoleFromAcmNS e ch mch w = (None, w') \<and>
    st w' = (st w)\<lparr>clRoles := (clRoles (st w))(chKey ch := None), clRoleBindings := (clRoleBindings (st w))(chKey ch := None)\<rparr>"
proof -
  obtain w1 where w1: "calm w1" "deleteChannelRole e ch w = (None, w1)"
      "st w1 = clRoles_update (\<lambda>m. m(chKey ch := None)) (st w)"
    using deleteRole_calm [OF assms(1)] by blast
  obtain w2 where "calm w2" "deleteChannelRoleBinding e ch w1 = (None, w2)"
      "st w2 = clRoleBindings_update (\<lambda>m. m(chKey ch := None)) (st w1)"
    using deleteRoleBinding_calm [OF w1(1)] by blast
  with w1 assms(2) show ?thesis by (auto simp: cleanRoleFromAcmNS_def)
qed

lemma hub_calm:
  assumes "calm w"
  shows "\<exists>w'. calm w' \<and> st w' = st w \<and> FindMultiClusterHubNS e w = (hub_namespace (st w), w')"
proof -
  obtain hs w' where w': "calm w'" "dynListHubs e mchGVR w = ((Some hs, None), w')"
    using hubs_calm [OF assms(1)] by blast
  then have hs: "set hs = ran (clHubs (st w))" "distinct (map (\<lambda>h. key_of_meta (mchMeta h)) hs)"
    using hubs_ok [of mchGVR w hs w'] by (auto simp: mchGVR_def)
  have "length hs = 1 \<longleftrightarrow> is_singleton (ran (clHubs (st w)))"
    using hs(2) distinct_card [of hs] unfolding hs(1) [symmetric] is_singleton_altdef by (simp add: distinct_map)
  moreover have "length hs = 1 \<Longrightarrow> hs ! 0 = the_elem (ran (clHubs (st w)))"
    unfolding hs(1) [symmetric] by (cases hs) auto
  ultimately show ?thesis
    using w' hubs_st [OF w'(2)] by (auto simp: FindMultiClusterHubNS_def hub_namespace_def)
qed

end

section \<open>Properties\<close>

text \<open>
  C7. The role of a channel allows exactly this: get, list and watch on channels and their status,
  and get and watch on the one Secret and the one ConfigMap that the channel names.
\<close>

theorem channel_role_least_privilege:
  "rules_allow (buildChannelRoleRules inst) v g r n \<longleftrightarrow>
     v \<in> {''get'', ''list'', ''watch''} \<and> g = apiGroup \<and> r \<in> {''channels'', ''channels/status''} \<or>
     v \<in> {''get'', ''watch''} \<and> g = [] \<and>
       (r = ''secrets'' \<and> refers (SecretRef (chSpec inst)) n \<or> r = ''configmaps'' \<and> refers (ConfigMapRef (chSpec inst)) n)"
  by (rule buildChannelRoleRules_allow)

text \<open>
  C8. In the hub's namespace \<open>validateClusterRBAC\<close> does nothing. In every other namespace it writes at
  most the channel's own role and binding, with the wanted content, and when it returns nil the role is
  in place and so is the binding; only when its own list call answered that the server does not know
  managed clusters, it leaves all bindings as they were.
\<close>

theorem validateClusterRBAC_result:
  assumes "kube_api e st"
  shows "(chNamespace ch = mch \<longrightarrow> validateClusterRBAC e ch mch w = (None, w)) \<and>
    (chNamespace ch \<noteq> mch \<longrightarrow>
      rbac_step ch (st w) (st (snd (validateClusterRBAC e ch mch w))) \<and>
      (fst (validateClusterRBAC e ch mch w) = None \<longrightarrow>
        role_synced ch (st (snd (validateClusterRBAC e ch mch w))) \<and>
        (if clusters_unknown e (snd (setupRole e ch w))
         then clRoleBindings (st (snd (validateClusterRBAC e ch mch w))) = clRoleBindings (st w)
         else binding_synced ch (st (snd (validateClusterRBAC e ch mch w))))))"
  using kube_api.validateClusterRBAC_step [OF assms, of ch mch w] kube_api.validateClusterRBAC_same [OF assms, of ch mch w]
  by (metis prod.collapse)

theorem validateClusterRBAC_result_witness:
  "rbac_step ex_channel (mem_cluster empty_mem) (mem_cluster (snd (validateClusterRBAC memEnv ex_channel ''ocm'' empty_mem))) \<and>
   role_synced ex_channel (mem_cluster (snd (validateClusterRBAC memEnv ex_channel ''ocm'' empty_mem))) \<and>
   binding_synced ex_channel (mem_cluster (snd (validateClusterRBAC memEnv ex_channel ''ocm'' empty_mem))) \<and>
   validateClusterRBAC memEnv ex_channel ''dev'' empty_mem = (None, empty_mem)"
proof -
  have "fst (validateClusterRBAC memEnv ex_channel ''ocm'' empty_mem) = None" by code_simp
  moreover have "chNamespace ex_channel = ''dev''" by (simp add: ex_channel_def)
  moreover have "\<not> clusters_unknown memEnv (snd (setupRole memEnv ex_channel empty_mem))"
    by (auto simp: clusters_unknown_def mem_client_def faulty_def pop_fault_def split: list.splits option.splits)
  ultimately show ?thesis
    using validateClusterRBAC_result [OF mem_kube_api, of ex_channel "''ocm''" empty_mem]
      validateClusterRBAC_result [OF mem_kube_api, of ex_channel "''dev''" empty_mem] by simp
qed

end
