(* ===== verification/Referred_Objects.thy ===== *)
theory Referred_Objects
  imports Serving_Channel
begin

text \<open>
  \<open>pkg/controller/channel/channel_controller.go\<close>, the part that marks the Secrets and ConfigMaps
  a channel refers to: \<open>updatedReferencedObjectLabels\<close>, \<open>syncReferredObjAnnotationLabel\<close>
  and \<open>handleReferencedObjects\<close>.
\<close>

section \<open>The kinds\<close>

definition srtGvk :: GroupVersionKind where
  "srtGvk = \<lparr>gvkGroup = [], gvkVersion = ''v1'', gvkKind = ''Secret''\<rparr>"

definition cmGvk :: GroupVersionKind where
  "cmGvk = \<lparr>gvkGroup = [], gvkVersion = ''v1'', gvkKind = ''ConfigMap''\<rparr>"

definition backupLabel :: string where
  "backupLabel = ''cluster.open-cluster-management.io/backup''"

section \<open>Referenced objects\<close>

definition updatedReferencedObjectLabels ::
  "'w Env \<Rightarrow> ObjectReference option \<Rightarrow> GroupVersionKind \<Rightarrow> 'w \<Rightarrow> go_error option \<times> 'w" where
  "updatedReferencedObjectLabels e ref objGvk w =
     (case ref of
        None \<Rightarrow> (Some (NewErr (''empty referred object '' @ gvkKind objGvk)), w)
      | Some ref \<Rightarrow>
          (case kGet (dataObjects e objGvk) (nskey (refNamespace ref) (refName ref)) w of
             (Inl er, w) \<Rightarrow> (Some (WrapErr (ApiError er) (''failed to get the reference object '' @ gvkKind objGvk)), w)
           | (Inr obj, w) \<Rightarrow>
               (let localLabels = (omLabels (doMeta obj))(ServingChannel \<mapsto> ''true'');
                    obj = obj\<lparr>doMeta := (doMeta obj)\<lparr>omLabels := localLabels\<rparr>\<rparr>
                in case kUpdate (dataObjects e objGvk) obj w of
                     (Inl er, w) \<Rightarrow> (Some (WrapErr (ApiError er) (''failed to update the referred object '' @ gvkKind objGvk)), w)
                   | (Inr _, w) \<Rightarrow> (None, w))))"

text \<open>The annotation of one listed object: the channel is added to the object referred to, removed
  from every object when there is no usable reference, and left alone elsewhere.\<close>

definition newServingChannelOf ::
  "'w Env \<Rightarrow> string \<Rightarrow> ObjectReference option \<Rightarrow> DataObject \<Rightarrow> 'w \<Rightarrow> string \<times> 'w" where
  "newServingChannelOf e chnKey ref obj w =
     (let current = (case omAnnotations (doMeta obj) ServingChannel of None \<Rightarrow> [] | Some s \<Rightarrow> s)
      in if (case ref of None \<Rightarrow> False | Some r \<Rightarrow> refName r \<noteq> [] \<and> refNamespace r \<noteq> [])
         then (if omName (doMeta obj) = refName (the ref) \<and> omNamespace (doMeta obj) = refNamespace (the ref)
               then (case mapOrder e w of (ord, w) \<Rightarrow> (UpdateServingChannel ord current chnKey ''add'', w))
               else (current, w))
         else (case mapOrder e w of (ord, w) \<Rightarrow> (UpdateServingChannel ord current chnKey ''remove'', w)))"

definition annotateObject :: "string \<Rightarrow> DataObject \<Rightarrow> DataObject" where
  "annotateObject newServingChannel obj =
     (let annotations = (if newServingChannel \<noteq> []
            then (omAnnotations (doMeta obj))(ServingChannel \<mapsto> newServingChannel)
            else (omAnnotations (doMeta obj))(ServingChannel := None));
          labels = (case omLabels (doMeta obj) backupLabel of
              None \<Rightarrow> (omLabels (doMeta obj))(backupLabel \<mapsto> ''app'')
            | Some _ \<Rightarrow> omLabels (doMeta obj))
      in obj\<lparr>doMeta := (doMeta obj)\<lparr>omAnnotations := annotations, omLabels := labels\<rparr>\<rparr>)"

fun syncItems ::
  "'w Env \<Rightarrow> string \<Rightarrow> ObjectReference option \<Rightarrow> GroupVersionKind \<Rightarrow> DataObject list \<Rightarrow> 'w \<Rightarrow> 'w" where
  "syncItems e chnKey ref objGvk [] w = w"
| "syncItems e chnKey ref objGvk (obj # items) w =
     (let (newServingChannel, w) = newServingChannelOf e chnKey ref obj w;
          (_, w) = kUpdate (dataObjects e objGvk) (annotateObject newServingChannel obj) w
      in syncItems e chnKey ref objGvk items w)"

definition servingSelector :: LabelSelector where
  "servingSelector = \<lparr>MatchLabels = [(ServingChannel, ''true'')], MatchExpressions = []\<rparr>"

definition syncReferredObjAnnotationLabel ::
  "'w Env \<Rightarrow> NamespacedName \<Rightarrow> ObjectReference option \<Rightarrow> GroupVersionKind \<Rightarrow> 'w \<Rightarrow> go_error option \<times> 'w" where
  "syncReferredObjAnnotationLabel e rq ref objGvk w =
     (let chnKey = nskey (nnNamespace rq) (nnName rq)
      in case ConvertLabels e (Some servingSelector) of
        (_, Some er) \<Rightarrow> (Some (WrapErr er ''failed to set label selector for referred object''), w)
      | (clSelector, None) \<Rightarrow>
          (case kList (dataObjects e objGvk) \<lparr>loNamespace = [], loLabelSelector = clSelector\<rparr> w of
             (Inl er, w) \<Rightarrow> (Some (WrapErr (ApiError er) (''failed to list objects '' @ gvk_String objGvk @ ''. error: '')), w)
           | (Inr items, w) \<Rightarrow> (None, syncItems e (nnString e chnKey) ref objGvk items w)))"

text \<open>
  One of the two symmetric halves of \<open>handleReferencedObjects\<close>: the namespace given in the
  reference is overwritten by the channel's own.
\<close>

definition handleReference ::
  "'w Env \<Rightarrow> Channel \<Rightarrow> NamespacedName \<Rightarrow> ObjectReference option \<Rightarrow> GroupVersionKind \<Rightarrow> 'w \<Rightarrow> go_error option \<times> 'w" where
  "handleReference e inst req ref objGvk w =
     (case ref of
        None \<Rightarrow> (None, w)
      | Some ref \<Rightarrow>
          (let ref = ref\<lparr>refNamespace := chNamespace inst\<rparr>
           in case updatedReferencedObjectLabels e (Some ref) objGvk w of
                (Some er, w) \<Rightarrow> (Some er, w)
              | (None, w) \<Rightarrow> syncReferredObjAnnotationLabel e req (Some ref) objGvk w))"

definition handleReferencedObjects ::
  "'w Env \<Rightarrow> Channel \<Rightarrow> NamespacedName \<Rightarrow> 'w \<Rightarrow> go_error option \<times> 'w" where
  "handleReferencedObjects e inst req w =
     (case handleReference e inst req (SecretRef (chSpec inst)) srtGvk w of
        (Some er, w) \<Rightarrow> (Some er, w)
      | (None, w) \<Rightarrow> handleReference e inst req (ConfigMapRef (chSpec inst)) cmGvk w)"

section \<open>What happens to one object\<close>

definition serving_annotation :: "DataObject \<Rightarrow> string" where
  "serving_annotation ob = (case omAnnotations (doMeta ob) ServingChannel of None \<Rightarrow> [] | Some s \<Rightarrow> s)"

definition serving_labelled :: "DataObject \<Rightarrow> bool" where
  "serving_labelled ob \<longleftrightarrow> omLabels (doMeta ob) ServingChannel = Some ''true''"

text \<open>The same object up to its labels and annotations; its data is not touched.\<close>

definition unmarked :: "DataObject \<Rightarrow> DataObject" where
  "unmarked ob = ob\<lparr>doMeta := (doMeta ob)\<lparr>omLabels := Map.empty, omAnnotations := Map.empty\<rparr>\<rparr>"

definition same_but_marks :: "DataObject \<Rightarrow> DataObject \<Rightarrow> bool" where
  "same_but_marks ob ob' \<longleftrightarrow> unmarked ob' = unmarked ob"

definition usable :: "ObjectReference option \<Rightarrow> bool" where
  "usable ref \<longleftrightarrow> (case ref of None \<Rightarrow> False | Some r \<Rightarrow> refName r \<noteq> [] \<and> refNamespace r \<noteq> [])"

definition targeted :: "ObjectReference option \<Rightarrow> DataObject \<Rightarrow> bool" where
  "targeted ref ob \<longleftrightarrow> usable ref \<and> key_of_meta (doMeta ob) = nskey (refNamespace (the ref)) (refName (the ref))"

text \<open>The new annotation of an object for channel \<open>key\<close> and reference \<open>ref\<close>.\<close>

definition serving_after :: "string \<Rightarrow> ObjectReference option \<Rightarrow> DataObject \<Rightarrow> string \<Rightarrow> bool" where
  "serving_after key ref ob s \<longleftrightarrow>
     (if targeted ref ob then served s = insert key (served (serving_annotation ob))
      else if usable ref then s = serving_annotation ob
      else served s = served (serving_annotation ob) - {key})"

definition synced_by :: "string \<Rightarrow> ObjectReference option \<Rightarrow> DataObject \<Rightarrow> DataObject \<Rightarrow> bool" where
  "synced_by key ref ob ob' \<longleftrightarrow> (\<exists>s. ob' = annotateObject s ob \<and> serving_after key ref ob s)"

lemma marks_distinct [simp]: "ServingChannel \<noteq> backupLabel" "backupLabel \<noteq> ServingChannel"
  by (simp_all add: ServingChannel_def apiGroup_def backupLabel_def)

lemma annotateObject_key [simp]: "key_of_meta (doMeta (annotateObject s ob)) = key_of_meta (doMeta ob)"
  by (simp add: annotateObject_def key_of_meta_def Let_def)

lemma annotateObject_serving [simp]: "serving_annotation (annotateObject s ob) = s"
  by (simp add: annotateObject_def serving_annotation_def Let_def)

lemma annotateObject_labelled [simp]: "serving_labelled (annotateObject s ob) = serving_labelled ob"
  by (auto simp: annotateObject_def serving_labelled_def Let_def split: option.splits)

lemma annotateObject_backup: "omLabels (doMeta (annotateObject s ob)) backupLabel \<noteq> None"
  by (auto simp: annotateObject_def Let_def split: option.splits)

lemma annotateObject_marks: "same_but_marks ob (annotateObject s ob)"
  by (simp add: same_but_marks_def unmarked_def annotateObject_def Let_def)

lemma unmarked_sel:
  "doData (unmarked ob) = doData ob"
  "doType (unmarked ob) = doType ob"
  "key_of_meta (doMeta (unmarked ob)) = key_of_meta (doMeta ob)"
  "omOwnerReferences (doMeta (unmarked ob)) = omOwnerReferences (doMeta ob)"
  by (simp_all add: unmarked_def key_of_meta_def)

lemma same_but_marksD:
  "same_but_marks ob ob' \<Longrightarrow> doData ob' = doData ob \<and> doType ob' = doType ob \<and>
     key_of_meta (doMeta ob') = key_of_meta (doMeta ob) \<and>
     omOwnerReferences (doMeta ob') = omOwnerReferences (doMeta ob)"
  unfolding same_but_marks_def by (metis unmarked_sel)

lemma same_but_marks_refl [simp]: "same_but_marks ob ob"
  by (simp add: same_but_marks_def)

lemma same_but_marks_trans: "same_but_marks a b \<Longrightarrow> same_but_marks b c \<Longrightarrow> same_but_marks a c"
  by (simp add: same_but_marks_def)

section \<open>What happens to the store of one kind\<close>

type_synonym data_store = "NamespacedName \<rightharpoonup> DataObject"

text \<open>Entries in \<open>A\<close> may get new labels and annotations, all others stay.\<close>

definition marks_step :: "NamespacedName set \<Rightarrow> data_store \<Rightarrow> data_store \<Rightarrow> bool" where
  "marks_step A m m' \<longleftrightarrow>
     (\<forall>k. m' k = m k \<or> k \<in> A \<and> (\<exists>ob ob'. m k = Some ob \<and> m' k = Some ob' \<and> same_but_marks ob ob'))"

lemma marks_step_refl [simp]: "marks_step A m m"
  by (simp add: marks_step_def)

lemma marks_step_mono: "marks_step A m m' \<Longrightarrow> A \<subseteq> B \<Longrightarrow> marks_step B m m'"
  unfolding marks_step_def by blast

lemma marks_step_trans:
  assumes "marks_step A m m1" and "marks_step A m1 m2"
  shows "marks_step A m m2"
proof -
  have "m2 k = m k \<or> k \<in> A \<and> (\<exists>ob ob'. m k = Some ob \<and> m2 k = Some ob' \<and> same_but_marks ob ob')" for k
  proof -
    consider "m1 k = m k" | "m2 k = m1 k" |
        a b c where "k \<in> A" "m k = Some a" "m1 k = Some b" "m2 k = Some c" "same_but_marks a b" "same_but_marks b c"
      using assms unfolding marks_step_def by (metis option.inject)
    then show ?thesis
    proof cases
      case 1
      then show ?thesis using assms(2) unfolding marks_step_def by metis
    next
      case 2
      then show ?thesis using assms(1) unfolding marks_step_def by metis
    next
      case 3
      then show ?thesis using same_but_marks_trans by blast
    qed
  qed
  then show ?thesis by (simp add: marks_step_def)
qed

lemma marks_step_single:
  "m k = Some ob \<Longrightarrow> same_but_marks ob ob' \<Longrightarrow> k \<in> A \<Longrightarrow> marks_step A m (m(k \<mapsto> ob'))"
  unfolding marks_step_def by auto

lemma marks_step_dom: "marks_step A m m' \<Longrightarrow> dom m' = dom m"
  unfolding marks_step_def dom_def by force

text \<open>The same for the cluster: only objects of kind \<open>g\<close> are marked.\<close>

definition data_step :: "GroupVersionKind \<Rightarrow> NamespacedName set \<Rightarrow> cluster \<Rightarrow> cluster \<Rightarrow> bool" where
  "data_step g A c c' \<longleftrightarrow>
     marks_step A (clDataObjects c g) (clDataObjects c' g) \<and> c' = data_upd g (\<lambda>_. clDataObjects c' g) c"

lemma data_upd_eq: "data_upd g f c = data_upd g (\<lambda>_. f (clDataObjects c g)) c"
  by (simp add: data_upd_def)

lemma data_upd_upd [simp]: "data_upd g f (data_upd g h c) = data_upd g (\<lambda>m. f (h m)) c"
  by (simp add: data_upd_def)

lemma data_step_refl [simp]: "data_step g A c c"
  by (simp add: data_step_def data_upd_def)

lemma data_step_trans:
  assumes "data_step g A c c1" and "data_step g A c1 c2"
  shows "data_step g A c c2"
proof -
  have "c2 = data_upd g (\<lambda>_. clDataObjects c2 g) (data_upd g (\<lambda>_. clDataObjects c1 g) c)"
    using assms unfolding data_step_def by simp
  then have "c2 = data_upd g (\<lambda>_. clDataObjects c2 g) c" by (simp only: data_upd_upd)
  moreover have "marks_step A (clDataObjects c g) (clDataObjects c2 g)"
    using assms marks_step_trans unfolding data_step_def by blast
  ultimately show ?thesis unfolding data_step_def by blast
qed

lemma data_step_mono: "data_step g A c c' \<Longrightarrow> A \<subseteq> B \<Longrightarrow> data_step g B c c'"
  unfolding data_step_def using marks_step_mono by blast

lemma data_step_single:
  "clDataObjects c g k = Some ob \<Longrightarrow> same_but_marks ob ob' \<Longrightarrow> k \<in> A \<Longrightarrow>
   data_step g A c (data_upd g (\<lambda>m. m(k \<mapsto> ob')) c)"
  by (simp add: data_step_def marks_step_single data_upd_def)

lemma data_step_here: "data_step g A c c' \<Longrightarrow> marks_step A (clDataObjects c g) (clDataObjects c' g)"
  by (simp add: data_step_def)

lemma data_step_frame:
  assumes "data_step g A c c'"
  shows "c' = c\<lparr>clDataObjects := clDataObjects c'\<rparr>"
    and "g' \<noteq> g \<Longrightarrow> clDataObjects c' g' = clDataObjects c g'"
proof -
  have eq: "c' = data_upd g (\<lambda>_. clDataObjects c' g) c" using assms by (simp add: data_step_def)
  have "clDataObjects c' = (clDataObjects c)(g := clDataObjects c' g)"
    using arg_cong [OF eq, of clDataObjects] by simp
  then show "c' = c\<lparr>clDataObjects := clDataObjects c'\<rparr>" and "g' \<noteq> g \<Longrightarrow> clDataObjects c' g' = clDataObjects c g'"
    using eq by (metis data_upd_def, metis fun_upd_other)
qed

section \<open>The steps of the controller\<close>

context kube_api
begin

lemmas data_keyed = kind_api.keyed [OF data_api, unfolded data_sel_def]
lemmas data_get_st = kind_api.get_st [OF data_api]
lemmas data_get_ok = kind_api.get_ok [OF data_api, unfolded data_sel_def]
lemmas data_list_st = kind_api.list_st [OF data_api]
lemmas data_list_mem = kind_api.list_mem [OF data_api, unfolded data_sel_def]
lemmas data_list_distinct = kind_api.list_distinct [OF data_api]
lemmas data_update_ok = kind_api.update_ok [OF data_api, unfolded data_sel_def]
lemmas data_update_touches = kind_api.update_touches [OF data_api, unfolded data_sel_def]

lemma update_marks:
  assumes run: "kUpdate (dataObjects e g) ob' w = (r, w')"
    and ob: "clDataObjects (st w) g k = Some ob" "same_but_marks ob ob'"
  shows "data_step g {k} (st w) (st w')"
    and "r = Inr x \<Longrightarrow> clDataObjects (st w') g = (clDataObjects (st w) g)(k \<mapsto> ob')"
    and "clDataObjects (st w') g k \<in> {Some ob, Some ob'}"
proof -
  have key: "key_of_meta (doMeta ob') = k"
    using data_keyed [OF ob(1)] same_but_marksD [OF ob(2)] by simp
  show "data_step g {k} (st w) (st w')"
    using data_update_touches [OF run] key data_step_single [OF ob, of "{k}"] by auto
  show "r = Inr x \<Longrightarrow> clDataObjects (st w') g = (clDataObjects (st w) g)(k \<mapsto> ob')"
    using data_update_ok [of g ob' w x w'] run key by auto
  show "clDataObjects (st w') g k \<in> {Some ob, Some ob'}"
    using data_update_touches [OF run] key ob by auto
qed

lemma label_marks: "same_but_marks ob (ob\<lparr>doMeta := (doMeta ob)\<lparr>omLabels := ls\<rparr>\<rparr>)"
  by (simp add: same_but_marks_def unmarked_def)

lemma updatedLabels_step:
  assumes "updatedReferencedObjectLabels e (Some ref) g w = (r, w')"
  shows "data_step g {nskey (refNamespace ref) (refName ref)} (st w) (st w')"
    and "r = None \<Longrightarrow> \<exists>ob ob'. clDataObjects (st w) g (nskey (refNamespace ref) (refName ref)) = Some ob \<and>
      clDataObjects (st w') g (nskey (refNamespace ref) (refName ref)) = Some ob' \<and>
      ob' = ob\<lparr>doMeta := (doMeta ob)\<lparr>omLabels := (omLabels (doMeta ob))(ServingChannel \<mapsto> ''true'')\<rparr>\<rparr>"
proof -
  let ?k = "nskey (refNamespace ref) (refName ref)"
  obtain x w1 where get: "kGet (dataObjects e g) ?k w = (x, w1)" by fastforce
  have st1: "st w1 = st w" using get by (rule data_get_st)
  have ob: "x = Inr ob \<Longrightarrow> clDataObjects (st w) g ?k = Some ob" for ob
    using get data_get_ok by blast
  note upd = update_marks [where w = w1 and k = ?k and g = g, unfolded st1, OF _ ob label_marks]
  show "data_step g {?k} (st w) (st w')"
    using assms get st1 upd(1) by (auto simp: updatedReferencedObjectLabels_def Let_def split: prod.splits sum.splits)
  show "r = None \<Longrightarrow> \<exists>ob ob'. clDataObjects (st w) g ?k = Some ob \<and> clDataObjects (st w') g ?k = Some ob' \<and>
      ob' = ob\<lparr>doMeta := (doMeta ob)\<lparr>omLabels := (omLabels (doMeta ob))(ServingChannel \<mapsto> ''true'')\<rparr>\<rparr>"
    using assms get ob upd(2)
    by (auto simp: updatedReferencedObjectLabels_def Let_def split: prod.splits sum.splits)
qed

end

lemma nskey_eq_iff: "key_of_meta m = nskey ns n \<longleftrightarrow> omName m = n \<and> omNamespace m = ns"
  by (auto simp: key_of_meta_def)

abbreviation object_key :: "DataObject \<Rightarrow> NamespacedName" where
  "object_key ob \<equiv> key_of_meta (doMeta ob)"

text \<open>The objects a sync looks at: those with the serving label.\<close>

definition labelled_keys :: "data_store \<Rightarrow> NamespacedName set" where
  "labelled_keys m = {k. \<exists>ob. m k = Some ob \<and> serving_labelled ob}"

lemma serving_selector: "match_labels (MatchLabels servingSelector) ls \<longleftrightarrow> ls ServingChannel = Some ''true''"
  by (auto simp: match_labels_def servingSelector_def)

lemma usable_targeted: "targeted ref ob \<Longrightarrow> usable ref"
  by (simp add: targeted_def)

context kube_api
begin

lemma newServing_after:
  assumes run: "newServingChannelOf e key ref ob w = (s, w1)" and key: "serving_key key"
  shows "st w1 = st w \<and> serving_after key ref ob s"
proof -
  obtain ord w2 where ord: "mapOrder e w = (ord, w2)" by fastforce
  note upd = go_map_order.served_update_add [OF order_ok [OF ord] key]
    go_map_order.served_update_remove [OF order_ok [OF ord], of _ key]
  note st2 = order_st [OF ord]
  consider "targeted ref ob" | "\<not> targeted ref ob" "usable ref" | "\<not> usable ref" by blast
  then show ?thesis
  proof cases
    case 1
    then have "s = UpdateServingChannel ord (serving_annotation ob) key ''add'' \<and> w1 = w2"
      using run ord by (auto simp: newServingChannelOf_def targeted_def usable_def nskey_eq_iff serving_annotation_def Let_def split: option.splits)
    with 1 st2 show ?thesis by (simp add: serving_after_def upd)
  next
    case 2
    then have "s = serving_annotation ob \<and> w1 = w"
      using run by (auto simp: newServingChannelOf_def targeted_def usable_def nskey_eq_iff serving_annotation_def Let_def split: option.splits if_splits)
    with 2 show ?thesis by (simp add: serving_after_def)
  next
    case 3
    then have "s = UpdateServingChannel ord (serving_annotation ob) key ''remove'' \<and> w1 = w2"
      using run ord by (auto simp: newServingChannelOf_def usable_def serving_annotation_def Let_def split: option.splits if_splits)
    with 3 st2 show ?thesis by (simp add: serving_after_def upd targeted_def)
  qed
qed

lemma newServing_world:
  "newServingChannelOf e key ref ob w = (s, w1) \<Longrightarrow> w1 = w \<or> (\<exists>ord. mapOrder e w = (ord, w1))"
  by (auto simp: newServingChannelOf_def Let_def split: if_splits prod.splits)

lemma data_step_others:
  "data_step g A c c' \<Longrightarrow> k \<notin> A \<Longrightarrow> clDataObjects c' g k = clDataObjects c g k"
  by (auto simp: data_step_def marks_step_def)

text \<open>
  The loop over the listed objects. \<open>P\<close> is a condition on the world under which updates
  succeed; without it every object may also be left as it was.
\<close>

definition data_live :: "GroupVersionKind \<Rightarrow> ('w \<Rightarrow> bool) \<Rightarrow> bool" where
  "data_live g P \<longleftrightarrow>
     (\<forall>w0 ord w1. P w0 \<longrightarrow> mapOrder e w0 = (ord, w1) \<longrightarrow> P w1) \<and>
     (\<forall>w0 k ob. P w0 \<longrightarrow> clDataObjects (st w0) g k = Some ob \<longrightarrow>
        (\<exists>w1. P w1 \<and> kGet (dataObjects e g) k w0 = (Inr ob, w1))) \<and>
     (\<forall>w0 lo. P w0 \<longrightarrow> (\<exists>obs w1. P w1 \<and> kList (dataObjects e g) lo w0 = (Inr obs, w1))) \<and>
     (\<forall>w0 ob'. P w0 \<longrightarrow> clDataObjects (st w0) g (object_key ob') \<noteq> None \<longrightarrow>
        (\<exists>x w1. P w1 \<and> kUpdate (dataObjects e g) ob' w0 = (Inr x, w1)))"

lemma data_liveD:
  assumes "data_live g P" and "P w0"
  shows "mapOrder e w0 = (ord, w1) \<Longrightarrow> P w1"
    and "clDataObjects (st w0) g k = Some ob \<Longrightarrow> \<exists>w1. P w1 \<and> kGet (dataObjects e g) k w0 = (Inr ob, w1)"
    and "\<exists>obs w1. P w1 \<and> kList (dataObjects e g) lo w0 = (Inr obs, w1)"
    and "clDataObjects (st w0) g (object_key ob') \<noteq> None \<Longrightarrow>
        \<exists>x w1. P w1 \<and> kUpdate (dataObjects e g) ob' w0 = (Inr x, w1)"
  using assms unfolding data_live_def by metis+

lemma data_live_never: "data_live g (\<lambda>_. False)"
  by (simp add: data_live_def)

definition item_done :: "('w \<Rightarrow> bool) \<Rightarrow> string \<Rightarrow> ObjectReference option \<Rightarrow> DataObject \<Rightarrow> DataObject option \<Rightarrow> 'w \<Rightarrow> bool" where
  "item_done P key ref ob now w \<longleftrightarrow>
     \<not> P w \<and> now = Some ob \<or> (\<exists>ob'. now = Some ob' \<and> synced_by key ref ob ob')"

lemma syncItem_effect:
  assumes key: "serving_key key" and live: "data_live g P"
    and cur: "clDataObjects (st w) g (object_key ob) = Some ob"
    and s: "newServingChannelOf e key ref ob w = (s, w1)"
    and u: "kUpdate (dataObjects e g) (annotateObject s ob) w1 = (r, w2)"
  shows "data_step g {object_key ob} (st w) (st w2)" and "P w \<Longrightarrow> P w2"
    and "item_done P key ref ob (clDataObjects (st w2) g (object_key ob)) w"
proof -
  have st1: "st w1 = st w" and after: "serving_after key ref ob s" using newServing_after [OF s key] by auto
  have P1: "P w \<Longrightarrow> P w1" using newServing_world [OF s] data_liveD(1) [OF live] by blast
  have ok: "P w \<Longrightarrow> P w2 \<and> (\<exists>x. r = Inr x)"
    using data_liveD(4) [OF live P1, of "annotateObject s ob"] cur u st1 by auto
  note upd = update_marks [OF u _ annotateObject_marks, unfolded st1, OF cur]
  show "data_step g {object_key ob} (st w) (st w2)" by (rule upd(1))
  show "P w \<Longrightarrow> P w2" using ok by blast
  have new: "synced_by key ref ob (annotateObject s ob)" using after by (auto simp: synced_by_def)
  show "item_done P key ref ob (clDataObjects (st w2) g (object_key ob)) w"
    using upd(2,3) ok new unfolding item_done_def by fastforce
qed

lemma syncItems_effect:
  assumes key: "serving_key key" and live: "data_live g P"
  shows "(\<forall>ob\<in>set items. clDataObjects (st w) g (object_key ob) = Some ob) \<Longrightarrow> distinct (map object_key items) \<Longrightarrow>
    data_step g (object_key ` set items) (st w) (st (syncItems e key ref g items w)) \<and>
    (P w \<longrightarrow> P (syncItems e key ref g items w)) \<and>
    (\<forall>ob\<in>set items. item_done P key ref ob (clDataObjects (st (syncItems e key ref g items w)) g (object_key ob)) w)"
proof (induction items arbitrary: w)
  case Nil
  then show ?case by simp
next
  case (Cons ob items)
  obtain s w1 where s: "newServingChannelOf e key ref ob w = (s, w1)" by fastforce
  obtain r w2 where u: "kUpdate (dataObjects e g) (annotateObject s ob) w1 = (r, w2)" by fastforce
  have run: "syncItems e key ref g (ob # items) w = syncItems e key ref g items w2" by (simp add: s u)
  have cur: "clDataObjects (st w) g (object_key ob) = Some ob" using Cons.prems by simp
  note one = syncItem_effect [OF key live cur s u]
  have "\<forall>ob2\<in>set items. clDataObjects (st w2) g (object_key ob2) = Some ob2"
  proof
    fix ob2 assume ob2: "ob2 \<in> set items"
    have "object_key ob2 \<in> object_key ` set items" using ob2 by (rule imageI)
    then have "object_key ob2 \<notin> {object_key ob}" using Cons.prems(2) by fastforce
    then have "clDataObjects (st w2) g (object_key ob2) = clDataObjects (st w) g (object_key ob2)"
      by (rule data_step_others [OF one(1)])
    also have "\<dots> = Some ob2" using Cons.prems(1) ob2 by simp
    finally show "clDataObjects (st w2) g (object_key ob2) = Some ob2" .
  qed
  from Cons.IH [OF this] Cons.prems have
    rest: "data_step g (object_key ` set items) (st w2) (st (syncItems e key ref g items w2))"
      "P w2 \<longrightarrow> P (syncItems e key ref g items w2)"
      "\<forall>ob2\<in>set items. item_done P key ref ob2 (clDataObjects (st (syncItems e key ref g items w2)) g (object_key ob2)) w2"
    by auto
  have "data_step g (object_key ` set (ob # items)) (st w) (st (syncItems e key ref g items w2))"
    by (rule data_step_trans [OF data_step_mono [OF one(1)] data_step_mono [OF rest(1)]]) auto
  moreover have "item_done P key ref ob (clDataObjects (st (syncItems e key ref g items w2)) g (object_key ob)) w"
    using one(3) data_step_others [OF rest(1)] Cons.prems(2) by auto
  moreover have "\<forall>ob2\<in>set items. item_done P key ref ob2 (clDataObjects (st (syncItems e key ref g items w2)) g (object_key ob2)) w"
    using rest(3) one(2) by (auto simp: item_done_def)
  ultimately show ?case using rest(2) one(2) unfolding run by auto
qed

lemma sync_effect:
  assumes run: "syncReferredObjAnnotationLabel e rq ref g w = (r, w')"
    and key: "serving_key (nnString e rq)" and live: "data_live g P"
  shows "data_step g (labelled_keys (clDataObjects (st w) g)) (st w) (st w')"
    and "P w \<Longrightarrow> r = None \<and> P w' \<and> (\<forall>k ob. clDataObjects (st w) g k = Some ob \<and> serving_labelled ob \<longrightarrow>
      (\<exists>ob'. clDataObjects (st w') g k = Some ob' \<and> synced_by (nnString e rq) ref ob ob'))"
proof -
  let ?lo = "\<lparr>loNamespace = [], loLabelSelector = match_labels (MatchLabels servingSelector)\<rparr>"
  have sel: "ConvertLabels e (Some servingSelector) = (match_labels (MatchLabels servingSelector), None)"
    by (rule ConvertLabels_match) (simp add: servingSelector_def)
  obtain l w1 where list: "kList (dataObjects e g) ?lo w = (l, w1)" by fastforce
  note st1 = data_list_st [OF list]
  have items: "(\<forall>ob\<in>set obs. clDataObjects (st w1) g (object_key ob) = Some ob) \<and>
      distinct (map object_key obs) \<and> object_key ` set obs = labelled_keys (clDataObjects (st w) g)" if "l = Inr obs" for obs
    using data_list_mem [of g ?lo w obs w1] data_list_distinct [of g ?lo w obs w1] list st1 that data_keyed
    by (auto simp: lo_matches_def serving_selector serving_labelled_def labelled_keys_def image_iff) metis
  note eff = syncItems_effect [OF key live, of _ w1 ref]
  show "data_step g (labelled_keys (clDataObjects (st w) g)) (st w) (st w')"
  proof (cases l)
    case (Inl er)
    then show ?thesis using run list st1 by (simp add: syncReferredObjAnnotationLabel_def sel Let_def)
  next
    case (Inr obs)
    then show ?thesis
      using run list st1 items [OF Inr] eff [of obs] by (simp add: syncReferredObjAnnotationLabel_def sel Let_def)
  qed
  assume P: "P w"
  then obtain obs where obs: "l = Inr obs" "P w1" using data_liveD(3) [OF live P, of ?lo] list by auto
  then have r: "r = None" "w' = syncItems e (nnString e rq) ref g obs w1"
    using run list by (auto simp: syncReferredObjAnnotationLabel_def sel Let_def)
  have mem: "ob \<in> set obs \<and> object_key ob = k" if "clDataObjects (st w) g k = Some ob" "serving_labelled ob" for k ob
    using data_list_mem [of g ?lo w obs w1 ob] list obs(1) that data_keyed [OF that(1)]
    by (auto simp: lo_matches_def serving_selector serving_labelled_def)
  show "r = None \<and> P w' \<and> (\<forall>k ob. clDataObjects (st w) g k = Some ob \<and> serving_labelled ob \<longrightarrow>
      (\<exists>ob'. clDataObjects (st w') g k = Some ob' \<and> synced_by (nnString e rq) ref ob ob'))"
    using eff [of obs] items [OF obs(1)] obs(2) r mem unfolding item_done_def by blast
qed

lemma updatedLabels_live:
  assumes "data_live g P" "P w" and "clDataObjects (st w) g (nskey (refNamespace ref) (refName ref)) = Some ob"
  shows "\<exists>w'. P w' \<and> updatedReferencedObjectLabels e (Some ref) g w = (None, w')"
proof -
  let ?ob = "ob\<lparr>doMeta := (doMeta ob)\<lparr>omLabels := (omLabels (doMeta ob))(ServingChannel \<mapsto> ''true'')\<rparr>\<rparr>"
  obtain w1 where get: "P w1" "kGet (dataObjects e g) (nskey (refNamespace ref) (refName ref)) w = (Inr ob, w1)"
    using data_liveD(2) [OF assms(1,2,3)] by blast
  have "object_key ?ob = nskey (refNamespace ref) (refName ref)"
    using data_keyed [OF assms(3)] same_but_marksD [OF label_marks] by simp
  then have "clDataObjects (st w1) g (object_key ?ob) \<noteq> None"
    using assms(3) data_get_st [OF get(2)] by simp
  then obtain x w2 where "P w2" "kUpdate (dataObjects e g) ?ob w1 = (Inr x, w2)"
    using data_liveD(4) [OF assms(1) get(1)] by blast
  with get show ?thesis by (auto simp: updatedReferencedObjectLabels_def Let_def)
qed

lemma labelled_keys_marks: "marks_step {k} m m' \<Longrightarrow> labelled_keys m' \<subseteq> insert k (labelled_keys m)"
proof
  fix j assume step: "marks_step {k} m m'" and j: "j \<in> labelled_keys m'"
  have "j \<noteq> k \<Longrightarrow> m' j = m j" using step unfolding marks_step_def by blast
  then show "j \<in> insert k (labelled_keys m)" using j by (cases "j = k") (simp_all add: labelled_keys_def)
qed

lemma handleReference_frame:
  assumes run: "handleReference e ch rq ref g w = (r, w')" and key: "serving_key (nnString e rq)"
  shows "data_step g (labelled_keys (clDataObjects (st w) g) \<union>
      {nskey (chNamespace ch) (refName rf) | rf. ref = Some rf}) (st w) (st w')"
proof (cases ref)
  case None
  then show ?thesis using run by (simp add: handleReference_def)
next
  case (Some rf)
  let ?rf = "rf\<lparr>refNamespace := chNamespace ch\<rparr>" and ?k = "nskey (chNamespace ch) (refName rf)"
  obtain r1 w1 where l: "updatedReferencedObjectLabels e (Some ?rf) g w = (r1, w1)" by fastforce
  have step1: "data_step g {?k} (st w) (st w1)" using updatedLabels_step(1) [OF l] by simp
  have step2: "data_step g (insert ?k (labelled_keys (clDataObjects (st w) g))) (st w1) (st w2)"
    if "syncReferredObjAnnotationLabel e rq (Some ?rf) g w1 = (r2, w2)" for r2 w2
    using sync_effect(1) [OF that key data_live_never] labelled_keys_marks [OF data_step_here [OF step1]]
    by (rule data_step_mono)
  have "data_step g (insert ?k (labelled_keys (clDataObjects (st w) g))) (st w) (st w')"
    using run l Some step2 data_step_mono [OF step1, of "insert ?k (labelled_keys (clDataObjects (st w) g))"]
    by (auto simp: handleReference_def Let_def split: option.splits intro: data_step_trans)
  then show ?thesis using Some by simp
qed

lemma handleReference_live:
  assumes P: "P w" and live: "data_live g P" and key: "serving_key (nnString e rq)"
    and ob: "clDataObjects (st w) g (nskey (chNamespace ch) (refName rf)) = Some ob"
    and names: "refName rf \<noteq> []" "chNamespace ch \<noteq> []"
  shows "\<exists>w' ob'. P w' \<and> handleReference e ch rq (Some rf) g w = (None, w') \<and>
    clDataObjects (st w') g (nskey (chNamespace ch) (refName rf)) = Some ob' \<and> serving_labelled ob' \<and>
    omLabels (doMeta ob') backupLabel \<noteq> None \<and>
    served (serving_annotation ob') = insert (nnString e rq) (served (serving_annotation ob))"
proof -
  let ?rf = "rf\<lparr>refNamespace := chNamespace ch\<rparr>" and ?k = "nskey (chNamespace ch) (refName rf)"
  obtain w1 where w1: "P w1" "updatedReferencedObjectLabels e (Some ?rf) g w = (None, w1)"
    using updatedLabels_live [OF live P, of ?rf] ob by auto
  obtain ob1 where ob1: "clDataObjects (st w1) g ?k = Some ob1"
    "ob1 = ob\<lparr>doMeta := (doMeta ob)\<lparr>omLabels := (omLabels (doMeta ob))(ServingChannel \<mapsto> ''true'')\<rparr>\<rparr>"
    using updatedLabels_step(2) [OF w1(2)] ob by auto
  obtain r w2 where s: "syncReferredObjAnnotationLabel e rq (Some ?rf) g w1 = (r, w2)" by fastforce
  have lab: "serving_labelled ob1" and ann: "serving_annotation ob1 = serving_annotation ob"
    using ob1(2) by (simp_all add: serving_labelled_def serving_annotation_def)
  have "targeted (Some ?rf) ob1"
    using names data_keyed [OF ob1(1)] by (simp add: targeted_def usable_def)
  moreover obtain ob' where ob': "r = None" "P w2" "clDataObjects (st w2) g ?k = Some ob'" "synced_by (nnString e rq) (Some ?rf) ob1 ob'"
    using sync_effect(2) [OF s key live w1(1)] ob1(1) lab by blast
  ultimately have "served (serving_annotation ob') = insert (nnString e rq) (served (serving_annotation ob))"
    "serving_labelled ob'" "omLabels (doMeta ob') backupLabel \<noteq> None"
    using lab ann annotateObject_backup by (auto simp: synced_by_def serving_after_def)
  then show ?thesis using ob' s w1(2) by (auto simp: handleReference_def Let_def)
qed

lemma handleReferenced_frame:
  assumes run: "handleReferencedObjects e ch rq w = (r, w')" and key: "serving_key (nnString e rq)"
  shows "\<exists>c1. data_step srtGvk (labelled_keys (clDataObjects (st w) srtGvk) \<union>
        {nskey (chNamespace ch) (refName rf) | rf. SecretRef (chSpec ch) = Some rf}) (st w) c1 \<and>
      data_step cmGvk (labelled_keys (clDataObjects (st w) cmGvk) \<union>
        {nskey (chNamespace ch) (refName rf) | rf. ConfigMapRef (chSpec ch) = Some rf}) c1 (st w')"
proof -
  obtain r1 w1 where h: "handleReference e ch rq (SecretRef (chSpec ch)) srtGvk w = (r1, w1)" by fastforce
  note f1 = handleReference_frame [OF h key]
  have cm: "clDataObjects (st w1) cmGvk = clDataObjects (st w) cmGvk"
    by (rule data_step_frame(2) [OF f1]) (simp add: srtGvk_def cmGvk_def)
  show ?thesis
  proof (cases r1)
    case None
    then have "handleReference e ch rq (ConfigMapRef (chSpec ch)) cmGvk w1 = (r, w')"
      using run h by (simp add: handleReferencedObjects_def)
    from handleReference_frame [OF this key] f1 show ?thesis unfolding cm by blast
  next
    case (Some er)
    then have "w' = w1" using run h by (simp add: handleReferencedObjects_def)
    with f1 show ?thesis by (intro exI [of _ "st w1"]) simp
  qed
qed

end

text \<open>The object of a reference exists, and it is marked for a channel afterwards.\<close>

definition ref_there :: "cluster \<Rightarrow> GroupVersionKind \<Rightarrow> string \<Rightarrow> ObjectReference option \<Rightarrow> bool" where
  "ref_there c g ns ref \<longleftrightarrow>
     (\<forall>rf. ref = Some rf \<longrightarrow> refName rf \<noteq> [] \<and> clDataObjects c g (nskey ns (refName rf)) \<noteq> None)"

definition object_marked :: "string \<Rightarrow> DataObject \<Rightarrow> DataObject \<Rightarrow> bool" where
  "object_marked key ob ob' \<longleftrightarrow> serving_labelled ob' \<and> omLabels (doMeta ob') backupLabel \<noteq> None \<and>
     served (serving_annotation ob') = insert key (served (serving_annotation ob))"

definition ref_marked ::
  "string \<Rightarrow> cluster \<Rightarrow> cluster \<Rightarrow> GroupVersionKind \<Rightarrow> string \<Rightarrow> ObjectReference option \<Rightarrow> bool" where
  "ref_marked key c c' g ns ref \<longleftrightarrow> (\<forall>rf. ref = Some rf \<longrightarrow>
     (\<exists>ob ob'. clDataObjects c g (nskey ns (refName rf)) = Some ob \<and>
        clDataObjects c' g (nskey ns (refName rf)) = Some ob' \<and> object_marked key ob ob'))"

context kube_api_calm
begin

lemma data_live_calm: "data_live g calm"
proof -
  have "kind_api_calm (dataObjects e g) doMeta (=) st (data_sel g) (data_upd g) calm any_update" by (rule data_calm)
  note c = kind_api_calm.calm_get [OF this] kind_api_calm.calm_list [OF this] kind_api_calm.calm_update [OF this _ _ any_update_True]
  show ?thesis
    unfolding data_live_def using c order_calm by (auto simp: data_sel_def) (metis option.case(2))
qed

text \<open>Both references of a channel, when their objects exist.\<close>

lemma handleReferenced_calm:
  assumes calm: "calm w" and key: "serving_key (nnString e rq)" and ns: "chNamespace ch \<noteq> []"
    and s: "ref_there (st w) srtGvk (chNamespace ch) (SecretRef (chSpec ch))"
    and c: "ref_there (st w) cmGvk (chNamespace ch) (ConfigMapRef (chSpec ch))"
  shows "\<exists>w'. calm w' \<and> handleReferencedObjects e ch rq w = (None, w') \<and>
    ref_marked (nnString e rq) (st w) (st w') srtGvk (chNamespace ch) (SecretRef (chSpec ch)) \<and>
    ref_marked (nnString e rq) (st w) (st w') cmGvk (chNamespace ch) (ConfigMapRef (chSpec ch))"
proof -
  have one: "\<exists>w1. calm w1 \<and> handleReference e ch rq ref g w0 = (None, w1) \<and>
      ref_marked (nnString e rq) (st w0) (st w1) g (chNamespace ch) ref"
    if "calm w0" "ref_there (st w0) g (chNamespace ch) ref" for w0 ref g
  proof (cases ref)
    case None
    then show ?thesis using that(1) by (simp add: handleReference_def ref_marked_def)
  next
    case (Some rf)
    with that(2) obtain ob where "clDataObjects (st w0) g (nskey (chNamespace ch) (refName rf)) = Some ob" "refName rf \<noteq> []"
      by (auto simp: ref_there_def)
    from handleReference_live [OF that(1) data_live_calm key this ns] this(1) Some
    show ?thesis by (auto simp: ref_marked_def object_marked_def)
  qed
  obtain w1 where w1: "calm w1" "handleReference e ch rq (SecretRef (chSpec ch)) srtGvk w = (None, w1)"
      "ref_marked (nnString e rq) (st w) (st w1) srtGvk (chNamespace ch) (SecretRef (chSpec ch))"
    using one [OF calm s] by blast
  have cm: "clDataObjects (st w1) cmGvk = clDataObjects (st w) cmGvk"
    by (rule data_step_frame(2) [OF handleReference_frame [OF w1(2) key]]) (simp add: srtGvk_def cmGvk_def)
  have c1: "ref_there (st w1) cmGvk (chNamespace ch) (ConfigMapRef (chSpec ch))"
    using c by (simp add: ref_there_def cm)
  obtain w2 where w2: "calm w2" "handleReference e ch rq (ConfigMapRef (chSpec ch)) cmGvk w1 = (None, w2)"
      "ref_marked (nnString e rq) (st w1) (st w2) cmGvk (chNamespace ch) (ConfigMapRef (chSpec ch))"
    using one [OF w1(1) c1] by blast
  have sr: "clDataObjects (st w2) srtGvk = clDataObjects (st w1) srtGvk"
    by (rule data_step_frame(2) [OF handleReference_frame [OF w2(2) key]]) (simp add: srtGvk_def cmGvk_def)
  show ?thesis
    using w1 w2 by (auto simp: handleReferencedObjects_def ref_marked_def cm sr)
qed

end

section \<open>Properties\<close>

text \<open>A secret that is marked for two channels.\<close>

definition ex_marked :: mem where
  "ex_marked = empty_mem\<lparr>mDataObjects := [(srtGvk, ex_secret\<lparr>doMeta := (doMeta ex_secret)\<lparr>
     omLabels := [ServingChannel \<mapsto> ''true''], omAnnotations := [ServingChannel \<mapsto> ''dev/charts,ops/git'']\<rparr>\<rparr>)]\<rparr>"

text \<open>
  C9. When no call fails, \<open>syncReferredObjAnnotationLabel\<close> brings every labelled object up to date:
  the channel is added to the annotation of the object the reference names, the other objects keep
  theirs, and without a usable reference the channel is removed from all of them. Every labelled
  object gets a backup label, and its data and owners stay as they were.
\<close>

theorem referenced_objects_synced:
  assumes "kube_api_calm e st calm" and "calm w" and "serving_key (nnString e rq)"
    and "clDataObjects (st w) g k = Some ob" and "serving_labelled ob"
  shows "fst (syncReferredObjAnnotationLabel e rq ref g w) = None \<and>
    (\<exists>ob'. clDataObjects (st (snd (syncReferredObjAnnotationLabel e rq ref g w))) g k = Some ob' \<and> same_but_marks ob ob' \<and>
      omLabels (doMeta ob') backupLabel \<noteq> None \<and> serving_after (nnString e rq) ref ob (serving_annotation ob'))"
proof -
  have api: "kube_api e st" using assms(1) by (simp add: kube_api_calm_def)
  obtain r w' where run: "syncReferredObjAnnotationLabel e rq ref g w = (r, w')" by fastforce
  have "r = None \<and> (\<exists>ob'. clDataObjects (st w') g k = Some ob' \<and> synced_by (nnString e rq) ref ob ob')"
    using kube_api.sync_effect(2) [OF api run assms(3) kube_api_calm.data_live_calm [OF assms(1)] assms(2)] assms(4,5) by blast
  then show ?thesis
    using run annotateObject_marks annotateObject_backup by (auto simp: synced_by_def)
qed

theorem referenced_objects_synced_witness:
  "\<exists>ob'. clDataObjects (mem_cluster (snd (syncReferredObjAnnotationLabel memEnv ex_key None srtGvk ex_marked))) srtGvk
       (nskey ''dev'' ''creds'') = Some ob' \<and> served (serving_annotation ob') = {''ops/git''}"
proof -
  have calm: "mem_calm ex_marked" by (simp add: mem_calm_def ex_marked_def empty_mem_def)
  have key: "serving_key (nnString memEnv ex_key)" by (simp add: serving_key_def ex_key_def)
  obtain ob where ob: "clDataObjects (mem_cluster ex_marked) srtGvk (nskey ''dev'' ''creds'') = Some ob" "serving_labelled ob"
      "serving_annotation ob = ''dev/charts,ops/git''"
    by (simp add: mem_cluster_def ex_marked_def empty_mem_def mem_data_sel_def ex_secret_def key_of_meta_def
        serving_labelled_def serving_annotation_def)
  have "served ''dev/charts,ops/git'' - {''dev/charts''} = {''ops/git''}" by (auto simp: served_def)
  with referenced_objects_synced [OF fake.kube_api_calm_axioms calm key ob(1,2), of None] ob(3)
  show ?thesis by (auto simp: serving_after_def targeted_def usable_def ex_key_def)
qed

text \<open>
  When the object a reference names does not exist, handling the reference returns an error that
  wraps NotFound and the cluster is not changed.
\<close>

lemma missing_reference_error:
  assumes "kube_api_calm e st calm" and "calm w" and "clDataObjects (st w) g (nskey (chNamespace ch) (refName rf)) = None"
  shows "\<exists>er w'. handleReference e ch rq (Some rf) g w = (Some er, w') \<and> cause er = Some NotFound \<and> st w' = st w"
proof -
  have k: "kind_api_calm (dataObjects e g) doMeta (=) st (data_sel g) (data_upd g) calm any_update"
    by (rule kube_api_calm.data_calm [OF assms(1)])
  obtain w1 where "kGet (dataObjects e g) (nskey (chNamespace ch) (refName rf)) w = (Inl NotFound, w1)"
    using kind_api_calm.calm_get [OF k assms(2), of "nskey (chNamespace ch) (refName rf)"] assms(3) by (auto simp: data_sel_def)
  with kind_api.get_st [OF kube_api.data_api this] assms(1) show ?thesis
    by (simp add: handleReference_def updatedReferencedObjectLabels_def Let_def kube_api_calm_def)
qed

lemma missing_reference_error_witness:
  "\<exists>er w'. handleReference memEnv ex_channel ex_key (SecretRef (chSpec ex_channel)) srtGvk empty_mem = (Some er, w') \<and>
     cause er = Some NotFound \<and> mem_cluster w' = mem_cluster empty_mem"
proof -
  have "mem_calm empty_mem" by (simp add: mem_calm_def empty_mem_def)
  moreover have "clDataObjects (mem_cluster empty_mem) srtGvk k = None" for k
    by (simp add: mem_cluster_def empty_mem_def mem_data_sel_def)
  ultimately show ?thesis
    using missing_reference_error [OF fake.kube_api_calm_axioms] by (simp add: ex_channel_def)
qed

end
