(* ===== verification/Referred_Entries.thy ===== *)
theory Referred_Entries
  imports Referred_Objects
begin

text \<open>
  A Secret or ConfigMap may serve several channels. Here the operations of
  \<open>Referred_Objects\<close> are shown to keep, whatever fails, every reflexive and transitive relation
  between the old and the new object that the two single updates keep, setting the serving label and
  writing the new annotation (locale \<open>object_relation\<close>). One such relation is
  \<open>entry_kept\<close>: at most the entry of the own channel changes; another is \<open>own_entry_kept\<close>: a
  channel with a usable reference is not taken out of any annotation.
\<close>

section \<open>What is kept of an object\<close>

text \<open>
  The other channels in the annotation, all other annotations, all labels except that the
  serving label may be set and a missing backup label added; data, type and owners.
\<close>

definition entry_kept :: "string \<Rightarrow> DataObject \<Rightarrow> DataObject \<Rightarrow> bool" where
  "entry_kept key ob ob' \<longleftrightarrow> same_but_marks ob ob' \<and>
     served (serving_annotation ob') - {key} = served (serving_annotation ob) - {key} \<and>
     (\<forall>a. a \<noteq> ServingChannel \<longrightarrow> omAnnotations (doMeta ob') a = omAnnotations (doMeta ob) a) \<and>
     (\<forall>l. l \<noteq> ServingChannel \<and> l \<noteq> backupLabel \<longrightarrow> omLabels (doMeta ob') l = omLabels (doMeta ob) l) \<and>
     (serving_labelled ob \<longrightarrow> serving_labelled ob') \<and>
     (\<forall>v. omLabels (doMeta ob) backupLabel = Some v \<longrightarrow> omLabels (doMeta ob') backupLabel = Some v)"

lemma entry_kept_refl [simp]: "entry_kept key ob ob"
  by (simp add: entry_kept_def)

lemma entry_kept_trans: "entry_kept key a b \<Longrightarrow> entry_kept key b c \<Longrightarrow> entry_kept key a c"
  unfolding entry_kept_def by (auto intro: same_but_marks_trans)

lemma annotateObject_other:
  "a \<noteq> ServingChannel \<Longrightarrow> omAnnotations (doMeta (annotateObject s ob)) a = omAnnotations (doMeta ob) a"
  "l \<noteq> backupLabel \<Longrightarrow> omLabels (doMeta (annotateObject s ob)) l = omLabels (doMeta ob) l"
  "omLabels (doMeta ob) backupLabel = Some v \<Longrightarrow> omLabels (doMeta (annotateObject s ob)) backupLabel = Some v"
  by (auto simp: annotateObject_def Let_def split: option.splits)

lemma serving_after_others: "serving_after key ref ob s \<Longrightarrow> served s - {key} = served (serving_annotation ob) - {key}"
  by (auto simp: serving_after_def split: if_splits)

lemma synced_entry_kept: "synced_by key ref ob ob' \<Longrightarrow> entry_kept key ob ob'"
  unfolding synced_by_def entry_kept_def
  by (elim exE conjE) (simp add: annotateObject_marks annotateObject_other serving_after_others)

lemma labelled_entry_kept:
  "entry_kept key ob (ob\<lparr>doMeta := (doMeta ob)\<lparr>omLabels := (omLabels (doMeta ob))(ServingChannel \<mapsto> ''true'')\<rparr>\<rparr>)"
  by (simp add: entry_kept_def same_but_marks_def unmarked_def serving_annotation_def serving_labelled_def)

text \<open>An object that lists the channel still does.\<close>

definition own_entry_kept :: "string \<Rightarrow> DataObject \<Rightarrow> DataObject \<Rightarrow> bool" where
  "own_entry_kept key ob ob' \<longleftrightarrow> (key \<in> served (serving_annotation ob) \<longrightarrow> key \<in> served (serving_annotation ob'))"

lemma synced_own_entry_kept: "synced_by key ref ob ob' \<Longrightarrow> usable ref \<Longrightarrow> own_entry_kept key ob ob'"
  by (auto simp: synced_by_def serving_after_def own_entry_kept_def split: if_splits)

text \<open>The same for the objects of one kind, and for the cluster.\<close>

type_synonym object_rel = "DataObject \<Rightarrow> DataObject \<Rightarrow> bool"

definition entries_step :: "object_rel \<Rightarrow> data_store \<Rightarrow> data_store \<Rightarrow> bool" where
  "entries_step R m m' \<longleftrightarrow>
     (\<forall>k. (m k = None \<longrightarrow> m' k = None) \<and> (\<forall>ob. m k = Some ob \<longrightarrow> (\<exists>ob'. m' k = Some ob' \<and> R ob ob')))"

definition entries_kept :: "object_rel \<Rightarrow> cluster \<Rightarrow> cluster \<Rightarrow> bool" where
  "entries_kept R c c' \<longleftrightarrow> (\<forall>g. entries_step R (clDataObjects c g) (clDataObjects c' g))"

lemma entries_keptD:
  "entries_kept R c c' \<Longrightarrow> clDataObjects c g k = Some ob \<Longrightarrow> \<exists>ob'. clDataObjects c' g k = Some ob' \<and> R ob ob'"
  unfolding entries_kept_def entries_step_def by blast

text \<open>
  A relation that the two updates of a reconcile of \<open>key\<close> keep, when the references of the
  channel satisfy \<open>good\<close>.
\<close>

locale object_relation =
  fixes R :: object_rel and key :: string and good :: "ObjectReference option \<Rightarrow> bool"
  assumes R_refl: "R ob ob"
    and R_trans: "R ob1 ob2 \<Longrightarrow> R ob2 ob3 \<Longrightarrow> R ob1 ob3"
    and R_label: "R ob (ob\<lparr>doMeta := (doMeta ob)\<lparr>omLabels := (omLabels (doMeta ob))(ServingChannel \<mapsto> ''true'')\<rparr>\<rparr>)"
    and R_sync: "synced_by key ref ob ob' \<Longrightarrow> good ref \<Longrightarrow> R ob ob'"
begin

lemma entries_step_refl: "entries_step R m m"
  by (simp add: entries_step_def R_refl)

lemma entries_step_trans:
  assumes "entries_step R m m1" and "entries_step R m1 m2"
  shows "entries_step R m m2"
  using assms unfolding entries_step_def by (meson R_trans)

lemma entries_stepI:
  assumes "\<And>k. m' k = m k \<or> (\<exists>ob ob'. m k = Some ob \<and> m' k = Some ob' \<and> R ob ob')"
  shows "entries_step R m m'"
  unfolding entries_step_def
proof (intro allI conjI impI)
  fix k
  show "m' k = None" if "m k = None"
    using assms[of k] that by auto
  show "\<exists>ob'. m' k = Some ob' \<and> R ob ob'" if "m k = Some ob" for ob
    using assms[of k] that R_refl by auto
qed

lemma entries_kept_same: "clDataObjects c' = clDataObjects c \<Longrightarrow> entries_kept R c c'"
  by (simp add: entries_kept_def entries_step_refl)

lemma entries_kept_trans: "entries_kept R c c1 \<Longrightarrow> entries_kept R c1 c2 \<Longrightarrow> entries_kept R c c2"
  unfolding entries_kept_def using entries_step_trans by blast

lemma data_step_entries:
  assumes "data_step g A c c'" and "entries_step R (clDataObjects c g) (clDataObjects c' g)"
  shows "entries_kept R c c'"
  unfolding entries_kept_def
proof
  fix g'
  show "entries_step R (clDataObjects c g') (clDataObjects c' g')"
    using assms data_step_frame(2)[OF assms(1), of g'] by (cases "g' = g") (simp_all add: entries_step_refl)
qed

end

interpretation others_entries: object_relation "entry_kept key" key "\<lambda>_. True" for key
  by unfold_locales (auto intro: entry_kept_trans synced_entry_kept labelled_entry_kept)

interpretation own_entries: object_relation "own_entry_kept key" key usable for key
proof (unfold_locales, goal_cases)
  case (4 ref ob ob')
  then show ?case by (rule synced_own_entry_kept)
qed (simp_all add: own_entry_kept_def serving_annotation_def)

section \<open>The operations\<close>

context kube_api
begin

lemma updatedLabels_entries:
  assumes rel: "object_relation R (nnString e rq) good" and run: "updatedReferencedObjectLabels e (Some ref) g w = (r, w')"
  shows "entries_kept R (st w) (st w')"
proof -
  let ?k = "nskey (refNamespace ref) (refName ref)"
  obtain x w1 where get: "kGet (dataObjects e g) ?k w = (x, w1)" by fastforce
  have st1: "st w1 = st w" using get by (rule data_get_st)
  show ?thesis
  proof (cases x)
    case (Inl er)
    then show ?thesis
      using run get st1 by (simp add: updatedReferencedObjectLabels_def object_relation.entries_kept_same[OF rel])
  next
    case (Inr ob)
    let ?ob = "ob\<lparr>doMeta := (doMeta ob)\<lparr>omLabels := (omLabels (doMeta ob))(ServingChannel \<mapsto> ''true'')\<rparr>\<rparr>"
    have ob: "clDataObjects (st w1) g ?k = Some ob"
      using get Inr data_get_ok st1 by simp
    obtain y w2 where u: "kUpdate (dataObjects e g) ?ob w1 = (y, w2)" by fastforce
    have w': "w' = w2"
      using run get Inr u by (auto simp: updatedReferencedObjectLabels_def Let_def split: sum.splits)
    note m = update_marks[OF u ob label_marks]
    have "entries_step R (clDataObjects (st w1) g) (clDataObjects (st w2) g)"
    proof (rule object_relation.entries_stepI[OF rel])
      fix k
      show "clDataObjects (st w2) g k = clDataObjects (st w1) g k \<or>
          (\<exists>ob ob'. clDataObjects (st w1) g k = Some ob \<and> clDataObjects (st w2) g k = Some ob' \<and> R ob ob')"
      proof (cases "k = ?k")
        case True
        then show ?thesis
          using m(3) ob object_relation.R_label[OF rel, of ob] by auto
      next
        case False
        then show ?thesis
          using data_step_others[OF m(1)] by simp
      qed
    qed
    then show ?thesis
      using object_relation.data_step_entries[OF rel m(1)] st1 w' by simp
  qed
qed

lemma syncItems_entries:
  assumes rel: "object_relation R (nnString e rq) good" and key: "serving_key (nnString e rq)" and good: "good ref"
    and cur: "\<forall>ob\<in>set items. clDataObjects (st w) g (object_key ob) = Some ob" and dist: "distinct (map object_key items)"
  shows "entries_kept R (st w) (st (syncItems e (nnString e rq) ref g items w))"
proof -
  let ?w = "syncItems e (nnString e rq) ref g items w"
  have eff: "data_step g (object_key ` set items) (st w) (st ?w)"
    and item: "\<And>ob. ob \<in> set items \<Longrightarrow> item_done (\<lambda>_. False) (nnString e rq) ref ob (clDataObjects (st ?w) g (object_key ob)) w"
    using syncItems_effect[OF key data_live_never cur dist] by blast+
  have "entries_step R (clDataObjects (st w) g) (clDataObjects (st ?w) g)"
  proof (rule object_relation.entries_stepI[OF rel])
    fix k
    show "clDataObjects (st ?w) g k = clDataObjects (st w) g k \<or>
        (\<exists>ob ob'. clDataObjects (st w) g k = Some ob \<and> clDataObjects (st ?w) g k = Some ob' \<and> R ob ob')"
    proof (cases "k \<in> object_key ` set items")
      case True
      then obtain ob where ob: "ob \<in> set items" "k = object_key ob" by blast
      then have "clDataObjects (st w) g k = Some ob" using cur by simp
      then show ?thesis
        using item[OF ob(1)] ob(2) object_relation.R_sync[OF rel] good by (auto simp: item_done_def)
    next
      case False
      then show ?thesis
        using data_step_others[OF eff] by simp
    qed
  qed
  then show ?thesis by (rule object_relation.data_step_entries[OF rel eff])
qed

lemma sync_entries:
  assumes rel: "object_relation R (nnString e rq) good" and key: "serving_key (nnString e rq)"
    and run: "syncReferredObjAnnotationLabel e rq ref g w = (r, w')" and good: "good ref"
  shows "entries_kept R (st w) (st w')"
proof -
  let ?lo = "\<lparr>loNamespace = [], loLabelSelector = match_labels (MatchLabels servingSelector)\<rparr>"
  have sel: "ConvertLabels e (Some servingSelector) = (match_labels (MatchLabels servingSelector), None)"
    by (rule ConvertLabels_match) (simp add: servingSelector_def)
  obtain l w1 where list: "kList (dataObjects e g) ?lo w = (l, w1)" by fastforce
  note st1 = data_list_st[OF list]
  show ?thesis
  proof (cases l)
    case (Inl er)
    then show ?thesis
      using run list st1 by (simp add: syncReferredObjAnnotationLabel_def sel Let_def object_relation.entries_kept_same[OF rel])
  next
    case (Inr obs)
    have "\<forall>ob\<in>set obs. clDataObjects (st w1) g (object_key ob) = Some ob"
      using data_list_mem[of g ?lo w obs w1] list Inr st1 by simp
    moreover have "distinct (map object_key obs)"
      using data_list_distinct[of g ?lo w obs w1] list Inr by simp
    ultimately show ?thesis
      using syncItems_entries[OF rel key good, of obs w1 g] run list Inr st1
      by (simp add: syncReferredObjAnnotationLabel_def sel Let_def)
  qed
qed

lemma handleReference_entries:
  assumes rel: "object_relation R (nnString e rq) good" and key: "serving_key (nnString e rq)"
    and run: "handleReference e ch rq ref g w = (r, w')"
    and good: "\<And>rf. ref = Some rf \<Longrightarrow> good (Some (rf\<lparr>refNamespace := chNamespace ch\<rparr>))"
  shows "entries_kept R (st w) (st w')"
proof (cases ref)
  case None
  then show ?thesis using run by (simp add: handleReference_def object_relation.entries_kept_same[OF rel])
next
  case ref: (Some rf)
  let ?rf = "rf\<lparr>refNamespace := chNamespace ch\<rparr>"
  obtain r1 w1 where l: "updatedReferencedObjectLabels e (Some ?rf) g w = (r1, w1)" by fastforce
  note l1 = updatedLabels_entries[OF rel l]
  show ?thesis
  proof (cases r1)
    case None
    then have "syncReferredObjAnnotationLabel e rq (Some ?rf) g w1 = (r, w')"
      using run l ref by (simp add: handleReference_def Let_def)
    from object_relation.entries_kept_trans[OF rel l1 sync_entries[OF rel key this good[OF ref]]] show ?thesis .
  next
    case (Some er)
    then have "w' = w1"
      using run l ref by (simp add: handleReference_def Let_def)
    then show ?thesis using l1 by simp
  qed
qed

lemma handleReferenced_entries:
  assumes rel: "object_relation R (nnString e rq) good" and key: "serving_key (nnString e rq)"
    and run: "handleReferencedObjects e ch rq w = (r, w')"
    and good: "\<And>rf. SecretRef (chSpec ch) = Some rf \<or> ConfigMapRef (chSpec ch) = Some rf \<Longrightarrow>
      good (Some (rf\<lparr>refNamespace := chNamespace ch\<rparr>))"
  shows "entries_kept R (st w) (st w')"
proof -
  obtain r1 w1 where h: "handleReference e ch rq (SecretRef (chSpec ch)) srtGvk w = (r1, w1)" by fastforce
  note h1 = handleReference_entries[OF rel key h good[OF disjI1]]
  show ?thesis
  proof (cases r1)
    case None
    then have "handleReference e ch rq (ConfigMapRef (chSpec ch)) cmGvk w1 = (r, w')"
      using run h by (simp add: handleReferencedObjects_def)
    from object_relation.entries_kept_trans[OF rel h1 handleReference_entries[OF rel key this good[OF disjI2]]] show ?thesis .
  next
    case (Some er)
    then show ?thesis using run h h1 by (simp add: handleReferencedObjects_def)
  qed
qed

end

end
