(* ===== verification/Channel_Reconcile.thy ===== *)
theory Channel_Reconcile
  imports Channel_Rbac Referred_Entries
begin

text \<open>
  \<open>pkg/controller/channel/channel_controller.go\<close>, \<open>Reconcile\<close>: the order of the steps, the
  early returns and the requeue interval.
\<close>

text \<open>One minute, in nanoseconds.\<close>

definition requeuAfter :: int where
  "requeuAfter = 1 * (60 * 1000000000)"

section \<open>Reconcile\<close>

record ReconcileResult =
  RequeueAfter :: int

definition Reconcile ::
  "'w Env \<Rightarrow> NamespacedName \<Rightarrow> 'w \<Rightarrow> (ReconcileResult \<times> go_error option) \<times> 'w" where
  "Reconcile e request w =
     (let requeue = \<lparr>RequeueAfter = requeuAfter\<rparr>
      in case kGet (channels e) request w of
        (Inl er, w) \<Rightarrow>
          if er = NotFound then
            (case syncReferredObjAnnotationLabel e request None srtGvk w of
               (Some er, w) \<Rightarrow> ((requeue, Some er), w)
             | (None, w) \<Rightarrow>
                 (case syncReferredObjAnnotationLabel e request None cmGvk w of
                    (Some er, w) \<Rightarrow> ((requeue, Some er), w)
                  | (None, w) \<Rightarrow> ((requeue, None), w)))
          else ((requeue, Some (ApiError er)), w)
      | (Inr inst, w) \<Rightarrow>
          if strings_EqualFold (spType (chSpec inst)) ChannelTypeNamespace \<and> Pathname (chSpec inst) \<noteq> chNamespace inst then
            (case kUpdate (channels e) (inst\<lparr>chSpec := (chSpec inst)\<lparr>Pathname := chNamespace inst\<rparr>\<rparr>) w of
               (Inl er, w) \<Rightarrow> ((requeue, Some (ApiError er)), w)
             | (Inr _, w) \<Rightarrow> ((requeue, None), w))
          else
            (case FindMultiClusterHubNS e w of
               (mchNamespace, w) \<Rightarrow>
                 (case validateClusterRBAC e inst mchNamespace w of
                    (Some er, w) \<Rightarrow> ((requeue, Some er), w)
                  | (None, w) \<Rightarrow>
                      (case handleReferencedObjects e inst request w of
                         (Some er, w) \<Rightarrow> ((requeue, Some er), w)
                       | (None, w) \<Rightarrow>
                           (case cleanRoleFromAcmNS e inst mchNamespace w of
                              (Some er, w) \<Rightarrow> ((requeue, Some er), w)
                            | (None, w) \<Rightarrow> ((requeue, None), w))))))"

section \<open>What a reconcile may change\<close>

text \<open>Labels and annotations of the objects in \<open>A\<close>, kind by kind, and nothing else.\<close>

definition marked_only :: "(GroupVersionKind \<Rightarrow> NamespacedName set) \<Rightarrow> cluster \<Rightarrow> cluster \<Rightarrow> bool" where
  "marked_only A c c' \<longleftrightarrow> rest_of c' = rest_of c \<and> clChannels c' = clChannels c \<and> clRoles c' = clRoles c \<and>
     clRoleBindings c' = clRoleBindings c \<and> (\<forall>g. marks_step (A g) (clDataObjects c g) (clDataObjects c' g))"

lemma gvk_distinct [simp]: "srtGvk \<noteq> cmGvk" "cmGvk \<noteq> srtGvk"
  by (simp_all add: srtGvk_def cmGvk_def)

lemma data_step_same:
  assumes "data_step g A c c'"
  shows "rest_of c' = rest_of c" "clChannels c' = clChannels c" "clRoles c' = clRoles c" "clRoleBindings c' = clRoleBindings c"
proof -
  have eq: "c' = data_upd g (\<lambda>_. clDataObjects c' g) c" using assms by (simp add: data_step_def)
  show "rest_of c' = rest_of c" "clChannels c' = clChannels c" "clRoles c' = clRoles c" "clRoleBindings c' = clRoleBindings c"
    by (subst eq, simp)+
qed

lemma data_steps_marked:
  assumes s: "data_step srtGvk (A srtGvk) c c1" and m: "data_step cmGvk (A cmGvk) c1 c'"
  shows "marked_only A c c'"
proof -
  have "clDataObjects c1 cmGvk = clDataObjects c cmGvk" "clDataObjects c' srtGvk = clDataObjects c1 srtGvk"
    using data_step_frame(2) [OF s] data_step_frame(2) [OF m] by simp_all
  moreover have "clDataObjects c' g = clDataObjects c g" if "g \<noteq> srtGvk" "g \<noteq> cmGvk" for g
    using data_step_frame(2) [OF s] data_step_frame(2) [OF m] that by simp
  ultimately have "marks_step (A g) (clDataObjects c g) (clDataObjects c' g)" for g
    using data_step_here [OF s] data_step_here [OF m] by (cases "g = srtGvk \<or> g = cmGvk") auto
  then show ?thesis
    unfolding marked_only_def using data_step_same [OF s] data_step_same [OF m] by simp
qed

text \<open>
  The objects a reconcile of \<open>rq\<close> may mark: those that carry the serving label, and those the
  channel refers to in its own namespace.
\<close>

definition markable :: "NamespacedName \<Rightarrow> cluster \<Rightarrow> GroupVersionKind \<Rightarrow> NamespacedName set" where
  "markable rq c g =
     (if g = srtGvk \<or> g = cmGvk then labelled_keys (clDataObjects c g) \<union>
        {nskey (nnNamespace rq) (refName rf) | rf ch. clChannels c rq = Some ch \<and>
           (if g = srtGvk then SecretRef (chSpec ch) else ConfigMapRef (chSpec ch)) = Some rf}
      else {})"

text \<open>
  The whole footprint: the channel, role and binding of the request's own key, and marks on the
  objects above.
\<close>

definition confined :: "NamespacedName \<Rightarrow> cluster \<Rightarrow> cluster \<Rightarrow> bool" where
  "confined rq c c' \<longleftrightarrow> rest_of c' = rest_of c \<and>
     (\<forall>k. k \<noteq> rq \<longrightarrow> clChannels c' k = clChannels c k \<and> clRoles c' k = clRoles c k \<and> clRoleBindings c' k = clRoleBindings c k) \<and>
     (\<forall>g. marks_step (markable rq c g) (clDataObjects c g) (clDataObjects c' g))"

lemma confined_refl [simp]: "confined rq c c"
  by (simp add: confined_def)

lemma marked_only_confined:
  assumes "marked_only A c c'" and "\<And>g. A g \<subseteq> markable rq c g"
  shows "confined rq c c'"
  using assms by (auto simp: marked_only_def confined_def intro: marks_step_mono)

section \<open>The steps of one reconcile\<close>

text \<open>The three ways a reconcile can go, by what the first Get answers.\<close>

definition path_fix :: "Channel \<Rightarrow> bool" where
  "path_fix ch \<longleftrightarrow> strings_EqualFold (spType (chSpec ch)) ChannelTypeNamespace \<and> Pathname (chSpec ch) \<noteq> chNamespace ch"

definition fixed_path :: "Channel \<Rightarrow> Channel" where
  "fixed_path ch = ch\<lparr>chSpec := (chSpec ch)\<lparr>Pathname := chNamespace ch\<rparr>\<rparr>"

lemma fixed_path_key [simp]: "chMeta (fixed_path ch) = chMeta ch"
  by (simp add: fixed_path_def)

lemma Reconcile_requeue: "RequeueAfter (fst (fst (Reconcile e rq w))) = requeuAfter"
  unfolding Reconcile_def Let_def
  by (simp split: prod.splits sum.splits option.splits if_splits)

context kube_api
begin

lemma channel_there:
  assumes "kGet (channels e) rq w = (Inr ch, w1)"
  shows "st w1 = st w" "clChannels (st w) rq = Some ch" "chKey ch = rq" "chNamespace ch = nnNamespace rq"
  using chn.get_st [OF assms] chn.get_ok [OF assms] chn.keyed [OF chn.get_ok [OF assms]]
  by (auto simp: key_of_meta_def)

lemma Reconcile_missing:
  assumes run: "Reconcile e rq w = ((res, r), w')" and get: "kGet (channels e) rq w = (Inl er, w1)"
    and key: "serving_key (nnString e rq)"
  shows "marked_only (\<lambda>g. if g = srtGvk \<or> g = cmGvk then labelled_keys (clDataObjects (st w) g) else {}) (st w) (st w')"
proof (cases "er = NotFound")
  case True
  obtain r1 w2 where s: "syncReferredObjAnnotationLabel e rq None srtGvk w1 = (r1, w2)" by fastforce
  obtain r2 w3 where m: "syncReferredObjAnnotationLabel e rq None cmGvk w2 = (r2, w3)" by fastforce
  note st1 = chn.get_st [OF get]
  note s1 = sync_effect(1) [OF s key data_live_never, unfolded st1]
  have cm: "clDataObjects (st w2) cmGvk = clDataObjects (st w) cmGvk" by (rule data_step_frame(2) [OF s1]) simp
  note s2 = sync_effect(1) [OF m key data_live_never, unfolded cm]
  have "st w' = st w2 \<or> st w' = st w3" using run get s m True by (auto simp: Reconcile_def Let_def split: option.splits)
  then have "data_step cmGvk (labelled_keys (clDataObjects (st w) cmGvk)) (st w2) (st w')" using s2 by auto
  with s1 show ?thesis by (intro data_steps_marked [of _ "st w" "st w2"]) simp_all
next
  case False
  then have "w' = w1" using run get by (simp add: Reconcile_def Let_def)
  then show ?thesis using chn.get_st [OF get] by (simp add: marked_only_def)
qed

lemma Reconcile_path_eq:
  assumes "kGet (channels e) rq w = (Inr ch, w1)" and "path_fix ch"
  shows "Reconcile e rq w = (case kUpdate (channels e) (fixed_path ch) w1 of
      (Inl er, w) \<Rightarrow> ((\<lparr>RequeueAfter = requeuAfter\<rparr>, Some (ApiError er)), w)
    | (Inr _, w) \<Rightarrow> ((\<lparr>RequeueAfter = requeuAfter\<rparr>, None), w))"
  using assms(2) by (simp add: Reconcile_def Let_def assms(1) path_fix_def fixed_path_def)

lemma Reconcile_path:
  assumes run: "Reconcile e rq w = ((res, r), w')" and get: "kGet (channels e) rq w = (Inr ch, w1)"
    and path: "path_fix ch"
  shows "st w' = st w \<or> st w' = clChannels_update (\<lambda>m. m(rq \<mapsto> fixed_path ch)) (st w)"
    and "r = None \<Longrightarrow> clChannels (st w') rq = Some (fixed_path ch)"
proof -
  obtain x w2 where u: "kUpdate (channels e) (fixed_path ch) w1 = (x, w2)" by fastforce
  note t = channel_there [OF get]
  have run': "w' = w2" "r = None \<longrightarrow> (\<exists>y. x = Inr y)"
    using run unfolding Reconcile_path_eq [OF get path] u prod.case by (simp_all split: sum.splits) auto
  show "st w' = st w \<or> st w' = clChannels_update (\<lambda>m. m(rq \<mapsto> fixed_path ch)) (st w)"
    using chn.update_touches [OF u] t run' by auto
  show "r = None \<Longrightarrow> clChannels (st w') rq = Some (fixed_path ch)"
  proof -
    assume "r = None"
    then obtain y where "x = Inr y" using run'(2) by blast
    then have "st w2 = clChannels_update (\<lambda>m. m(rq \<mapsto> fixed_path ch)) (st w)"
      using chn.update_ok [of "fixed_path ch" w1 y w2] u t by simp
    then show ?thesis using run'(1) by simp
  qed
qed

text \<open>The main path: RBAC, then the referenced objects, then the clean-up; each may be the last.\<close>

lemma Reconcile_main:
  assumes run: "Reconcile e rq w = ((res, r), w')" and get: "kGet (channels e) rq w = (Inr ch, w1)"
    and path: "\<not> path_fix ch" and key: "serving_key (nnString e rq)"
  shows "\<exists>c1 c2. rbac_step ch (st w) c1 \<and> marked_only (markable rq (st w)) c1 c2 \<and> clean_step rq c2 (st w') \<and>
    (c1 = c2 \<or> (\<exists>w3 r4 w4. handleReferencedObjects e ch rq w3 = (r4, w4) \<and> c1 = st w3 \<and> c2 = st w4))"
proof -
  note t = channel_there [OF get]
  obtain mch w2 where hub: "FindMultiClusterHubNS e w1 = (mch, w2)" by fastforce
  obtain r3 w3 where v: "validateClusterRBAC e ch mch w2 = (r3, w3)" by fastforce
  obtain r4 w4 where h: "handleReferencedObjects e ch rq w3 = (r4, w4)" by fastforce
  obtain r5 w5 where c: "cleanRoleFromAcmNS e ch mch w4 = (r5, w5)" by fastforce
  have run': "w' = w3 \<or> w' = w4 \<or> w' = w5"
    using run get path hub v h c by (auto simp: Reconcile_def Let_def path_fix_def split: option.splits)
  have rb: "rbac_step ch (st w) (st w3)"
    using validateClusterRBAC_step [OF v] validateClusterRBAC_same [of ch mch w2] v hub_st [OF hub] t(1)
    by (cases "chNamespace ch = mch") auto
  have ma: "marked_only (markable rq (st w)) (st w3) (st w4)"
  proof -
    note d = rbac_step_frame(3) [OF rb]
    obtain c1 where "data_step srtGvk (markable rq (st w) srtGvk) (st w3) c1" "data_step cmGvk (markable rq (st w) cmGvk) c1 (st w4)"
      using handleReferenced_frame [OF h key] t by (auto simp: markable_def d)
    then show ?thesis by (rule data_steps_marked)
  qed
  have cl: "clean_step rq (st w4) (st w5)" using cleanRole_step [OF c] t by simp
  have refl: "clean_step rq x x" "marked_only (markable rq (st w)) x x" for x
    by (auto simp: clean_step_def marked_only_def)
  from run' show ?thesis using rb ma cl h refl by metis
qed

lemma Reconcile_confined:
  assumes run: "Reconcile e rq w = ((res, r), w')" and key: "serving_key (nnString e rq)"
  shows "confined rq (st w) (st w')"
proof -
  obtain x w1 where get: "kGet (channels e) rq w = (x, w1)" by fastforce
  consider (missing) er where "x = Inl er" | (path) ch where "x = Inr ch" "path_fix ch" | (main) ch where "x = Inr ch" "\<not> path_fix ch"
    by (cases x) auto
  then show ?thesis
  proof cases
    case missing
    with Reconcile_missing [OF run _ key] get show ?thesis
      by (intro marked_only_confined) (auto simp: markable_def)
  next
    case path
    with Reconcile_path(1) [OF run _ path(2)] get show ?thesis by (auto simp: confined_def)
  next
    case main
    then obtain c1 c2 where s: "rbac_step ch (st w) c1" "marked_only (markable rq (st w)) c1 c2" "clean_step rq c2 (st w')"
      using Reconcile_main [OF run _ _ key] get by blast
    have "chKey ch = rq" using channel_there get main by blast
    with rbac_step_frame [OF s(1)] clean_step_frame [OF s(3)] s(2) show ?thesis
      by (auto simp: confined_def marked_only_def)
  qed
qed

end

text \<open>
  Whatever fails, a reconcile keeps every object relation that its updates keep; a channel that
  is gone counts as one without references.
\<close>

context kube_api
begin

lemma Reconcile_object_relation:
  assumes rel: "object_relation R (nnString e rq) good" and run: "Reconcile e rq w = ((res, r), w')"
    and key: "serving_key (nnString e rq)"
    and good: "clChannels (st w) rq = None \<Longrightarrow> good None"
      "\<And>ch rf. clChannels (st w) rq = Some ch \<Longrightarrow> SecretRef (chSpec ch) = Some rf \<or> ConfigMapRef (chSpec ch) = Some rf \<Longrightarrow>
        good (Some (rf\<lparr>refNamespace := chNamespace ch\<rparr>))"
  shows "entries_kept R (st w) (st w')"
proof -
  obtain x w1 where get: "kGet (channels e) rq w = (x, w1)" by fastforce
  note st1 = chn.get_st [OF get]
  note same = object_relation.entries_kept_same [OF rel] and trans = object_relation.entries_kept_trans [OF rel]
  consider (gone) "x = Inl NotFound" | (err) er where "x = Inl er" "er \<noteq> NotFound" |
      (path) ch where "x = Inr ch" "path_fix ch" | (main) ch where "x = Inr ch" "\<not> path_fix ch"
    by (cases x) auto
  then show ?thesis
  proof cases
    case gone
    obtain r1 w2 where s: "syncReferredObjAnnotationLabel e rq None srtGvk w1 = (r1, w2)" by fastforce
    obtain r2 w3 where m: "syncReferredObjAnnotationLabel e rq None cmGvk w2 = (r2, w3)" by fastforce
    have none: "good None" using good(1) chn.get_nf [of rq w w1] get gone by simp
    have "w' = w2 \<or> w' = w3" using run get gone s m by (auto simp: Reconcile_def Let_def split: option.splits)
    then show ?thesis
      using sync_entries [OF rel key s none] trans [OF sync_entries [OF rel key s none] sync_entries [OF rel key m none]] st1 by auto
  next
    case err
    then have "w' = w1" using run get by (simp add: Reconcile_def Let_def)
    then show ?thesis using st1 by (simp add: same)
  next
    case path
    with Reconcile_path(1) [OF run _ path(2)] get show ?thesis by (auto simp: same)
  next
    case main
    then obtain c1 c2 where s: "rbac_step ch (st w) c1" "clean_step rq c2 (st w')"
        "c1 = c2 \<or> (\<exists>w3 r4 w4. handleReferencedObjects e ch rq w3 = (r4, w4) \<and> c1 = st w3 \<and> c2 = st w4)"
      using Reconcile_main [OF run _ _ key] get by blast
    have "clChannels (st w) rq = Some ch" using channel_there(2) get main by blast
    then have "entries_kept R c1 c2"
      using s(3) same [of c2 c1] handleReferenced_entries [OF rel key _ good(2)] by blast
    from trans [OF trans [OF same [OF rbac_step_frame(3) [OF s(1)]] this] same [OF clean_step_frame(3) [OF s(2)]]]
    show ?thesis .
  qed
qed

lemma Reconcile_entries:
  "Reconcile e rq w = ((res, r), w') \<Longrightarrow> serving_key (nnString e rq) \<Longrightarrow>
   entries_kept (entry_kept (nnString e rq)) (st w) (st w')"
  by (rule Reconcile_object_relation [OF others_entries.object_relation_axioms]) simp_all

end

text \<open>The channel exists and names the objects it refers to.\<close>

definition named_refs :: "Channel \<Rightarrow> bool" where
  "named_refs ch \<longleftrightarrow> chNamespace ch \<noteq> [] \<and>
     (\<forall>rf. SecretRef (chSpec ch) = Some rf \<or> ConfigMapRef (chSpec ch) = Some rf \<longrightarrow> refName rf \<noteq> [])"

context kube_api
begin

lemma Reconcile_own_entries:
  assumes "Reconcile e rq w = ((res, r), w')" and "serving_key (nnString e rq)"
    and "clChannels (st w) rq = Some ch" and "named_refs ch"
  shows "entries_kept (own_entry_kept (nnString e rq)) (st w) (st w')"
  using assms(3,4)
  by (intro Reconcile_object_relation [OF own_entries.object_relation_axioms assms(1,2)])
    (auto simp: named_refs_def usable_def)

end

text \<open>Whatever fails, a role or binding is only ever replaced by the wanted one or removed.\<close>

lemma rbac_step_values:
  assumes "rbac_step ch c c'"
  shows "clRoles c' (chKey ch) = clRoles c (chKey ch) \<or> role_synced ch c'"
    and "clRoleBindings c' (chKey ch) = clRoleBindings c (chKey ch) \<or> binding_synced ch c'"
  using assms
  by (auto simp: rbac_step_def role_step_def binding_step_def role_synced_def binding_synced_def)

lemma clean_step_values:
  assumes "clean_step k c c'"
  shows "clRoles c' k = clRoles c k \<or> clRoles c' k = None"
    and "clRoleBindings c' k = clRoleBindings c k \<or> clRoleBindings c' k = None"
  using assms by (auto simp: clean_step_def)

context kube_api
begin

lemma Reconcile_role_safe:
  assumes run: "Reconcile e rq w = ((res, r), w')" and key: "serving_key (nnString e rq)"
  shows "clRoles (st w') rq = clRoles (st w) rq \<or> clRoles (st w') rq = None \<or>
    (\<exists>ch role. clChannels (st w) rq = Some ch \<and> clRoles (st w') rq = Some role \<and> roleRules role = buildChannelRoleRules ch)"
proof -
  obtain x w1 where get: "kGet (channels e) rq w = (x, w1)" by fastforce
  consider (missing) er where "x = Inl er" | (path) ch where "x = Inr ch" "path_fix ch" | (main) ch where "x = Inr ch" "\<not> path_fix ch"
    by (cases x) auto
  then show ?thesis
  proof cases
    case missing
    with Reconcile_missing [OF run _ key] get show ?thesis by (auto simp: marked_only_def)
  next
    case path
    with Reconcile_path(1) [OF run _ path(2)] get show ?thesis by auto
  next
    case main
    then obtain c1 c2 where s: "rbac_step ch (st w) c1" "marked_only (markable rq (st w)) c1 c2" "clean_step rq c2 (st w')"
      using Reconcile_main [OF run _ _ key] get by blast
    have "chKey ch = rq" "clChannels (st w) rq = Some ch" using channel_there get main by blast+
    with rbac_step_values(1) [OF s(1)] clean_step_values(1) [OF s(3)] s(2) show ?thesis
      by (auto simp: marked_only_def role_synced_def)
  qed
qed

end

section \<open>Reconciling without faults\<close>

text \<open>Everything one successful reconcile needs of a channel.\<close>

definition ready :: "'w Env \<Rightarrow> Channel \<Rightarrow> cluster \<Rightarrow> bool" where
  "ready e ch c \<longleftrightarrow> chNamespace ch \<noteq> [] \<and> adoptable e ch c \<and>
     ref_there c srtGvk (chNamespace ch) (SecretRef (chSpec ch)) \<and>
     ref_there c cmGvk (chNamespace ch) (ConfigMapRef (chSpec ch))"

text \<open>Both referenced objects carry the channel afterwards.\<close>

definition refs_marked :: "string \<Rightarrow> Channel \<Rightarrow> cluster \<Rightarrow> cluster \<Rightarrow> bool" where
  "refs_marked key ch c c' \<longleftrightarrow>
     ref_marked key c c' srtGvk (chNamespace ch) (SecretRef (chSpec ch)) \<and>
     ref_marked key c c' cmGvk (chNamespace ch) (ConfigMapRef (chSpec ch))"

lemma marked_only_synced:
  assumes "marked_only A c c'"
  shows "role_synced ch c' = role_synced ch c" and "binding_synced ch c' = binding_synced ch c"
  using assms by (auto simp: marked_only_def role_synced_def binding_synced_def binding_for_def wanted_subjects_def rest_of_def)

lemma data_eq_marks:
  assumes "clDataObjects c1 = clDataObjects c"
  shows "ref_there c1 = ref_there c" and "ref_marked key c1 = ref_marked key c" and "ref_marked key c' c1 = ref_marked key c' c"
  using assms by (simp_all add: ref_there_def ref_marked_def fun_eq_iff)

lemma fixed_path_fixed: "\<not> path_fix (fixed_path ch)"
  by (simp add: path_fix_def fixed_path_def)

context kube_api_calm
begin

lemma get_channel_calm:
  assumes "calm w"
  shows "\<exists>w1. calm w1 \<and> st w1 = st w \<and>
    kGet (channels e) rq w = (case clChannels (st w) rq of None \<Rightarrow> Inl NotFound | Some ch \<Rightarrow> Inr ch, w1)"
  using chn.calm_get [OF assms] chn.get_st by blast

lemma Reconcile_main_eq:
  assumes "kGet (channels e) rq w = (Inr ch, w1)" and "\<not> path_fix ch"
    and "FindMultiClusterHubNS e w1 = (mch, w2)" and "validateClusterRBAC e ch mch w2 = (None, w3)"
    and "handleReferencedObjects e ch rq w3 = (None, w4)" and "cleanRoleFromAcmNS e ch mch w4 = (None, w5)"
  shows "Reconcile e rq w = ((\<lparr>RequeueAfter = requeuAfter\<rparr>, None), w5)"
  using assms by (auto simp: Reconcile_def Let_def path_fix_def)

lemma Reconcile_calm_main:
  assumes calm: "calm w" and ch: "clChannels (st w) rq = Some ch" and path: "\<not> path_fix ch"
    and key: "serving_key (nnString e rq)" and ready: "ready e ch (st w)"
  shows "\<exists>w'. calm w' \<and> Reconcile e rq w = ((\<lparr>RequeueAfter = requeuAfter\<rparr>, None), w') \<and>
    refs_marked (nnString e rq) ch (st w) (st w') \<and>
    (if nnNamespace rq = hub_namespace (st w)
     then clRoles (st w') rq = None \<and> clRoleBindings (st w') rq = None
     else role_synced ch (st w') \<and> binding_synced ch (st w'))"
proof -
  obtain w1 where w1: "calm w1" "st w1 = st w" "kGet (channels e) rq w = (Inr ch, w1)"
    using get_channel_calm [OF calm, of rq] ch by auto
  note t = channel_there [OF w1(3)]
  obtain w2 where w2: "calm w2" "st w2 = st w" "FindMultiClusterHubNS e w1 = (hub_namespace (st w), w2)"
    using hub_calm [OF w1(1)] w1(2) by auto
  have adopt: "adoptable e ch (st w2)" using ready w2(2) by (simp add: ready_def)
  have "\<exists>w3. calm w3 \<and> validateClusterRBAC e ch (hub_namespace (st w)) w2 = (None, w3) \<and> rbac_step ch (st w2) (st w3) \<and>
      (nnNamespace rq \<noteq> hub_namespace (st w) \<longrightarrow> role_synced ch (st w3) \<and> binding_synced ch (st w3))"
    using validateClusterRBAC_calm [OF w2(1) adopt] validateClusterRBAC_same [of ch _ w2] w2(1) t(4)
    by (cases "nnNamespace rq = hub_namespace (st w)") auto
  then obtain w3 where w3: "calm w3" "validateClusterRBAC e ch (hub_namespace (st w)) w2 = (None, w3)" "rbac_step ch (st w) (st w3)"
      "nnNamespace rq \<noteq> hub_namespace (st w) \<longrightarrow> role_synced ch (st w3) \<and> binding_synced ch (st w3)"
    using w2(2) by auto
  note d3 = data_eq_marks [OF rbac_step_frame(3) [OF w3(3)]]
  obtain w4 where w4: "calm w4" "handleReferencedObjects e ch rq w3 = (None, w4)" "refs_marked (nnString e rq) ch (st w) (st w4)"
    using handleReferenced_calm [OF w3(1) key, of ch] ready by (auto simp: ready_def refs_marked_def d3)
  obtain c1 where "data_step srtGvk (markable rq (st w3) srtGvk) (st w3) c1" "data_step cmGvk (markable rq (st w3) cmGvk) c1 (st w4)"
    using handleReferenced_frame [OF w4(2) key] t rbac_step_frame(2) [OF w3(3)] by (auto simp: markable_def)
  note m4 = marked_only_synced [OF data_steps_marked [OF this]]
  show ?thesis
  proof (cases "nnNamespace rq = hub_namespace (st w)")
    case True
    then obtain w5 where w5: "calm w5" "cleanRoleFromAcmNS e ch (hub_namespace (st w)) w4 = (None, w5)"
      "st w5 = (st w4)\<lparr>clRoles := (clRoles (st w4))(rq := None), clRoleBindings := (clRoleBindings (st w4))(rq := None)\<rparr>"
      using cleanRole_calm [OF w4(1), of ch] t by auto
    have d5: "clDataObjects (st w5) = clDataObjects (st w4)" by (simp add: w5(3))
    have "refs_marked (nnString e rq) ch (st w) (st w5)"
      using w4(3) unfolding refs_marked_def data_eq_marks(3) [OF d5] .
    moreover have "clRoles (st w5) rq = None" "clRoleBindings (st w5) rq = None" by (simp_all add: w5(3))
    ultimately show ?thesis using Reconcile_main_eq [OF w1(3) path w2(3) w3(2) w4(2) w5(2)] w5(1) True by simp
  next
    case False
    then have "cleanRoleFromAcmNS e ch (hub_namespace (st w)) w4 = (None, w4)" using cleanRole_other t by simp
    from Reconcile_main_eq [OF w1(3) path w2(3) w3(2) w4(2) this] w4 w3(4) False m4 show ?thesis by auto
  qed
qed

lemma Reconcile_calm_path:
  assumes calm: "calm w" and ch: "clChannels (st w) rq = Some ch" and path: "path_fix ch"
  shows "\<exists>w'. calm w' \<and> Reconcile e rq w = ((\<lparr>RequeueAfter = requeuAfter\<rparr>, None), w') \<and>
    st w' = clChannels_update (\<lambda>m. m(rq \<mapsto> fixed_path ch)) (st w)"
proof -
  obtain w1 where w1: "calm w1" "st w1 = st w" "kGet (channels e) rq w = (Inr ch, w1)"
    using get_channel_calm [OF calm, of rq] ch by auto
  note t = channel_there [OF w1(3)]
  obtain x w2 where w2: "calm w2" "kUpdate (channels e) (fixed_path ch) w1 = (Inr x, w2)"
    using chn.calm_update [OF w1(1) _ any_update_True, of "fixed_path ch" ch] ch w1(2) t(3) by auto
  with chn.update_ok [OF w2(2)] w1(2) t(3) Reconcile_path_eq [OF w1(3) path] show ?thesis by auto
qed

lemma Reconcile_calm_deleted:
  assumes calm: "calm w" and gone: "clChannels (st w) rq = None" and key: "serving_key (nnString e rq)"
  shows "\<exists>w'. calm w' \<and> Reconcile e rq w = ((\<lparr>RequeueAfter = requeuAfter\<rparr>, None), w') \<and>
    (\<forall>g k ob. g = srtGvk \<or> g = cmGvk \<longrightarrow> clDataObjects (st w) g k = Some ob \<longrightarrow> serving_labelled ob \<longrightarrow>
      (\<exists>ob'. clDataObjects (st w') g k = Some ob' \<and> same_but_marks ob ob' \<and>
        served (serving_annotation ob') = served (serving_annotation ob) - {nnString e rq}))"
proof -
  obtain w1 where w1: "calm w1" "st w1 = st w" "kGet (channels e) rq w = (Inl NotFound, w1)"
    using get_channel_calm [OF calm, of rq] gone by auto
  obtain r2 w2 where s: "syncReferredObjAnnotationLabel e rq None srtGvk w1 = (r2, w2)" by fastforce
  obtain r3 w3 where m: "syncReferredObjAnnotationLabel e rq None cmGvk w2 = (r3, w3)" by fastforce
  note s2 = sync_effect(2) [OF s key data_live_calm w1(1)]
  have c2: "calm w2" using s2 by blast
  note m2 = sync_effect(2) [OF m key data_live_calm c2]
  have cm: "clDataObjects (st w2) cmGvk = clDataObjects (st w) cmGvk" and sr: "clDataObjects (st w3) srtGvk = clDataObjects (st w2) srtGvk"
    using data_step_frame(2) [OF sync_effect(1) [OF s key data_live_calm]]
      data_step_frame(2) [OF sync_effect(1) [OF m key data_live_calm]] w1(2) by simp_all
  have off: "same_but_marks ob ob' \<and> served (serving_annotation ob') = served (serving_annotation ob) - {nnString e rq}"
    if "synced_by (nnString e rq) None ob ob'" for ob ob'
    using that annotateObject_marks by (auto simp: synced_by_def serving_after_def targeted_def usable_def)
  have synced: "\<exists>ob'. clDataObjects (st w3) g k = Some ob' \<and> synced_by (nnString e rq) None ob ob'"
    if "g = srtGvk \<or> g = cmGvk" "clDataObjects (st w) g k = Some ob" "serving_labelled ob" for g k ob
    using that(1)
  proof
    assume "g = srtGvk"
    then show ?thesis using s2 that(2,3) unfolding w1(2) by (simp only: sr)
  next
    assume "g = cmGvk"
    then show ?thesis using m2 that(2,3) by (simp only: cm)
  qed
  have "Reconcile e rq w = ((\<lparr>RequeueAfter = requeuAfter\<rparr>, None), w3)"
    using w1(3) s m s2 m2 by (simp add: Reconcile_def Let_def)
  moreover have "calm w3" using m2 by blast
  moreover have "\<exists>ob'. clDataObjects (st w3) g k = Some ob' \<and> same_but_marks ob ob' \<and>
      served (serving_annotation ob') = served (serving_annotation ob) - {nnString e rq}"
    if "g = srtGvk \<or> g = cmGvk" "clDataObjects (st w) g k = Some ob" "serving_labelled ob" for g k ob
    using synced [OF that] off by blast
  ultimately show ?thesis by (intro exI [of _ w3] conjI allI impI)
qed

end

end
