(* ===== verification/Channel_Sweep.thy ===== *)
theory Channel_Sweep
  imports Channel_Reconcile
begin

text \<open>
  How the reconciles of different channels interact: \<open>settled\<close> is what one channel wants of the
  cluster, a reconcile of another channel keeps it (\<open>settled_other\<close>), and so the controller, which
  reconciles one key after the other (\<open>sweep\<close>), settles all channels.
\<close>

section \<open>What a channel wants\<close>

definition entry_there ::
  "string \<Rightarrow> cluster \<Rightarrow> GroupVersionKind \<Rightarrow> string \<Rightarrow> ObjectReference option \<Rightarrow> bool" where
  "entry_there key c g ns ref \<longleftrightarrow> (\<forall>rf. ref = Some rf \<longrightarrow>
     (\<exists>ob. clDataObjects c g (nskey ns (refName rf)) = Some ob \<and> serving_labelled ob \<and>
        omLabels (doMeta ob) backupLabel \<noteq> None \<and> key \<in> served (serving_annotation ob)))"

definition settled :: "string \<Rightarrow> Channel \<Rightarrow> cluster \<Rightarrow> bool" where
  "settled key ch c \<longleftrightarrow>
     (if chNamespace ch = hub_namespace c then clRoles c (chKey ch) = None \<and> clRoleBindings c (chKey ch) = None
      else role_synced ch c \<and> binding_synced ch c) \<and>
     entry_there key c srtGvk (chNamespace ch) (SecretRef (chSpec ch)) \<and>
     entry_there key c cmGvk (chNamespace ch) (ConfigMapRef (chSpec ch))"

lemma ref_marked_entry: "ref_marked key c c' g ns ref \<Longrightarrow> entry_there key c' g ns ref"
  unfolding ref_marked_def entry_there_def object_marked_def by blast

lemma entry_there_kept:
  assumes "entries_kept (entry_kept key2) c c'" and "key \<noteq> key2" and "entry_there key c g ns ref"
  shows "entry_there key c' g ns ref"
  unfolding entry_there_def
proof (intro allI impI)
  fix rf
  assume "ref = Some rf"
  then obtain ob where ob: "clDataObjects c g (nskey ns (refName rf)) = Some ob" "serving_labelled ob"
      "omLabels (doMeta ob) backupLabel \<noteq> None" "key \<in> served (serving_annotation ob)"
    using assms(3) unfolding entry_there_def by blast
  obtain ob' where ob': "clDataObjects c' g (nskey ns (refName rf)) = Some ob'" "entry_kept key2 ob ob'"
    using entries_keptD[OF assms(1) ob(1)] by blast
  have "key \<in> served (serving_annotation ob')" "serving_labelled ob'" "omLabels (doMeta ob') backupLabel \<noteq> None"
    using ob'(2) ob(2-4) assms(2) unfolding entry_kept_def by blast+
  then show "\<exists>ob. clDataObjects c' g (nskey ns (refName rf)) = Some ob \<and> serving_labelled ob \<and>
      omLabels (doMeta ob) backupLabel \<noteq> None \<and> key \<in> served (serving_annotation ob)"
    using ob'(1) by blast
qed

lemma rest_of_sel:
  "rest_of c' = rest_of c \<Longrightarrow> hub_namespace c' = hub_namespace c"
  "rest_of c' = rest_of c \<Longrightarrow> wanted_subjects c' = wanted_subjects c"
  by (simp_all add: rest_of_def hub_namespace_def wanted_subjects_def)

text \<open>A reconcile of another key keeps a channel settled.\<close>

lemma settled_other:
  assumes c: "confined rq c c'" and k: "entries_kept (entry_kept key2) c c'" and "chKey ch \<noteq> rq" and "key \<noteq> key2"
    and s: "settled key ch c"
  shows "settled key ch c'"
proof -
  have rest: "rest_of c' = rest_of c" and
    rb: "clRoles c' (chKey ch) = clRoles c (chKey ch)" "clRoleBindings c' (chKey ch) = clRoleBindings c (chKey ch)"
    using c assms(3) by (simp_all add: confined_def)
  have "role_synced ch c' = role_synced ch c" "binding_synced ch c' = binding_synced ch c"
    using rb rest_of_sel[OF rest] by (simp_all add: role_synced_def binding_synced_def binding_for_def)
  then show ?thesis
    using s rb rest_of_sel[OF rest] entry_there_kept[OF k assms(4)] by (simp add: settled_def)
qed

section \<open>One key after the other\<close>

primrec sweep :: "'w Env \<Rightarrow> NamespacedName list \<Rightarrow> 'w \<Rightarrow> go_error option list \<times> 'w" where
  "sweep e [] w = ([], w)"
| "sweep e (rq # rqs) w =
     (case Reconcile e rq w of ((res, r), w) \<Rightarrow> (case sweep e rqs w of (rs, w) \<Rightarrow> (r # rs, w)))"

lemma sweep_append:
  "sweep e (rqs @ rqs') w =
   (case sweep e rqs w of (rs, w) \<Rightarrow> (case sweep e rqs' w of (rs', w) \<Rightarrow> (rs @ rs', w)))"
  by (induction rqs arbitrary: w) (simp_all split: prod.split)

text \<open>What all reconciles of a sweep leave alone.\<close>

definition swept :: "NamespacedName set \<Rightarrow> cluster \<Rightarrow> cluster \<Rightarrow> bool" where
  "swept K c c' \<longleftrightarrow> rest_of c' = rest_of c \<and> clChannels c' = clChannels c \<and>
     (\<forall>k. k \<notin> K \<longrightarrow> clRoles c' k = clRoles c k \<and> clRoleBindings c' k = clRoleBindings c k) \<and>
     (\<forall>g. dom (clDataObjects c' g) = dom (clDataObjects c g))"

lemma swept_refl [simp]: "swept K c c"
  by (simp add: swept_def)

lemma swept_trans: "swept K c c1 \<Longrightarrow> swept K' c1 c' \<Longrightarrow> swept (K \<union> K') c c'"
  by (auto simp: swept_def)

lemma swept_ready:
  assumes s: "swept K c c'" and "chKey ch \<notin> K"
  shows "ready e ch c' = ready e ch c"
proof -
  have "clDataObjects c' g k = None \<longleftrightarrow> clDataObjects c g k = None" for g k
  proof -
    have "dom (clDataObjects c' g) = dom (clDataObjects c g)"
      using s by (simp add: swept_def)
    then show ?thesis by (metis domIff)
  qed
  then show ?thesis
    using assms by (simp add: swept_def ready_def adoptable_def ref_there_def)
qed

context kube_api_calm
begin

lemma Reconcile_settles:
  assumes "calm w" and ch: "clChannels (st w) rq = Some ch" and "\<not> path_fix ch"
    and key: "serving_key (nnString e rq)" and "ready e ch (st w)"
  shows "\<exists>w'. calm w' \<and> Reconcile e rq w = ((\<lparr>RequeueAfter = requeuAfter\<rparr>, None), w') \<and>
    settled (nnString e rq) ch (st w') \<and> swept {rq} (st w) (st w')"
proof -
  obtain w' where w': "calm w'" "Reconcile e rq w = ((\<lparr>RequeueAfter = requeuAfter\<rparr>, None), w')"
      "refs_marked (nnString e rq) ch (st w) (st w')"
      "if nnNamespace rq = hub_namespace (st w)
       then clRoles (st w') rq = None \<and> clRoleBindings (st w') rq = None
       else role_synced ch (st w') \<and> binding_synced ch (st w')"
    using Reconcile_calm_main[OF assms] by blast
  note c = Reconcile_confined[OF w'(2) key]
  have k: "chKey ch = rq" using chn.keyed[OF ch] by simp
  then have ns: "nnNamespace rq = chNamespace ch" by (auto simp: key_of_meta_def)
  obtain w1 where get: "kGet (channels e) rq w = (Inr ch, w1)"
    using get_channel_calm[OF assms(1), of rq] ch by auto
  obtain c1 c2 where s: "rbac_step ch (st w) c1" "marked_only (markable rq (st w)) c1 c2" "clean_step rq c2 (st w')"
    using Reconcile_main[OF w'(2) get assms(3) key] by blast
  have "clChannels (st w') = clChannels (st w)"
    using rbac_step_frame(2)[OF s(1)] clean_step_frame(2)[OF s(3)] s(2) by (simp add: marked_only_def)
  moreover have "dom (clDataObjects (st w') g) = dom (clDataObjects (st w) g)" for g
  proof -
    have "marks_step (markable rq (st w) g) (clDataObjects (st w) g) (clDataObjects (st w') g)"
      using c by (simp add: confined_def)
    then show ?thesis by (rule marks_step_dom)
  qed
  ultimately have sw: "swept {rq} (st w) (st w')"
    using c by (simp add: swept_def confined_def)
  have hub: "hub_namespace (st w') = hub_namespace (st w)"
    using rest_of_sel(1)[of "st w'" "st w"] c by (simp add: confined_def)
  have "settled (nnString e rq) ch (st w')"
    using w'(3,4) unfolding settled_def refs_marked_def hub ns k
    by (intro conjI) (auto intro: ref_marked_entry split: if_splits)
  then show ?thesis using w'(1,2) sw by blast
qed

lemma nnString_inj:
  assumes "nnString e k = nnString e k'" and "CHR ''/'' \<notin> set (nnNamespace k)" and "CHR ''/'' \<notin> set (nnNamespace k')"
  shows "k = k'"
proof -
  have "nnNamespace k = takeWhile (\<lambda>c. c \<noteq> CHR ''/'') (nnString e k)" if "CHR ''/'' \<notin> set (nnNamespace k)" for k
  proof -
    have "\<forall>c\<in>set (nnNamespace k). c \<noteq> CHR ''/''" using that by auto
    then show ?thesis by (simp add: nn_string takeWhile_append2)
  qed
  then have "nnNamespace k = nnNamespace k'" using assms by metis
  moreover then have "nnName k = nnName k'" using assms(1) by (simp add: nn_string)
  ultimately show ?thesis by simp
qed

lemma sweep_calm:
  assumes "calm w" and "distinct rqs"
    and "\<And>rq. rq \<in> set rqs \<Longrightarrow> \<exists>ch. clChannels (st w) rq = Some ch \<and> \<not> path_fix ch \<and> ready e ch (st w)"
    and "\<And>rq. rq \<in> set rqs \<Longrightarrow> serving_key (nnString e rq) \<and> CHR ''/'' \<notin> set (nnNamespace rq)"
  shows "\<exists>w'. calm w' \<and> sweep e rqs w = (replicate (length rqs) None, w') \<and> swept (set rqs) (st w) (st w') \<and>
    (\<forall>rq\<in>set rqs. settled (nnString e rq) (the (clChannels (st w) rq)) (st w'))"
  using assms
proof (induction rqs rule: rev_induct)
  case Nil
  then show ?case by simp
next
  case (snoc rq rqs)
  obtain w1 where w1: "calm w1" "sweep e rqs w = (replicate (length rqs) None, w1)"
      "swept (set rqs) (st w) (st w1)"
      "\<And>k. k \<in> set rqs \<Longrightarrow> settled (nnString e k) (the (clChannels (st w) k)) (st w1)"
    using snoc.IH snoc.prems by fastforce
  obtain ch where ch: "clChannels (st w) rq = Some ch" "\<not> path_fix ch" "ready e ch (st w)"
    using snoc.prems(3)[of rq] by auto
  have key: "serving_key (nnString e rq)" using snoc.prems(4)[of rq] by simp
  have k: "chKey ch = rq" using chn.keyed[OF ch(1)] by simp
  have ch1: "clChannels (st w1) rq = Some ch" using w1(3) ch(1) by (simp add: swept_def)
  have ready1: "ready e ch (st w1)"
    using swept_ready[OF w1(3), of ch e] ch(3) k snoc.prems(2) by simp
  obtain w2 where w2: "calm w2" "Reconcile e rq w1 = ((\<lparr>RequeueAfter = requeuAfter\<rparr>, None), w2)"
      "settled (nnString e rq) ch (st w2)" "swept {rq} (st w1) (st w2)"
    using Reconcile_settles[OF w1(1) ch1 ch(2) key ready1] by blast
  have old: "settled (nnString e j) (the (clChannels (st w) j)) (st w2)" if j: "j \<in> set rqs" for j
  proof (rule settled_other[OF Reconcile_confined[OF w2(2) key] Reconcile_entries[OF w2(2) key] _ _ w1(4)[OF j]])
    have neq: "j \<noteq> rq" using j snoc.prems(2) by auto
    show "nnString e j \<noteq> nnString e rq"
      using nnString_inj[of j rq] neq j snoc.prems(4)[of j] snoc.prems(4)[of rq] by auto
    obtain cj where "clChannels (st w) j = Some cj" using snoc.prems(3)[of j] j by auto
    then show "chKey (the (clChannels (st w) j)) \<noteq> rq" using chn.keyed neq by auto
  qed
  have "sweep e (rqs @ [rq]) w = (replicate (length (rqs @ [rq])) None, w2)"
    by (simp add: sweep_append w1(2) w2(2) replicate_append_same)
  moreover have "swept (set (rqs @ [rq])) (st w) (st w2)"
    using swept_trans[OF w1(3) w2(4)] by simp
  moreover have "\<forall>k\<in>set (rqs @ [rq]). settled (nnString e k) (the (clChannels (st w) k)) (st w2)"
    using old w2(3) ch(1) by auto
  ultimately show ?case using w2(1) by blast
qed

end

end
