(* ===== verification/Channel_Recovery.thy ===== *)
theory Channel_Recovery
  imports Channel_Sweep
begin

text \<open>
  Recovery: reconciles that were cut short anywhere by failing calls leave a cluster from which the
  controller still gets to the wanted state, so that a sweep without faults settles every channel.
\<close>

section \<open>Adopting again\<close>

text \<open>
  \<open>controllerutil.SetControllerReference\<close> fails only on an object that another controller owns:
  it accepts a new object and one whose reference it has set before. Of the owner it reads the
  metadata, not the spec.
\<close>

definition ctrl_ref_stable :: "'w Env \<Rightarrow> bool" where
  "ctrl_ref_stable e \<longleftrightarrow>
     (\<forall>ch m m'. SetControllerReference e ch m = Inr m' \<longrightarrow> (\<exists>m2. SetControllerReference e ch m' = Inr m2)) \<and>
     (\<forall>ch. adopts e ch None) \<and>
     (\<forall>ch ch'. chMeta ch' = chMeta ch \<longrightarrow> chUID ch' = chUID ch \<longrightarrow>
        SetControllerReference e ch' = SetControllerReference e ch)"

lemma ctrl_ref_stableD:
  assumes "ctrl_ref_stable e"
  shows "SetControllerReference e ch m = Inr m' \<Longrightarrow> \<exists>m2. SetControllerReference e ch m' = Inr m2"
    and "adopts e ch None"
    and "chMeta ch' = chMeta ch \<Longrightarrow> chUID ch' = chUID ch \<Longrightarrow> SetControllerReference e ch' = SetControllerReference e ch"
  using assms unfolding ctrl_ref_stable_def by blast+

lemma adopts_again: "ctrl_ref_stable e \<Longrightarrow> SetControllerReference e ch m = Inr m' \<Longrightarrow> adopts e ch (Some m')"
  using ctrl_ref_stableD(1)[of e ch m m'] by (simp add: adopts_def)

lemmas adopts_new = ctrl_ref_stableD(2)

lemma ctrl_ref_fixed_path:
  "ctrl_ref_stable e \<Longrightarrow> SetControllerReference e (fixed_path ch) = SetControllerReference e ch"
  by (rule ctrl_ref_stableD(3)) (simp_all add: fixed_path_def)

lemma mem_ctrl_ref_stable: "ctrl_ref_stable memEnv"
  by (auto simp: ctrl_ref_stable_def adopts_def memEnv_sel mem_ctrl_ref_def plain_meta_def split: if_splits)

text \<open>What may have happened to the role and the binding of a channel.\<close>

lemma adoptable_role:
  assumes "ctrl_ref_stable e" and "adoptable e ch c"
    and "SetControllerReference e ch m = Inr (roleMeta role)" and "c' = clRoles_update (\<lambda>f. f(chKey ch \<mapsto> role)) c"
  shows "adoptable e ch c'"
  using assms adopts_again[OF assms(1,3)] by (simp add: adoptable_def)

lemma adoptable_binding:
  assumes "ctrl_ref_stable e" and "adoptable e ch c"
    and "SetControllerReference e ch m = Inr (rbMeta rb)" and "rbRoleRef rb = channelRoleRef ch"
    and "c' = clRoleBindings_update (\<lambda>f. f(chKey ch \<mapsto> rb)) c"
  shows "adoptable e ch c'"
  using assms adopts_again[OF assms(1,3)] by (simp add: adoptable_def)

lemma adoptable_clean:
  assumes "ctrl_ref_stable e" and "adoptable e ch c" and "clean_step k c c'"
  shows "adoptable e ch c'"
  using assms(2,3) adopts_new[OF assms(1), of ch] by (auto simp: adoptable_def clean_step_def split: if_splits)

lemma adoptable_cong:
  "clRoles c' (chKey ch) = clRoles c (chKey ch) \<Longrightarrow> clRoleBindings c' (chKey ch) = clRoleBindings c (chKey ch) \<Longrightarrow>
   adoptable e ch c' = adoptable e ch c"
  by (simp add: adoptable_def)

section \<open>Every step keeps a channel's objects adoptable\<close>

context kube_api
begin

lemma setupRole_adoptable:
  assumes stable: "ctrl_ref_stable e" and ad: "adoptable e ch (st w)" and run: "setupRole e ch w = (r, w')"
  shows "adoptable e ch (st w')"
proof -
  obtain g w1 where get: "kGet (roles e) (chKey ch) w = (g, w1)" by fastforce
  have st1: "st w1 = st w" using get by (rule rol.get_st)
  note set = adoptable_role[OF stable ad]
  have create: "adoptable e ch (st w2)"
    if "SetControllerReference e ch (plain_meta (chNamespace ch) (chName ch)) = Inr m"
      and "kCreate (roles e) \<lparr>roleMeta = m, roleRules = buildChannelRoleRules ch\<rparr> w1 = (x, w2)" for m x w2
    using rol.create_touches[OF that(2)] that(1) ctrl_ref_key[OF that(1)] ad set by (auto simp: st1 chKey_eq)
  have update: "adoptable e ch (st w2)"
    if "g = Inr role" "SetControllerReference e ch (roleMeta role) = Inr m"
      and "kUpdate (roles e) (role\<lparr>roleMeta := m, roleRules := buildChannelRoleRules ch\<rparr>) w1 = (x, w2)" for role m x w2
    using rol.update_touches[OF that(3)] that(2) ctrl_ref_key[OF that(2)] ad set
      rol.keyed[of w "chKey ch" role] rol.get_ok[of "chKey ch" w role w1] get that(1) by (auto simp: st1)
  show ?thesis
    using run get st1 ad unfolding setupRole_def Let_def chKey_eq
    by (auto split: prod.splits sum.splits if_splits dest: create update)
qed

lemma syncRoleBinding_adoptable:
  assumes stable: "ctrl_ref_stable e" and ad: "adoptable e ch (st w)" and run: "syncRoleBinding e ch cls w = (r, w')"
  shows "adoptable e ch (st w')"
proof -
  obtain g w1 where get: "kGet (roleBindings e) (chKey ch) w = (g, w1)" by fastforce
  have st1: "st w1 = st w" using get by (rule rbd.get_st)
  note set = adoptable_binding[OF stable ad]
  have create: "adoptable e ch (st w2)"
    if "SetControllerReference e ch (plain_meta (chNamespace ch) (chName ch)) = Inr m"
      and "kCreate (roleBindings e) \<lparr>rbMeta = m, rbSubjects = allSubjects cls, rbRoleRef = channelRoleRef ch\<rparr> w1 = (x, w2)" for m x w2
    using rbd.create_touches[OF that(2)] that(1) ctrl_ref_key[OF that(1)] ad set by (auto simp: st1 chKey_eq)
  have update: "adoptable e ch (st w2)"
    if "g = Inr rb" "SetControllerReference e ch (rbMeta rb) = Inr m"
      and "kUpdate (roleBindings e) (rb\<lparr>rbMeta := m, rbSubjects := allSubjects cls, rbRoleRef := channelRoleRef ch\<rparr>) w1 = (x, w2)" for rb m x w2
    using rbd.update_touches[OF that(3)] that(2) ctrl_ref_key[OF that(2)] ad set
      rbd.keyed[of w "chKey ch" rb] rbd.get_ok[of "chKey ch" w rb w1] get that(1) by (auto simp: st1)
  show ?thesis
    using run get st1 ad unfolding syncRoleBinding_def Let_def chKey_eq
    by (auto split: prod.splits sum.splits if_splits dest: create update)
qed

lemma validateClusterRBAC_adoptable:
  assumes stable: "ctrl_ref_stable e" and ad: "adoptable e ch (st w)"
    and run: "validateClusterRBAC e ch mch w = (r, w')"
  shows "adoptable e ch (st w')"
proof (cases "chNamespace ch = mch")
  case True
  then show ?thesis using run ad by (simp add: validateClusterRBAC_def)
next
  case False
  obtain r1 w1 where role: "setupRole e ch w = (r1, w1)" by fastforce
  note ad1 = setupRole_adoptable[OF stable ad role]
  obtain l w2 where list: "kList (managedClusters e) all_objects w1 = (l, w2)" by fastforce
  have st2: "st w2 = st w1" using list by (rule mcl.list_st)
  have sync: "adoptable e ch (st w3)" if "syncRoleBinding e ch cls w2 = (x, w3)" for cls x w3
    using syncRoleBinding_adoptable[OF stable _ that] ad1 st2 by simp
  show ?thesis
    using run False role list st2 ad1 sync unfolding validateClusterRBAC_def
    by (auto split: option.splits sum.splits if_splits)
qed

end

section \<open>The path correction\<close>

text \<open>The channel that the reconciler works with in the end.\<close>

definition correct_path :: "Channel \<Rightarrow> Channel" where
  "correct_path ch = (if path_fix ch then fixed_path ch else ch)"

lemma correct_path_fixed [simp]: "\<not> path_fix (correct_path ch)"
  by (simp add: correct_path_def fixed_path_fixed)

lemma correct_path_meta [simp]: "chMeta (correct_path ch) = chMeta ch"
  by (simp add: correct_path_def)

lemma fixed_path_same:
  "SecretRef (chSpec (fixed_path ch)) = SecretRef (chSpec ch)"
  "ConfigMapRef (chSpec (fixed_path ch)) = ConfigMapRef (chSpec ch)"
  "channelRoleRef (fixed_path ch) = channelRoleRef ch"
  by (simp_all add: fixed_path_def channelRoleRef_def)

lemma correct_path_same:
  "SecretRef (chSpec (correct_path ch)) = SecretRef (chSpec ch)"
  "ConfigMapRef (chSpec (correct_path ch)) = ConfigMapRef (chSpec ch)"
  by (simp_all add: correct_path_def fixed_path_same)

text \<open>The channel of the cluster is still the given one, or that one corrected.\<close>

definition channel_kept :: "Channel \<Rightarrow> NamespacedName \<Rightarrow> cluster \<Rightarrow> bool" where
  "channel_kept ch k c \<longleftrightarrow> clChannels c k = Some ch \<or> clChannels c k = Some (correct_path ch)"

lemma adopts_fixed_path: "ctrl_ref_stable e \<Longrightarrow> adopts e (fixed_path ch) m = adopts e ch m"
  by (cases m) (simp_all add: adopts_def ctrl_ref_fixed_path)

lemma ready_fixed_path: "ctrl_ref_stable e \<Longrightarrow> ready e (fixed_path ch) c = ready e ch c"
  by (simp add: ready_def adoptable_def fixed_path_same adopts_fixed_path)

lemma ready_correct_path: "ctrl_ref_stable e \<Longrightarrow> ready e (correct_path ch) c = ready e ch c"
  by (simp add: correct_path_def ready_fixed_path)

lemma ready_channels [simp]: "ready e ch (clChannels_update f c) = ready e ch c"
  by (simp add: ready_def adoptable_def ref_there_def)

text \<open>The footprint of a reconcile, seen from one channel.\<close>

lemma confined_ready:
  assumes c: "confined rq c c'" and "adoptable e ch c'" and "ready e ch c"
  shows "ready e ch c'"
proof -
  have "dom (clDataObjects c' g) = dom (clDataObjects c g)" for g
  proof -
    have "marks_step (markable rq c g) (clDataObjects c g) (clDataObjects c' g)"
      using c by (simp add: confined_def)
    then show ?thesis by (rule marks_step_dom)
  qed
  then have "clDataObjects c' g j = None \<longleftrightarrow> clDataObjects c g j = None" for g j
    by (metis domIff)
  then show ?thesis using assms(2,3) by (simp add: ready_def ref_there_def)
qed

lemma confined_other:
  assumes c: "confined rq c c'" and k: "chKey ch \<noteq> rq"
  shows "clChannels c' (chKey ch) = clChannels c (chKey ch)" and "ready e ch c \<Longrightarrow> ready e ch c'"
proof -
  show "clChannels c' (chKey ch) = clChannels c (chKey ch)"
    using assms by (simp add: confined_def)
  have "adoptable e ch c' = adoptable e ch c"
    using assms by (intro adoptable_cong) (simp_all add: confined_def)
  then show "ready e ch c'" if "ready e ch c"
    using confined_ready[OF c _ that] that by (simp add: ready_def)
qed

section \<open>A reconcile keeps a channel ready\<close>

context kube_api
begin

lemma Reconcile_own:
  assumes stable: "ctrl_ref_stable e" and run: "Reconcile e rq w = ((res, r), w')" and key: "serving_key (nnString e rq)"
    and ch: "clChannels (st w) rq = Some ch" and path: "\<not> path_fix ch" and ad: "adoptable e ch (st w)"
  shows "clChannels (st w') rq = Some ch \<and> adoptable e ch (st w')"
proof -
  have k: "chKey ch = rq" using chn.keyed[OF ch] by simp
  obtain x w1 where get: "kGet (channels e) rq w = (x, w1)" by fastforce
  note st1 = chn.get_st[OF get]
  show ?thesis
  proof (cases x)
    case (Inl er)
    then have "er \<noteq> NotFound" using get chn.get_nf[of rq w w1] ch by auto
    then have "w' = w1" using run get Inl by (simp add: Reconcile_def Let_def)
    then show ?thesis using st1 ch ad by simp
  next
    case (Inr ch')
    then have get': "kGet (channels e) rq w = (Inr ch, w1)" using get chn.get_ok[of rq w ch' w1] ch by auto
    obtain mch w2 where hub: "FindMultiClusterHubNS e w1 = (mch, w2)" by fastforce
    obtain r3 w3 where v: "validateClusterRBAC e ch mch w2 = (r3, w3)" by fastforce
    obtain r4 w4 where h: "handleReferencedObjects e ch rq w3 = (r4, w4)" by fastforce
    obtain r5 w5 where c: "cleanRoleFromAcmNS e ch mch w4 = (r5, w5)" by fastforce
    have run': "w' = w3 \<or> w' = w4 \<or> w' = w5"
      using run get' path hub v h c by (auto simp: Reconcile_def Let_def path_fix_def split: option.splits)
    have st2: "st w2 = st w" using hub_st[OF hub] st1 by simp
    have a3: "adoptable e ch (st w3)"
      using validateClusterRBAC_adoptable[OF stable _ v] ad st2 by simp
    have c3: "clChannels (st w3) = clChannels (st w)"
      using validateClusterRBAC_step[OF v] validateClusterRBAC_same[of ch mch w2] v st2 rbac_step_frame(2)
      by (cases "chNamespace ch = mch") auto
    obtain c1 where d: "data_step srtGvk (markable rq (st w3) srtGvk) (st w3) c1" "data_step cmGvk (markable rq (st w3) cmGvk) c1 (st w4)"
      using handleReferenced_frame[OF h key] channel_there(4)[OF get'] ch c3 by (auto simp: markable_def)
    note m = data_steps_marked[OF d]
    have a4: "adoptable e ch (st w4)"
      using adoptable_cong[of "st w4" ch "st w3" e] a3 m by (simp add: marked_only_def)
    have cl: "clean_step rq (st w4) (st w5)" using cleanRole_step[OF c] k by simp
    have "clChannels (st w4) rq = Some ch" "clChannels (st w5) rq = Some ch"
      using m c3 ch clean_step_frame(2)[OF cl] by (simp_all add: marked_only_def)
    then show ?thesis
      using run' a3 c3 ch a4 adoptable_clean[OF stable a4 cl] by auto
  qed
qed

lemma Reconcile_keeps_ready:
  assumes stable: "ctrl_ref_stable e" and run: "Reconcile e rq w = (r, w')" and key: "serving_key (nnString e rq)"
    and ch: "clChannels (st w) k = Some ch" and path: "\<not> path_fix ch" and ready: "ready e ch (st w)"
  shows "clChannels (st w') k = Some ch \<and> ready e ch (st w')"
proof -
  obtain res er where r: "r = (res, er)" by fastforce
  note c = Reconcile_confined[OF run[unfolded r] key] and k = chn.keyed[OF ch]
  show ?thesis
  proof (cases "k = rq")
    case True
    have "adoptable e ch (st w)" using ready by (simp add: ready_def)
    with Reconcile_own[OF stable run[unfolded r] key _ path] ch True show ?thesis
      using confined_ready[OF c _ ready] by simp
  next
    case False
    with confined_other[OF c, of ch] k ch ready show ?thesis by simp
  qed
qed

text \<open>A wrong path is left alone or corrected.\<close>

lemma Reconcile_wrong_path:
  assumes run: "Reconcile e rq w = ((res, r), w')" and ch: "clChannels (st w) rq = Some ch" and path: "path_fix ch"
  shows "st w' = st w \<or> st w' = clChannels_update (\<lambda>m. m(rq \<mapsto> fixed_path ch)) (st w)"
proof -
  obtain x w1 where get: "kGet (channels e) rq w = (x, w1)" by fastforce
  show ?thesis
  proof (cases x)
    case (Inl er)
    then have "er \<noteq> NotFound" using get chn.get_nf[of rq w w1] ch by auto
    then have "w' = w1" using run get Inl by (simp add: Reconcile_def Let_def)
    then show ?thesis using chn.get_st[OF get] by simp
  next
    case (Inr ch')
    then have "kGet (channels e) rq w = (Inr ch, w1)" using get chn.get_ok[of rq w ch' w1] ch by auto
    then show ?thesis using Reconcile_path(1)[OF run _ path] by blast
  qed
qed

lemma Reconcile_keeps_channel:
  assumes stable: "ctrl_ref_stable e" and run: "Reconcile e rq w = (r, w')" and key: "serving_key (nnString e rq)"
    and ch: "channel_kept ch k (st w)" and ready: "ready e ch (st w)"
  shows "channel_kept ch k (st w') \<and> ready e ch (st w')"
proof (cases "clChannels (st w) k = Some (correct_path ch)")
  case True
  have "ready e (correct_path ch) (st w)" using ready ready_correct_path[OF stable] by blast
  from Reconcile_keeps_ready[OF stable run key True correct_path_fixed this] show ?thesis
    using ready_correct_path[OF stable] by (simp add: channel_kept_def)
next
  case False
  then have old: "clChannels (st w) k = Some ch" "path_fix ch"
    using ch by (auto simp: channel_kept_def correct_path_def split: if_splits)
  obtain res er where r: "r = (res, er)" by fastforce
  show ?thesis
  proof (cases "k = rq")
    case True
    with Reconcile_wrong_path[OF run[unfolded r] _ old(2)] old ready show ?thesis
      by (auto simp: channel_kept_def correct_path_def)
  next
    case False
    with confined_other[OF Reconcile_confined[OF run[unfolded r] key], of ch] chn.keyed[OF old(1)] old(1) ready
    show ?thesis by (simp add: channel_kept_def)
  qed
qed

end

text \<open>
  A history: reconciles of any keys and users who create, delete and change channels, in any order
  and with any faults. Only the channels of \<open>K\<close> are neither deleted nor changed by users.
\<close>

inductive history ::
  "'w Env \<Rightarrow> NamespacedName set \<Rightarrow> 'w \<Rightarrow> 'w \<Rightarrow> bool" for e K w0 where
  hist_start: "history e K w0 w0"
| hist_reconcile: "history e K w0 w \<Longrightarrow> serving_key (nnString e rq) \<Longrightarrow> Reconcile e rq w = (r, w') \<Longrightarrow> history e K w0 w'"
| hist_create: "history e K w0 w \<Longrightarrow> kCreate (channels e) ch w = (r1, w') \<Longrightarrow> history e K w0 w'"
| hist_delete: "history e K w0 w \<Longrightarrow> chKey ch \<notin> K \<Longrightarrow> kDelete (channels e) ch w = (r2, w') \<Longrightarrow> history e K w0 w'"
| hist_update: "history e K w0 w \<Longrightarrow> chKey ch \<notin> K \<Longrightarrow> kUpdate (channels e) ch w = (r3, w') \<Longrightarrow> history e K w0 w'"

context kube_api
begin

lemma history_ready:
  assumes "history e K w0 w" and "ctrl_ref_stable e" and k: "k \<in> K"
    and "clChannels (st w0) k = Some ch" and "ready e ch (st w0)"
  shows "channel_kept ch k (st w) \<and> ready e ch (st w)"
  using assms(1)
proof (induction rule: history.induct)
  case hist_start
  then show ?case using assms by (simp add: channel_kept_def)
next
  case (hist_reconcile w rq r w')
  then show ?case using Reconcile_keeps_channel[OF assms(2) hist_reconcile(3,2)] by blast
next
  case (hist_create w c r w')
  then show ?case using chn.create_touches[OF hist_create(2)] by (auto simp: channel_kept_def)
next
  case (hist_delete w c r w')
  moreover have "k \<noteq> chKey c" using hist_delete(2) k by blast
  ultimately show ?case using chn.delete_touches[OF hist_delete(3)] by (auto simp: channel_kept_def)
next
  case (hist_update w c r w')
  moreover have "k \<noteq> chKey c" using hist_update(2) k by blast
  ultimately show ?case using chn.update_touches[OF hist_update(3)] by (auto simp: channel_kept_def)
qed

end

text \<open>An entry that no reconcile of the run is about stays in the annotation, and none is added.\<close>

inductive reconciles_others :: "'w Env \<Rightarrow> string \<Rightarrow> 'w \<Rightarrow> 'w \<Rightarrow> bool" for e key w0 where
  others_start: "reconciles_others e key w0 w0"
| others_step: "reconciles_others e key w0 w \<Longrightarrow> serving_key (nnString e rq) \<Longrightarrow> nnString e rq \<noteq> key \<Longrightarrow>
     Reconcile e rq w = (r, w') \<Longrightarrow> reconciles_others e key w0 w'"

context kube_api
begin

lemma reconciles_others_entry:
  assumes "reconciles_others e key w0 w" and "clDataObjects (st w0) g k = Some ob"
  shows "\<exists>ob'. clDataObjects (st w) g k = Some ob' \<and> same_but_marks ob ob' \<and>
    (key \<in> served (serving_annotation ob') \<longleftrightarrow> key \<in> served (serving_annotation ob)) \<and>
    (\<forall>a. a \<noteq> ServingChannel \<longrightarrow> omAnnotations (doMeta ob') a = omAnnotations (doMeta ob) a) \<and>
    (\<forall>l. l \<noteq> ServingChannel \<and> l \<noteq> backupLabel \<longrightarrow> omLabels (doMeta ob') l = omLabels (doMeta ob) l) \<and>
    (serving_labelled ob \<longrightarrow> serving_labelled ob')"
  using assms(1)
proof (induction rule: reconciles_others.induct)
  case others_start
  then show ?case using assms(2) by simp
next
  case (others_step w rq r w')
  obtain res er where r: "r = (res, er)" by fastforce
  from others_step.IH obtain ob1 where 1: "clDataObjects (st w) g k = Some ob1" "same_but_marks ob ob1"
      "key \<in> served (serving_annotation ob1) \<longleftrightarrow> key \<in> served (serving_annotation ob)"
      "\<forall>a. a \<noteq> ServingChannel \<longrightarrow> omAnnotations (doMeta ob1) a = omAnnotations (doMeta ob) a"
      "\<forall>l. l \<noteq> ServingChannel \<and> l \<noteq> backupLabel \<longrightarrow> omLabels (doMeta ob1) l = omLabels (doMeta ob) l"
      "serving_labelled ob \<longrightarrow> serving_labelled ob1" by (elim exE conjE)
  have "entries_kept (entry_kept (nnString e rq)) (st w) (st w')"
    using Reconcile_entries others_step(2,4) r by blast
  then obtain ob2 where 2: "clDataObjects (st w') g k = Some ob2" "entry_kept (nnString e rq) ob1 ob2"
    using entries_keptD 1(1) by blast
  have "key \<in> served (serving_annotation ob2) \<longleftrightarrow> key \<in> served (serving_annotation ob1)"
    using 2(2) others_step(3) unfolding entry_kept_def by blast
  moreover have "same_but_marks ob1 ob2" "serving_labelled ob1 \<longrightarrow> serving_labelled ob2"
    "\<forall>a. a \<noteq> ServingChannel \<longrightarrow> omAnnotations (doMeta ob2) a = omAnnotations (doMeta ob1) a"
    "\<forall>l. l \<noteq> ServingChannel \<and> l \<noteq> backupLabel \<longrightarrow> omLabels (doMeta ob2) l = omLabels (doMeta ob1) l"
    using 2(2) by (simp_all add: entry_kept_def)
  ultimately show ?case
    using 1(3-6) 2(1) same_but_marks_trans[OF 1(2)] by simp
qed

end

section \<open>Two rounds of a calm sweep\<close>

context kube_api_calm
begin

lemma Reconcile_corrects:
  assumes stable: "ctrl_ref_stable e" and "calm w" and key: "serving_key (nnString e rq)"
    and ch: "channel_kept ch rq (st w)" and ready: "ready e ch (st w)"
  shows "\<exists>w'. calm w' \<and> Reconcile e rq w = ((\<lparr>RequeueAfter = requeuAfter\<rparr>, None), w') \<and>
    clChannels (st w') rq = Some (correct_path ch)"
proof (cases "clChannels (st w) rq = Some (correct_path ch)")
  case True
  have "ready e (correct_path ch) (st w)" using ready ready_correct_path[OF stable] by blast
  from Reconcile_settles[OF assms(2) True correct_path_fixed key this] show ?thesis
    using True by (auto simp: swept_def)
next
  case False
  then have old: "clChannels (st w) rq = Some ch" "path_fix ch"
    using ch by (auto simp: channel_kept_def correct_path_def split: if_splits)
  from Reconcile_calm_path[OF assms(2) old] show ?thesis
    using old(2) by (auto simp: correct_path_def)
qed

text \<open>The first round corrects the paths; \<open>f\<close> gives the channels as the users wrote them.\<close>

lemma sweep_corrects:
  assumes stable: "ctrl_ref_stable e" and "calm w" and "set rqs \<subseteq> K"
    and "\<And>k. k \<in> K \<Longrightarrow> channel_kept (f k) k (st w) \<and> ready e (f k) (st w) \<and> serving_key (nnString e k)"
  shows "\<exists>w'. calm w' \<and> sweep e rqs w = (replicate (length rqs) None, w') \<and>
    (\<forall>k\<in>K. channel_kept (f k) k (st w') \<and> ready e (f k) (st w')) \<and>
    (\<forall>k\<in>set rqs. clChannels (st w') k = Some (correct_path (f k)))"
  using assms(2-4)
proof (induction rqs rule: rev_induct)
  case Nil
  then show ?case by simp
next
  case (snoc rq rqs)
  have sub: "set rqs \<subseteq> K" and rq: "rq \<in> K" using snoc.prems(2) by simp_all
  obtain w1 where w1: "calm w1" "sweep e rqs w = (replicate (length rqs) None, w1)"
      and kept: "\<And>k. k \<in> K \<Longrightarrow> channel_kept (f k) k (st w1) \<and> ready e (f k) (st w1)"
      and right: "\<And>k. k \<in> set rqs \<Longrightarrow> clChannels (st w1) k = Some (correct_path (f k))"
    using snoc.IH[OF snoc.prems(1) sub snoc.prems(3)] by blast
  have key: "serving_key (nnString e k)" if "k \<in> K" for k using snoc.prems(3)[OF that] by simp
  obtain w2 where w2: "calm w2" "Reconcile e rq w1 = ((\<lparr>RequeueAfter = requeuAfter\<rparr>, None), w2)"
      "clChannels (st w2) rq = Some (correct_path (f rq))"
    using Reconcile_corrects[OF stable w1(1) key[OF rq], of "f rq"] kept[OF rq] by blast
  have "channel_kept (f k) k (st w2) \<and> ready e (f k) (st w2)" if "k \<in> K" for k
    using Reconcile_keeps_channel[OF stable w2(2) key[OF rq]] kept[OF that] by blast
  moreover have "clChannels (st w2) k = Some (correct_path (f k))" if k: "k \<in> set rqs" for k
  proof -
    have "ready e (correct_path (f k)) (st w1)"
      using kept[of k] k sub ready_correct_path[OF stable] by blast
    then show ?thesis
      using Reconcile_keeps_ready[OF stable w2(2) key[OF rq] right[OF k] correct_path_fixed] by blast
  qed
  moreover have "sweep e (rqs @ [rq]) w = (replicate (length (rqs @ [rq])) None, w2)"
    by (simp add: sweep_append w1(2) w2(2) replicate_append_same)
  ultimately show ?case using w2(1,3) by auto
qed

lemma recovery:
  assumes past: "history e (set rqs) w0 w" and calm: "calm w" and stable: "ctrl_ref_stable e" and dist: "distinct rqs"
    and chs: "\<And>rq. rq \<in> set rqs \<Longrightarrow> clChannels (st w0) rq = Some (f rq) \<and> ready e (f rq) (st w0)"
    and keys: "\<And>rq. rq \<in> set rqs \<Longrightarrow> serving_key (nnString e rq) \<and> CHR ''/'' \<notin> set (nnNamespace rq)"
  shows "\<exists>w'. sweep e (rqs @ rqs) w = (replicate (2 * length rqs) None, w') \<and>
    (\<forall>rq\<in>set rqs. clChannels (st w') rq = Some (correct_path (f rq)) \<and>
       settled (nnString e rq) (correct_path (f rq)) (st w'))"
proof -
  have "channel_kept (f rq) rq (st w) \<and> ready e (f rq) (st w) \<and> serving_key (nnString e rq)" if rq: "rq \<in> set rqs" for rq
    using history_ready[OF past stable rq] chs[OF rq] keys[OF rq] by blast
  from sweep_corrects[OF stable calm order_refl this]
  obtain w1 where w1: "calm w1" "sweep e rqs w = (replicate (length rqs) None, w1)"
      and kept: "\<And>k. k \<in> set rqs \<Longrightarrow> ready e (f k) (st w1)"
      and right: "\<And>k. k \<in> set rqs \<Longrightarrow> clChannels (st w1) k = Some (correct_path (f k))"
    by blast
  have "\<exists>ch. clChannels (st w1) rq = Some ch \<and> \<not> path_fix ch \<and> ready e ch (st w1)" if rq: "rq \<in> set rqs" for rq
    using right[OF rq] kept[OF rq] ready_correct_path[OF stable] by auto
  from sweep_calm[OF w1(1) dist this keys]
  obtain w2 where w2: "sweep e rqs w1 = (replicate (length rqs) None, w2)" "swept (set rqs) (st w1) (st w2)"
      "\<And>rq. rq \<in> set rqs \<Longrightarrow> settled (nnString e rq) (the (clChannels (st w1) rq)) (st w2)"
    by blast
  have "sweep e (rqs @ rqs) w = (replicate (2 * length rqs) None, w2)"
    by (simp add: sweep_append w1(2) w2(1) mult_2 replicate_add)
  moreover have "clChannels (st w2) rq = Some (correct_path (f rq)) \<and> settled (nnString e rq) (correct_path (f rq)) (st w2)"
    if rq: "rq \<in> set rqs" for rq
    using w2(2) w2(3)[OF rq] right[OF rq] by (simp add: swept_def)
  ultimately show ?thesis by blast
qed

end

end
