(* ===== verification/Channel_Validator.thy ===== *)
theory Channel_Validator
  imports Kube_Mem
begin

text \<open>
  \<open>pkg/webhook/channel_validator.go\<close>: the admission handler that keeps a namespace from
  holding two channels that are not git channels. The request decoder of controller-runtime is a
  parameter. \<open>one_per_namespace\<close> is the contract of the handler; the lemmas show that an admitted
  channel has no rival when it is checked, that the handler refuses nothing else when the cluster can be
  read, and that two requests may both be admitted before either is stored.
\<close>

section \<open>The handler\<close>

definition StatusBadRequest :: int where
  "StatusBadRequest = 400"

text \<open>The responses \<open>admission.Errored\<close>, \<open>admission.Allowed\<close> and \<open>admission.Denied\<close>.\<close>

datatype admission_response = Errored int go_error | Allowed string | Denied string

text \<open>The decoder that the handler keeps; its client and logger are in the environment.\<close>

record 'req ChannelValidator =
  cvDecoder :: "'req \<Rightarrow> go_error + Channel"

definition InjectDecoder ::
  "('req \<Rightarrow> go_error + Channel) \<Rightarrow> 'req ChannelValidator \<Rightarrow> go_error option \<times> 'req ChannelValidator" where
  "InjectDecoder d v = (None, v\<lparr>cvDecoder := d\<rparr>)"

definition is_git :: "Channel \<Rightarrow> bool" where
  "is_git chn \<longleftrightarrow> (let chnType = spType (chSpec chn)
     in strings_EqualFold chnType ChannelTypeGit \<or> strings_EqualFold chnType ChannelTypeGitHub)"

fun isGitOrSameKey :: "Channel list \<Rightarrow> NamespacedName \<Rightarrow> string \<times> bool" where
  "isGitOrSameKey [] inReq = ([], True)"
| "isGitOrSameKey (chn # items) inReq =
     (if is_git chn then isGitOrSameKey items inReq
      else if chName chn = nnName inReq then ([], True)
      else (chName chn, False))"

definition Handle ::
  "'w Env \<Rightarrow> ('req \<Rightarrow> go_error + Channel) \<Rightarrow> 'req \<Rightarrow> 'w \<Rightarrow> admission_response \<times> 'w" where
  "Handle e decode req w =
     (case decode req of
        Inl er \<Rightarrow> (Errored StatusBadRequest er, w)
      | Inr chn \<Rightarrow>
          if is_git chn then (Allowed [], w)
          else (case kList (channels e) (InNamespace (chNamespace chn)) w of
              (Inl _, w) \<Rightarrow> (Denied ''the hub cluster state is unknown'', w)
            | (Inr items, w) \<Rightarrow>
                if items = [] then (Allowed [], w)
                else (case isGitOrSameKey items (nskey (chNamespace chn) (chName chn)) of
                    (_, True) \<Rightarrow> (Allowed [], w)
                  | (v, False) \<Rightarrow> (Denied (''the namespace '' @ chNamespace chn @
                      '' already contains a channel: '' @ v), w))))"

section \<open>What it decides\<close>

lemma isGitOrSameKey_pass:
  "snd (isGitOrSameKey items k) \<longleftrightarrow> (case filter (\<lambda>c. \<not> is_git c) items of [] \<Rightarrow> True | c # _ \<Rightarrow> chName c = nnName k)"
  by (induction items) auto

lemma isGitOrSameKey_fail:
  "isGitOrSameKey items k = (v, False) \<Longrightarrow> \<exists>c\<in>set items. \<not> is_git c \<and> chName c = v \<and> v \<noteq> nnName k"
  by (induction items) (auto split: if_splits)

text \<open>A channel of the namespace that rules out a new one of this key.\<close>

definition rival :: "cluster \<Rightarrow> Channel \<Rightarrow> Channel \<Rightarrow> bool" where
  "rival c ch other \<longleftrightarrow> clChannels c (chKey other) = Some other \<and> chNamespace other = chNamespace ch \<and>
     \<not> is_git other \<and> chName other \<noteq> chName ch"

text \<open>At most one channel per namespace is not a git channel.\<close>

definition one_per_namespace :: "cluster \<Rightarrow> bool" where
  "one_per_namespace c \<longleftrightarrow> (\<forall>k1 k2 c1 c2. clChannels c k1 = Some c1 \<and> clChannels c k2 = Some c2 \<and>
     nnNamespace k1 = nnNamespace k2 \<and> \<not> is_git c1 \<and> \<not> is_git c2 \<longrightarrow> k1 = k2)"

lemma two_in_namespace:
  "clChannels c k1 = Some c1 \<Longrightarrow> clChannels c k2 = Some c2 \<Longrightarrow> nnNamespace k1 = nnNamespace k2 \<Longrightarrow>
   \<not> is_git c1 \<Longrightarrow> \<not> is_git c2 \<Longrightarrow> k1 \<noteq> k2 \<Longrightarrow> \<not> one_per_namespace c"
  unfolding one_per_namespace_def by blast

context kube_api
begin

lemma Handle_st: "Handle e decode req w = (resp, w') \<Longrightarrow> st w' = st w"
  by (auto simp: Handle_def split: sum.splits if_splits prod.splits bool.splits dest: chn.list_st)

text \<open>An admitted channel is a git channel or the first of its kind, given the contract so far.\<close>

lemma Handle_allowed:
  assumes run: "Handle e decode req w = (Allowed msg, w')" and dec: "decode req = Inr ch"
    and inv: "one_per_namespace (st w)" and ns: "chNamespace ch \<noteq> []"
  shows "is_git ch \<or> (\<forall>other. \<not> rival (st w) ch other)"
proof (rule disjCI)
  assume "\<not> (\<forall>other. \<not> rival (st w) ch other)"
  then obtain other where other: "rival (st w) ch other" by blast
  show "is_git ch"
  proof (rule ccontr)
    assume git: "\<not> is_git ch"
    obtain items w1 where list: "kList (channels e) (InNamespace (chNamespace ch)) w = (Inr items, w1)"
      using run dec git by (auto simp: Handle_def split: prod.splits sum.splits)
    note mem = chn.list_mem [OF list]
    have mine: "other \<in> set items" using other by (auto simp: mem rival_def)
    obtain x xs where f: "filter (\<lambda>c. \<not> is_git c) items = x # xs"
      using mine other by (cases "filter (\<lambda>c. \<not> is_git c) items") (auto simp: rival_def filter_empty_conv)
    have "x \<in> set (filter (\<lambda>c. \<not> is_git c) items)" unfolding f by simp
    then have x: "x \<in> set items" "\<not> is_git x" by simp_all
    then have "clChannels (st w) (chKey x) = Some x" "chNamespace x = chNamespace ch"
      using ns by (auto simp: mem)
    moreover have "snd (isGitOrSameKey items (nskey (chNamespace ch) (chName ch)))"
      using run dec git list mine by (auto simp: Handle_def split: prod.splits bool.splits if_splits)
    then have "chName x = chName ch" by (simp add: isGitOrSameKey_pass f)
    ultimately have "chKey x = chKey other"
      using inv other x(2) unfolding one_per_namespace_def rival_def by (metis key_of_meta_def NamespacedName.select_convs(1))
    with \<open>chName x = chName ch\<close> other show False by (simp add: rival_def key_of_meta_def)
  qed
qed

end

context kube_api_calm
begin

lemma Handle_complete:
  assumes calm: "calm w" and dec: "decode req = Inr ch" and ns: "chNamespace ch \<noteq> []"
    and ok: "is_git ch \<or> (\<forall>other. \<not> rival (st w) ch other)"
  shows "\<exists>w'. calm w' \<and> Handle e decode req w = (Allowed [], w')"
proof (cases "is_git ch")
  case True
  then show ?thesis using calm by (simp add: Handle_def dec)
next
  case False
  obtain items w1 where w1: "calm w1" and list: "kList (channels e) (InNamespace (chNamespace ch)) w = (Inr items, w1)"
    using chn.calm_list [OF calm] by blast
  have "snd (isGitOrSameKey items (nskey (chNamespace ch) (chName ch)))"
  proof (cases "isGitOrSameKey items (nskey (chNamespace ch) (chName ch))")
    case (Pair v b)
    have "b"
    proof (rule ccontr)
      assume "\<not> b"
      with Pair have "isGitOrSameKey items (nskey (chNamespace ch) (chName ch)) = (v, False)" by simp
      from isGitOrSameKey_fail [OF this] obtain c where
        c: "c \<in> set items" "\<not> is_git c" "chName c \<noteq> chName ch" by auto
      then have "rival (st w) ch c" using chn.list_mem [OF list, of c] ns by (auto simp: rival_def)
      with ok False show False by blast
    qed
    with Pair show ?thesis by simp
  qed
  with dec False w1 list show ?thesis by (auto simp: Handle_def split: prod.splits bool.splits)
qed

text \<open>Two requests that are both checked before the first of them is stored.\<close>

lemma Handle_race:
  assumes "calm w" and dec: "decode req1 = Inr ch1" "decode req2 = Inr ch2"
    and ns: "chNamespace ch1 \<noteq> []" "chNamespace ch2 = chNamespace ch1" and names: "chName ch1 \<noteq> chName ch2"
    and free: "\<forall>k c. clChannels (st w) k = Some c \<and> nnNamespace k = chNamespace ch1 \<longrightarrow> is_git c"
    and new: "clChannels (st w) (chKey ch1) = None" "clChannels (st w) (chKey ch2) = None"
  shows "\<exists>w1 w2 w3 w4. Handle e decode req1 w = (Allowed [], w1) \<and> Handle e decode req2 w1 = (Allowed [], w2) \<and>
    kCreate (channels e) ch1 w2 = (Inr ch1, w3) \<and> kCreate (channels e) ch2 w3 = (Inr ch2, w4) \<and>
    clChannels (st w4) = (clChannels (st w))(chKey ch1 \<mapsto> ch1, chKey ch2 \<mapsto> ch2)"
proof -
  have free': "\<forall>other. \<not> rival (st w) ch other" if "chNamespace ch = chNamespace ch1" for ch
  proof (intro allI notI)
    fix other
    assume "rival (st w) ch other"
    then have r: "clChannels (st w) (chKey other) = Some other" "nnNamespace (chKey other) = chNamespace ch1" "\<not> is_git other"
      using that by (auto simp: rival_def key_of_meta_def)
    then show False using free by blast
  qed
  obtain w1 where w1: "calm w1" "Handle e decode req1 w = (Allowed [], w1)"
    using Handle_complete [of w decode req1 ch1] assms(1) dec(1) ns(1) free' [of ch1] by blast
  have st1: "st w1 = st w" using Handle_st [OF w1(2)] .
  obtain w2 where w2: "calm w2" "Handle e decode req2 w1 = (Allowed [], w2)"
    using Handle_complete [of w1 decode req2 ch2] w1(1) dec(2) ns free' [of ch2] st1 by auto
  have st2: "st w2 = st w" using Handle_st [OF w2(2)] st1 by simp
  obtain x w3 where w3: "calm w3" "kCreate (channels e) ch1 w2 = (Inr x, w3)"
    using chn.calm_create [OF w2(1), of ch1] new(1) st2 by auto
  note c3 = chn.create_ok [OF w3(2)]
  have keys: "chKey ch2 \<noteq> chKey ch1" using names by (simp add: key_of_meta_def)
  have "clChannels (st w3) (chKey ch2) = None" using c3 st2 new(2) keys by simp
  from chn.calm_create [OF w3(1) this] obtain y w4 where w4: "kCreate (channels e) ch2 w3 = (Inr y, w4)" by blast
  from c3 chn.create_ok [OF w4] st2
  have "x = ch1" "y = ch2" "clChannels (st w4) = (clChannels (st w))(chKey ch1 \<mapsto> ch1, chKey ch2 \<mapsto> ch2)"
    by auto
  with w1 w2 w3 w4 show ?thesis by blast
qed

end

text \<open>A second channel for the namespace of the example channel.\<close>

definition ex_rival :: Channel where
  "ex_rival = ex_channel\<lparr>chMeta := plain_meta ''dev'' ''other''\<rparr>"

section \<open>Properties\<close>

text \<open>
  C11. When the cluster can be read and the contract holds so far, the handler's decision on a
  decodable request is exact: it admits a git channel and a channel whose namespace has no other
  channel outside git, and it denies every other request.
\<close>

theorem Handle_decides:
  assumes "kube_api_calm e st calm" and "calm w" and "decode req = Inr ch" and "chNamespace ch \<noteq> []" and "one_per_namespace (st w)"
  shows "(fst (Handle e decode req w) = Allowed []) = (is_git ch \<or> (\<forall>other. \<not> rival (st w) ch other)) \<and>
    (\<exists>msg. fst (Handle e decode req w) \<in> {Allowed [], Denied msg})"
proof -
  have api: "kube_api e st" using assms(1) by (simp add: kube_api_calm_def)
  obtain resp w' where run: "Handle e decode req w = (resp, w')" by fastforce
  have "resp = Allowed [] \<Longrightarrow> is_git ch \<or> (\<forall>other. \<not> rival (st w) ch other)"
    using kube_api.Handle_allowed [OF api, of decode req w "[]" w' ch] run assms(3-5) by blast
  moreover have "is_git ch \<or> (\<forall>other. \<not> rival (st w) ch other) \<Longrightarrow> resp = Allowed []"
    using kube_api_calm.Handle_complete [OF assms(1,2), of decode req ch] assms(3,4) run by auto
  moreover have "\<exists>msg. resp \<in> {Allowed [], Denied msg}"
    using run assms(3) by (auto simp: Handle_def split: if_splits prod.splits sum.splits bool.splits)
  ultimately show ?thesis using run by auto
qed

theorem Handle_decides_witness:
  "fst (Handle memEnv Inr (ex_channel\<lparr>chMeta := plain_meta ''dev'' ''other''\<rparr>) (empty_mem\<lparr>mChannels := [ex_channel]\<rparr>)) \<noteq> Allowed []"
proof -
  let ?ch = "ex_channel\<lparr>chMeta := plain_meta ''dev'' ''other''\<rparr>" and ?w = "empty_mem\<lparr>mChannels := [ex_channel]\<rparr>"
  have chans: "clChannels (mem_cluster ?w) = [nskey ''dev'' ''charts'' \<mapsto> ex_channel]"
    by (simp add: mem_cluster_def empty_mem_def ex_channel_def key_of_meta_def)
  have git: "\<not> is_git ex_channel" by code_simp
  then have git2: "\<not> is_git ?ch" by (simp add: is_git_def)
  have "rival (mem_cluster ?w) ?ch ex_channel"
    unfolding rival_def chans using git by (simp add: key_of_meta_def ex_channel_def)
  moreover have "one_per_namespace (mem_cluster ?w)" unfolding one_per_namespace_def chans by (simp split: if_splits)
  ultimately show ?thesis
    using Handle_decides [OF fake.kube_api_calm_axioms, of ?w Inr ?ch ?ch] git2 by (auto simp: mem_calm_def empty_mem_def)
qed

text \<open>
  C24. The check and the creation are not atomic. Two channels outside git for one namespace that has
  none yet are both admitted when the API server asks the handler about both before it stores either,
  and then both are stored: without any fault the namespace holds two of them.
\<close>

theorem admission_race:
  assumes "kube_api_calm e st calm" and "calm w" and "decode req1 = Inr ch1" and "decode req2 = Inr ch2"
    and "\<not> is_git ch1" and "\<not> is_git ch2"
    and "chNamespace ch1 \<noteq> []" and "chNamespace ch2 = chNamespace ch1" and "chName ch1 \<noteq> chName ch2"
    and "\<forall>k c. clChannels (st w) k = Some c \<and> nnNamespace k = chNamespace ch1 \<longrightarrow> is_git c"
    and "clChannels (st w) (chKey ch1) = None" and "clChannels (st w) (chKey ch2) = None"
  shows "\<exists>w1 w2 w3 w4. Handle e decode req1 w = (Allowed [], w1) \<and> Handle e decode req2 w1 = (Allowed [], w2) \<and>
    kCreate (channels e) ch1 w2 = (Inr ch1, w3) \<and> kCreate (channels e) ch2 w3 = (Inr ch2, w4) \<and>
    \<not> one_per_namespace (st w4)"
proof -
  obtain w1 w2 w3 w4 where run: "Handle e decode req1 w = (Allowed [], w1)" "Handle e decode req2 w1 = (Allowed [], w2)"
      "kCreate (channels e) ch1 w2 = (Inr ch1, w3)" "kCreate (channels e) ch2 w3 = (Inr ch2, w4)"
      and c4: "clChannels (st w4) = (clChannels (st w))(chKey ch1 \<mapsto> ch1, chKey ch2 \<mapsto> ch2)"
    using kube_api_calm.Handle_race [of e st calm w decode req1 ch1 req2 ch2, OF assms(1-4,7-12)] by blast
  have "chKey ch1 \<noteq> chKey ch2" "nnNamespace (chKey ch1) = nnNamespace (chKey ch2)"
    using assms(8,9) by (simp_all add: key_of_meta_def)
  then have "\<not> one_per_namespace (st w4)"
    using assms(5,6) by (intro two_in_namespace [of "st w4" "chKey ch1" ch1 "chKey ch2" ch2]) (simp_all add: c4)
  with run show ?thesis by blast
qed

theorem admission_race_witness:
  "\<exists>w1 w2 w3 w4. Handle memEnv Inr ex_channel empty_mem = (Allowed [], w1) \<and> Handle memEnv Inr ex_rival w1 = (Allowed [], w2) \<and>
     kCreate (channels memEnv) ex_channel w2 = (Inr ex_channel, w3) \<and> kCreate (channels memEnv) ex_rival w3 = (Inr ex_rival, w4) \<and>
     \<not> one_per_namespace (mem_cluster w4)"
proof -
  have "\<not> is_git ex_channel" "\<not> is_git ex_rival" by code_simp+
  moreover have "clChannels (mem_cluster empty_mem) k = None" for k by (simp add: mem_cluster_def empty_mem_def)
  moreover have "chNamespace ex_channel \<noteq> []" "chNamespace ex_rival = chNamespace ex_channel" "chName ex_channel \<noteq> chName ex_rival"
    by (simp_all add: ex_channel_def ex_rival_def)
  moreover have "mem_calm empty_mem" by (simp add: mem_calm_def empty_mem_def)
  ultimately show ?thesis
    by (intro admission_race [where decode = Inr, OF fake.kube_api_calm_axioms]) simp_all
qed

end
