(* ===== verification/Channel_System.thy ===== *)
theory Channel_System
  imports Channel_Recovery Channel_Validator
begin

text \<open>
  The operator as a whole: users, the API server, the webhook and the controller, as a step relation
  with labelled moves. The API server asks the webhook about a request and stores the channel later, so
  that the requests it has admitted are part of the state. What the moves may do to the contract of the
  webhook is read off the trace: \<open>orderly\<close> says which moves keep it.
\<close>

section \<open>The moves\<close>

datatype move =
    Checked Channel \<comment> \<open>the webhook admits a request\<close>
  | Refused \<comment> \<open>the webhook answers otherwise\<close>
  | Dropped Channel \<comment> \<open>an admitted request is given up, for a reason outside the webhook\<close>
  | Stored Channel \<comment> \<open>the API server stores an admitted channel, or fails to\<close>
  | Removed Channel
  | Changed Channel
  | Reconciled NamespacedName

text \<open>
  A configuration is the world and the channels that are admitted but not stored yet. The API server
  sets the namespace of a request before it asks. The webhook is called for creations only, so that a
  change may be any update.
\<close>

inductive system_step ::
  "'w Env \<Rightarrow> ('req \<Rightarrow> go_error + Channel) \<Rightarrow> 'w \<times> Channel list \<Rightarrow> move \<Rightarrow> 'w \<times> Channel list \<Rightarrow> bool" for e decode where
  step_check: "decode req = Inr ch \<Longrightarrow> chNamespace ch \<noteq> [] \<Longrightarrow> Handle e decode req w = (Allowed msg, w1) \<Longrightarrow>
     system_step e decode (w, ps) (Checked ch) (w1, ch # ps)"
| step_refuse: "Handle e decode req w = (resp, w1) \<Longrightarrow> (\<forall>msg. resp \<noteq> Allowed msg) \<Longrightarrow>
     system_step e decode (w, ps) Refused (w1, ps)"
| step_drop: "ch \<in> set ps \<Longrightarrow> system_step e decode (w, ps) (Dropped ch) (w, remove1 ch ps)"
| step_store: "ch \<in> set ps \<Longrightarrow> kCreate (channels e) ch w = (r, w1) \<Longrightarrow>
     system_step e decode (w, ps) (Stored ch) (w1, remove1 ch ps)"
| step_remove: "kDelete (channels e) ch w = (r2, w1) \<Longrightarrow> system_step e decode (w, ps) (Removed ch) (w1, ps)"
| step_change: "kUpdate (channels e) ch w = (r, w1) \<Longrightarrow> system_step e decode (w, ps) (Changed ch) (w1, ps)"
| step_reconcile: "serving_key (nnString e rq) \<Longrightarrow> Reconcile e rq w = (r3, w1) \<Longrightarrow>
     system_step e decode (w, ps) (Reconciled rq) (w1, ps)"

lemmas system_step_induct = system_step.induct [split_format (complete)]

text \<open>A run with its trace, the latest move first, each with the configuration it starts from.\<close>

inductive system_run ::
  "'w Env \<Rightarrow> ('req \<Rightarrow> go_error + Channel) \<Rightarrow> 'w \<times> Channel list \<Rightarrow> (('w \<times> Channel list) \<times> move) list \<Rightarrow>
   'w \<times> Channel list \<Rightarrow> bool" for e decode s0 where
  run_start: "system_run e decode s0 [] s0"
| run_step: "system_run e decode s0 tr s \<Longrightarrow> system_step e decode s m s' \<Longrightarrow> system_run e decode s0 ((s, m) # tr) s'"

text \<open>
  Two moves can break the contract: checking a channel outside git while another one is admitted for its
  namespace and not stored yet, and changing a git channel into another kind.
\<close>

fun orderly :: "('w \<Rightarrow> cluster) \<Rightarrow> 'w \<times> Channel list \<Rightarrow> move \<Rightarrow> bool" where
  "orderly st (w, ps) (Checked ch) \<longleftrightarrow> is_git ch \<or> (\<forall>p\<in>set ps. is_git p \<or> chNamespace p \<noteq> chNamespace ch)"
| "orderly st (w, ps) (Changed ch) \<longleftrightarrow>
     is_git ch \<or> (case clChannels (st w) (chKey ch) of None \<Rightarrow> True | Some old \<Rightarrow> \<not> is_git old)"
| "orderly st s m \<longleftrightarrow> True"

section \<open>The keys outside git\<close>

definition other_keys :: "cluster \<Rightarrow> NamespacedName set" where
  "other_keys c = {k. \<exists>x. clChannels c k = Some x \<and> \<not> is_git x}"

lemma one_per_namespace_keys:
  "one_per_namespace c \<longleftrightarrow> inj_on nnNamespace (other_keys c)"
  unfolding one_per_namespace_def inj_on_def other_keys_def by blast

text \<open>An admitted channel may be stored without breaking the contract.\<close>

definition admissible :: "cluster \<Rightarrow> Channel \<Rightarrow> bool" where
  "admissible c ch \<longleftrightarrow> is_git ch \<or> (\<forall>k\<in>other_keys c. nnNamespace k = chNamespace ch \<longrightarrow> k = chKey ch)"

lemma other_keys_set:
  "other_keys (clChannels_update (\<lambda>m. m(k \<mapsto> x)) c) = (if is_git x then other_keys c - {k} else insert k (other_keys c))"
  "other_keys (clChannels_update (\<lambda>m. m(k := None)) c) = other_keys c - {k}"
  by (auto simp: other_keys_def)

lemma keys_shrink:
  assumes "other_keys c' \<subseteq> other_keys c"
  shows "one_per_namespace c \<Longrightarrow> one_per_namespace c'" and "admissible c ch \<Longrightarrow> admissible c' ch"
  using assms by (auto simp: one_per_namespace_keys admissible_def intro: inj_on_subset)

lemma one_per_namespace_store:
  assumes "one_per_namespace c" and "admissible c ch"
  shows "one_per_namespace (clChannels_update (\<lambda>m. m(chKey ch \<mapsto> ch)) c)"
proof (cases "is_git ch")
  case True
  then show ?thesis using assms(1) by (auto simp: one_per_namespace_keys other_keys_set intro: inj_on_subset)
next
  case False
  have "nnNamespace (chKey ch) = chNamespace ch" by (simp add: key_of_meta_def)
  then show ?thesis
    using False assms by (auto simp: one_per_namespace_keys other_keys_set admissible_def inj_on_def)
qed

text \<open>The admitted channels outside git have different namespaces, and each may be stored.\<close>

definition contract :: "('w \<Rightarrow> cluster) \<Rightarrow> 'w \<times> Channel list \<Rightarrow> bool" where
  "contract st s \<longleftrightarrow> one_per_namespace (st (fst s)) \<and> (\<forall>p\<in>set (snd s). admissible (st (fst s)) p) \<and>
     distinct (map chNamespace (filter (\<lambda>p. \<not> is_git p) (snd s)))"

lemma contract_shrink:
  "contract st (w, ps) \<Longrightarrow> other_keys (st w') \<subseteq> other_keys (st w) \<Longrightarrow> contract st (w', ps)"
  unfolding contract_def fst_conv snd_conv using keys_shrink by blast

lemma filter_remove1: "filter P (remove1 x xs) = (if P x then remove1 x (filter P xs) else filter P xs)"
  by (induction xs) auto

lemma contract_less:
  assumes "contract st (w, ps)"
  shows "contract st (w, remove1 ch ps)"
proof -
  have "distinct (map chNamespace (filter (\<lambda>p. \<not> is_git p) (remove1 ch ps)))"
    using assms inj_on_subset [OF _ set_remove1_subset, of chNamespace "filter (\<lambda>p. \<not> is_git p) ps"]
    by (simp add: contract_def filter_remove1 distinct_map distinct_remove1)
  then show ?thesis using assms set_remove1_subset [of ch ps] unfolding contract_def by auto
qed

text \<open>A reconcile changes at most the path of its channel, so no channel changes its kind.\<close>

lemma is_git_fixed_path [simp]: "is_git (fixed_path ch) = is_git ch"
  by (simp add: is_git_def fixed_path_def)

text \<open>A pending channel is the only one outside git for its namespace, so storing it leaves the others admissible.\<close>

lemma contract_store:
  assumes c: "contract st (w, ps)" and ch: "ch \<in> set ps" and w': "st w' = clChannels_update (\<lambda>m. m(chKey ch \<mapsto> ch)) (st w)"
  shows "contract st (w', remove1 ch ps)"
proof -
  let ?o = "filter (\<lambda>p. \<not> is_git p)"
  have one: "one_per_namespace (st w')"
    using c ch one_per_namespace_store [of "st w" ch] by (simp add: contract_def w')
  have rest: "distinct (map chNamespace (?o (remove1 ch ps)))" "\<forall>p\<in>set (remove1 ch ps). admissible (st w) p"
    using contract_less [OF c, of ch] by (simp_all add: contract_def)
  have "admissible (st w') p" if p: "p \<in> set (remove1 ch ps)" for p
  proof (cases "is_git p \<or> is_git ch")
    case True
    then have "is_git p \<or> other_keys (st w') \<subseteq> other_keys (st w)" by (auto simp: w' other_keys_set)
    then show ?thesis using rest(2) p keys_shrink(2) [of "st w'" "st w" p] by (auto simp: admissible_def [of _ p])
  next
    case False
    have d: "distinct (map chNamespace (?o ps))" using c by (simp add: contract_def)
    have eq: "?o (remove1 ch ps) = remove1 ch (?o ps)" using False by (simp add: filter_remove1)
    have "p \<in> set (?o (remove1 ch ps))" using p False by simp
    then have "p \<in> set (remove1 ch (?o ps))" unfolding eq .
    then have "p \<in> set (?o ps)" "p \<noteq> ch"
      using d set_remove1_subset [of ch "?o ps"] by (auto simp: distinct_map)
    moreover have "ch \<in> set (?o ps)" using ch False by simp
    ultimately have "chNamespace p \<noteq> chNamespace ch" using d by (auto simp: distinct_map dest: inj_onD)
    then have "nnNamespace (chKey ch) \<noteq> chNamespace p" by (simp add: key_of_meta_def)
    then show ?thesis using rest(2) p False by (auto simp: admissible_def w' other_keys_set)
  qed
  then show ?thesis using one rest(1) by (simp add: contract_def)
qed

context kube_api
begin

lemma Reconcile_channels:
  assumes run: "Reconcile e rq w = ((res, r), w')" and key: "serving_key (nnString e rq)"
  shows "clChannels (st w') = clChannels (st w) \<or>
    (\<exists>ch. clChannels (st w) rq = Some ch \<and> clChannels (st w') = (clChannels (st w))(rq \<mapsto> fixed_path ch))"
proof -
  obtain x w1 where get: "kGet (channels e) rq w = (x, w1)" by fastforce
  consider (missing) er where "x = Inl er" | (path) ch where "x = Inr ch" "path_fix ch" | (main) ch where "x = Inr ch" "\<not> path_fix ch"
    by (cases x) auto
  then show ?thesis
  proof cases
    case missing
    with Reconcile_missing [OF run _ key] get show ?thesis by (auto simp: marked_only_def)
  next
    case path
    with Reconcile_path(1) [OF run _ path(2)] channel_there(2) get show ?thesis by auto
  next
    case main
    then obtain c1 c2 where s: "rbac_step ch (st w) c1" "marked_only (markable rq (st w)) c1 c2" "clean_step rq c2 (st w')"
      using Reconcile_main [OF run _ _ key] get by blast
    with rbac_step_frame(2) [OF s(1)] clean_step_frame(2) [OF s(3)] show ?thesis by (simp add: marked_only_def)
  qed
qed

lemma Reconcile_other_keys:
  assumes "Reconcile e rq w = (r, w')" and "serving_key (nnString e rq)"
  shows "other_keys (st w') \<subseteq> other_keys (st w)"
proof -
  obtain res er where "r = (res, er)" by fastforce
  with Reconcile_channels [of rq w res er w'] assms show ?thesis by (auto simp: other_keys_def split: if_splits)
qed

lemma admitted_admissible:
  assumes run: "Handle e decode req w = (Allowed msg, w')" and dec: "decode req = Inr ch"
    and inv: "one_per_namespace (st w)" and ns: "chNamespace ch \<noteq> []"
  shows "admissible (st w) ch"
proof -
  have "k = chKey ch" if k: "clChannels (st w) k = Some x" "\<not> is_git x" "nnNamespace k = chNamespace ch"
    and git: "\<not> is_git ch" for k x
  proof -
    have x: "chKey x = k" using chn.keyed [OF k(1)] .
    then have "\<not> rival (st w) ch x" using Handle_allowed [OF run dec inv ns] git by blast
    then show ?thesis using k x by (auto simp: rival_def key_of_meta_def)
  qed
  then show ?thesis unfolding admissible_def other_keys_def by blast
qed

text \<open>Every move keeps the contract, or is not orderly.\<close>

lemma system_step_contract:
  assumes "system_step e decode s m s'" and "contract st s" and "orderly st s m"
  shows "contract st s'"
  using assms
proof (induction rule: system_step.induct)
  case (step_check req ch w msg w1 ps)
  have "admissible (st w) ch"
    using admitted_admissible [OF step_check(3,1) _ step_check(2)] step_check(4) by (simp add: contract_def)
  moreover have "st w1 = st w" using Handle_st [OF step_check(3)] .
  ultimately show ?case using step_check(4,5) by (auto simp: contract_def)
next
  case (step_refuse req w resp w1 ps)
  then show ?case using Handle_st [OF step_refuse(1)] by (simp add: contract_def)
next
  case (step_drop ch ps w)
  then show ?case by (simp add: contract_less)
next
  case (step_store ch ps w r w1)
  from chn.create_touches [OF step_store(2)]
  show ?case
  proof
    assume "st w1 = st w"
    then show ?thesis using contract_less [OF step_store(3), of ch] by (simp add: contract_def)
  qed (use contract_store [OF step_store(3,1)] in blast)
next
  case (step_remove ch w r2 w1 ps)
  show ?case
    by (rule contract_shrink [OF step_remove(2)]) (use chn.delete_touches [OF step_remove(1)] in \<open>auto simp: other_keys_set\<close>)
next
  case (step_change ch w r w1 ps)
  have "other_keys (st w1) \<subseteq> other_keys (st w)"
  proof (cases "st w1 = st w")
    case False
    then obtain y where y: "clChannels (st w) (chKey ch) = Some y"
      and st1: "st w1 = clChannels_update (\<lambda>m. m(chKey ch \<mapsto> ch)) (st w)"
      using chn.update_touches [OF step_change(1)] by auto
    have "is_git ch \<or> chKey ch \<in> other_keys (st w)" using step_change(3) y by (auto simp: other_keys_def)
    then show ?thesis by (auto simp: st1 other_keys_set)
  qed simp
  then show ?case by (rule contract_shrink [OF step_change(2)])
next
  case (step_reconcile rq w r3 w1 ps)
  show ?case
    by (rule contract_shrink [OF step_reconcile(3)]) (rule Reconcile_other_keys [OF step_reconcile(2,1)])
qed

lemma system_run_contract:
  assumes "system_run e decode (w0, []) tr s" and "one_per_namespace (st w0)" and "\<forall>(s, m)\<in>set tr. orderly st s m"
  shows "contract st s"
  using assms
proof (induction rule: system_run.induct)
  case run_start
  then show ?case by (simp add: contract_def)
next
  case (run_step tr s m s')
  then show ?case using system_step_contract [OF run_step(2)] by auto
qed

end

end
