(* ===== verification/Channel_Access.thy ===== *)
theory Channel_Access
  imports Channel_Sweep
begin

text \<open>
  What the agents of the managed clusters may do in the end. A role and a role binding grant nothing
  by themselves: the binding of a channel has to name the agent, refer to a role that exists in its
  namespace, and the rules of that role have to allow the request.
\<close>

section \<open>Access through a role binding\<close>

text \<open>Kubernetes RBAC, as documented, for the binding under the key \<open>k\<close>.\<close>

definition grants ::
  "cluster \<Rightarrow> NamespacedName \<Rightarrow> Subject \<Rightarrow> string \<Rightarrow> string \<Rightarrow> string \<Rightarrow> string \<Rightarrow> bool" where
  "grants c k sj verb grp res name \<longleftrightarrow> (\<exists>rb role. clRoleBindings c k = Some rb \<and> sj \<in> set (slice_list (rbSubjects rb)) \<and>
     rrAPIGroup (rbRoleRef rb) = rbacGroup \<and> rrKind (rbRoleRef rb) = ''Role'' \<and>
     clRoles c (nskey (nnNamespace k) (rrName (rbRoleRef rb))) = Some role \<and>
     rules_allow (roleRules role) verb grp res name)"

text \<open>
  What the role of a channel lets an agent do: read the channels of the namespace, whatever their names,
  and the two objects that this channel refers to.
\<close>

definition channel_reads :: "Channel \<Rightarrow> string \<Rightarrow> string \<Rightarrow> string \<Rightarrow> string \<Rightarrow> bool" where
  "channel_reads ch verb grp res name \<longleftrightarrow>
     verb \<in> {''get'', ''list'', ''watch''} \<and> grp = apiGroup \<and> res \<in> {''channels'', ''channels/status''} \<or>
     verb \<in> {''get'', ''watch''} \<and> grp = [] \<and>
       (res = ''secrets'' \<and> refers (SecretRef (chSpec ch)) name \<or>
        res = ''configmaps'' \<and> refers (ConfigMapRef (chSpec ch)) name)"

text \<open>The agents of all managed clusters, and nobody else.\<close>

definition is_agent :: "cluster \<Rightarrow> Subject \<Rightarrow> bool" where
  "is_agent c sj \<longleftrightarrow> (\<exists>k cl. clManagedClusters c k = Some cl \<and> sj \<in> set (clusterSubjects cl))"

lemma is_agent_wanted: "is_agent c sj \<longleftrightarrow> sj \<in> wanted_subjects c"
  by (auto simp: is_agent_def wanted_subjects_def ran_def)

text \<open>The binding and the role of a channel have the same key, so the binding refers to that role.\<close>

lemma channelRoleRef_key:
  "nskey (nnNamespace (chKey ch)) (rrName (channelRoleRef ch)) = chKey ch"
  "rrAPIGroup (channelRoleRef ch) = rbacGroup" "rrKind (channelRoleRef ch) = ''Role''"
  by (simp_all add: channelRoleRef_def key_of_meta_def)

lemma synced_grants:
  assumes "role_synced ch c" and "binding_synced ch c"
  shows "grants c (chKey ch) sj v g r n \<longleftrightarrow> is_agent c sj \<and> channel_reads ch v g r n"
proof -
  obtain role where role: "clRoles c (chKey ch) = Some role" "roleRules role = buildChannelRoleRules ch"
    using assms(1) by (auto simp: role_synced_def)
  obtain rb where rb: "clRoleBindings c (chKey ch) = Some rb" "rbRoleRef rb = channelRoleRef ch"
      "set (slice_list (rbSubjects rb)) = wanted_subjects c"
    using assms(2) by (auto simp: binding_synced_def binding_for_def)
  show ?thesis
    by (simp only: grants_def rb(1) option.inject ex_simps simp_thms rb(2,3) channelRoleRef_key role
        buildChannelRoleRules_allow channel_reads_def is_agent_wanted)
qed

lemma settled_grants:
  assumes "settled key ch c"
  shows "grants c (chKey ch) sj v g r n \<longleftrightarrow>
    chNamespace ch \<noteq> hub_namespace c \<and> is_agent c sj \<and> channel_reads ch v g r n"
proof (cases "chNamespace ch = hub_namespace c")
  case True
  then have "clRoleBindings c (chKey ch) = None" using assms by (simp add: settled_def)
  then show ?thesis using True by (simp add: grants_def)
next
  case False
  then show ?thesis using assms synced_grants[of ch c] by (simp add: settled_def)
qed

lemma is_agent_frame: "rest_of c' = rest_of c \<Longrightarrow> is_agent c' sj = is_agent c sj"
  using rest_of_sel(2)[of c' c] by (simp add: is_agent_wanted)

context kube_api_calm
begin

lemma Reconcile_grants:
  assumes "calm w" and "clChannels (st w) rq = Some ch" and "\<not> path_fix ch"
    and "serving_key (nnString e rq)" and "ready e ch (st w)"
  shows "snd (fst (Reconcile e rq w)) = None \<and>
    (\<forall>sj v g r n. grants (st (snd (Reconcile e rq w))) rq sj v g r n \<longleftrightarrow>
       nnNamespace rq \<noteq> hub_namespace (st w) \<and> is_agent (st w) sj \<and> channel_reads ch v g r n)"
proof -
  obtain w' where w': "Reconcile e rq w = ((\<lparr>RequeueAfter = requeuAfter\<rparr>, None), w')"
      "settled (nnString e rq) ch (st w')" "swept {rq} (st w) (st w')"
    using Reconcile_settles[OF assms] by blast
  have k: "chKey ch = rq" "chNamespace ch = nnNamespace rq"
    using chn.keyed[OF assms(2)] by (auto simp: key_of_meta_def)
  have rest: "rest_of (st w') = rest_of (st w)" using w'(3) by (simp add: swept_def)
  show ?thesis
    using settled_grants[OF w'(2)] by (simp add: w'(1) k rest_of_sel(1)[OF rest] is_agent_frame[OF rest])
qed

end

text \<open>
  A hub that cannot be listed counts as no hub: then no namespace is special, and the clean-up is skipped.
  \<open>rbac_world\<close> is the world in which a reconcile comes to \<open>validateClusterRBAC\<close>.
\<close>

definition rbac_world :: "'w Env \<Rightarrow> NamespacedName \<Rightarrow> 'w \<Rightarrow> 'w" where
  "rbac_world e rq w = snd (FindMultiClusterHubNS e (snd (kGet (channels e) rq w)))"

context kube_api
begin

lemma Reconcile_unknown_hub:
  assumes run: "Reconcile e rq w = ((res, None), w')" and ch: "clChannels (st w) rq = Some ch" and path: "\<not> path_fix ch"
    and key: "serving_key (nnString e rq)" and ns: "nnNamespace rq \<noteq> []"
    and hubs: "fst (fst (dynListHubs e mchGVR (snd (kGet (channels e) rq w)))) = None"
    and known: "\<not> clusters_unknown e (snd (setupRole e ch (rbac_world e rq w)))"
  shows "grants (st w') rq sj v g r n \<longleftrightarrow> is_agent (st w) sj \<and> channel_reads ch v g r n"
proof -
  obtain x w1 where get: "kGet (channels e) rq w = (x, w1)" by fastforce
  have "\<exists>ch'. x = Inr ch'"
  proof (cases x)
    case (Inl er)
    then have "er \<noteq> NotFound" using get chn.get_nf[of rq w w1] ch by auto
    then show ?thesis using run get Inl by (simp add: Reconcile_def Let_def)
  qed simp
  then have get': "kGet (channels e) rq w = (Inr ch, w1)" using get chn.get_ok[of rq w _ w1] ch by auto
  note t = channel_there[OF get']
  obtain mch w2 where hub: "FindMultiClusterHubNS e w1 = (mch, w2)" by fastforce
  have mch: "mch = []"
    using hub hubs get by (auto simp: FindMultiClusterHubNS_def split: prod.splits option.splits)
  have other: "chNamespace ch \<noteq> mch" using t(4) ns mch by simp
  obtain r3 w3 where v: "validateClusterRBAC e ch mch w2 = (r3, w3)" by fastforce
  obtain r4 w4 where h: "handleReferencedObjects e ch rq w3 = (r4, w4)" by fastforce
  have ok: "r3 = None" "w' = w4"
    using run get' path hub v h cleanRole_other[OF other]
    by (auto simp: Reconcile_def Let_def path_fix_def split: option.splits)
  have known': "\<not> clusters_unknown e (snd (setupRole e ch w2))" using known get hub by (simp add: rbac_world_def)
  note rb = validateClusterRBAC_step[OF v other]
  obtain c1 where "data_step srtGvk (markable rq (st w3) srtGvk) (st w3) c1" "data_step cmGvk (markable rq (st w3) cmGvk) c1 (st w4)"
    using handleReferenced_frame[OF h key] t rbac_step_frame(2)[OF conjunct1[OF rb]] hub_st[OF hub] by (auto simp: markable_def)
  note ma = data_steps_marked[OF this]
  have "role_synced ch (st w')" "binding_synced ch (st w')"
    using rb ok known' marked_only_synced[OF ma] by simp_all
  note gr = synced_grants[OF this, unfolded t(3)]
  have "rest_of (st w') = rest_of (st w)"
    using ma ok(2) rbac_step_frame(1)[OF conjunct1[OF rb]] hub_st[OF hub] t(1) by (simp add: marked_only_def)
  from gr is_agent_frame[OF this] show ?thesis by simp
qed

end

end
