(* ===== verification/Go_Heap.thy ===== *)
theory Go_Heap
  imports Channel_Types "HOL-Library.AList"
begin

text \<open>
  Go's memory, as far as the generated deep copies of \<open>pkg/apis/apps/v1\<close> need it: a store with
  one bank of cells per Go type (so a pointer never refers to a cell of another type) and fresh
  addresses above \<open>lim\<close>; pointers, maps and slices as addresses into it; \<open>new\<close>,
  \<open>make\<close>, \<open>copy\<close> and \<open>range\<close>.

  A struct that holds pointers means something only together with a store: its \<open>view\<close> gives the
  value, the addresses it reaches and when it is well formed. The locale \<open>deep_copy\<close> is the
  contract of a \<open>DeepCopyInto\<close>: the result has the same value, the old store is left alone and
  everything the result reaches is fresh. The contract carries over from a struct to pointers to it
  (\<open>cell\<close>, \<open>new_copy_ok\<close>) and from elements to slices.
\<close>

section \<open>The structs with their pointers\<close>

type_synonym addr = nat

text \<open>A slice header: the backing array, the offset of the first element and the length.\<close>

record slice_h =
  slArr :: addr
  slOff :: nat
  slLen :: nat

text \<open>The structs of channel_types.go, field by field; \<open>None\<close> is \<open>nil\<close>.\<close>

record GateS =
  gsName :: string
  gsLabelSelector :: "addr option"
  gsAnnotations :: "addr option"

record SpecS =
  ssType :: string
  ssPathname :: string
  ssInsecureSkipVerify :: bool
  ssSecretRef :: "addr option"
  ssConfigMapRef :: "addr option"
  ssGates :: "addr option"
  ssSourceNamespaces :: "slice_h option"

datatype StatusS = StatusS

record TypeMeta =
  tmKind :: string
  tmAPIVersion :: string

record 'm ChannelS =
  csStatus :: StatusS
  csObjectMeta :: 'm
  csSpec :: SpecS
  csTypeMeta :: TypeMeta

record 'l ChannelListS =
  clTypeMeta :: TypeMeta
  clListMeta :: 'l
  clItems :: "slice_h option"

section \<open>The store\<close>

text \<open>
  \<open>'s\<close>, \<open>'m\<close> and \<open>'l\<close> are the structs \<open>LabelSelector\<close>, \<open>ObjectMeta\<close> and
  \<open>ListMeta\<close> of \<open>k8s.io/apimachinery\<close>. A map's cell lists its entries in the order a
  \<open>range\<close> meets them; an array's cell lists its elements.
\<close>

record ('s, 'm, 'l) store =
  lim :: addr
  refCells :: "addr \<Rightarrow> ObjectReference"
  selCells :: "addr \<Rightarrow> 's"
  gateCells :: "addr \<Rightarrow> GateS"
  mapCells :: "addr \<Rightarrow> (string \<times> string) list"
  strArrays :: "addr \<Rightarrow> string list"
  specCells :: "addr \<Rightarrow> SpecS"
  statusCells :: "addr \<Rightarrow> StatusS"
  chanCells :: "addr \<Rightarrow> 'm ChannelS"
  chanArrays :: "addr \<Rightarrow> 'm ChannelS list"
  listCells :: "addr \<Rightarrow> 'l ChannelListS"

text \<open>Two stores agree on a set of addresses.\<close>

definition agree :: "addr set \<Rightarrow> ('s, 'm, 'l) store \<Rightarrow> ('s, 'm, 'l) store \<Rightarrow> bool" where
  "agree A h h' \<longleftrightarrow> (\<forall>a\<in>A.
     refCells h a = refCells h' a \<and> selCells h a = selCells h' a \<and> gateCells h a = gateCells h' a \<and>
     mapCells h a = mapCells h' a \<and> strArrays h a = strArrays h' a \<and> specCells h a = specCells h' a \<and>
     statusCells h a = statusCells h' a \<and> chanCells h a = chanCells h' a \<and>
     chanArrays h a = chanArrays h' a \<and> listCells h a = listCells h' a)"

lemma agree_refl [simp]: "agree A h h"
  by (simp add: agree_def)

lemma agree_trans [trans]: "agree A h h' \<Longrightarrow> agree A h' h'' \<Longrightarrow> agree A h h''"
  by (simp add: agree_def)

lemma agree_sym: "agree A h h' \<Longrightarrow> agree A h' h"
  by (auto simp: agree_def)

lemma agree_mono: "agree B h h' \<Longrightarrow> A \<subseteq> B \<Longrightarrow> agree A h h'"
  by (auto simp: agree_def)

lemma agree_lim [simp]:
  "agree A h (h'\<lparr>lim := n\<rparr>) = agree A h h'"
  "agree A (h\<lparr>lim := n\<rparr>) h' = agree A h h'"
  by (simp_all add: agree_def)

text \<open>The store grew: nothing that was allocated has changed.\<close>

definition grown :: "('s, 'm, 'l) store \<Rightarrow> ('s, 'm, 'l) store \<Rightarrow> bool" where
  "grown h h' \<longleftrightarrow> lim h \<le> lim h' \<and> agree {..<lim h} h h'"

lemma grown_refl [simp]: "grown h h"
  by (simp add: grown_def)

lemma grown_trans [trans]: "grown h h' \<Longrightarrow> grown h' h'' \<Longrightarrow> grown h h''"
  unfolding grown_def by (meson agree_mono agree_trans lessThan_subset_iff order_trans)

lemma grown_lim: "grown h h' \<Longrightarrow> lim h \<le> lim h'"
  by (simp add: grown_def)

section \<open>Views and deep copies\<close>

record ('h, 'x, 'v) view =
  vVal :: "'h \<Rightarrow> 'x \<Rightarrow> 'v"
  vReach :: "'h \<Rightarrow> 'x \<Rightarrow> addr set"
  vOk :: "'h \<Rightarrow> 'x \<Rightarrow> bool"

text \<open>Well formed in a store: no dangling address anywhere below it.\<close>

definition live :: "(('s, 'm, 'l) store, 'x, 'v) view \<Rightarrow> ('s, 'm, 'l) store \<Rightarrow> 'x \<Rightarrow> bool" where
  "live V h x \<longleftrightarrow> vOk V h x \<and> vReach V h x \<subseteq> {..<lim h}"

text \<open>What a deep copy of \<open>x\<close> leaves: the new struct \<open>fst r\<close> in the new store \<open>snd r\<close>.\<close>

definition copied ::
  "(('s, 'm, 'l) store, 'x, 'v) view \<Rightarrow> ('s, 'm, 'l) store \<Rightarrow> 'x \<Rightarrow> 'x \<times> ('s, 'm, 'l) store \<Rightarrow> bool" where
  "copied V h x r \<longleftrightarrow> grown h (snd r) \<and> vVal V (snd r) (fst r) = vVal V h x \<and> vOk V (snd r) (fst r) \<and>
     vReach V (snd r) (fst r) \<subseteq> {lim h..<lim (snd r)}"

text \<open>Value, reach and well-formedness of \<open>x\<close> are the same in both stores.\<close>

definition unmoved ::
  "(('s, 'm, 'l) store, 'x, 'v) view \<Rightarrow> ('s, 'm, 'l) store \<Rightarrow> ('s, 'm, 'l) store \<Rightarrow> 'x \<Rightarrow> bool" where
  "unmoved V h h' x \<longleftrightarrow> vVal V h' x = vVal V h x \<and> vReach V h' x = vReach V h x \<and> vOk V h' x = vOk V h x"

locale store_view =
  fixes V :: "(('s, 'm, 'l) store, 'x, 'v) view"
  assumes val_local: "agree (vReach V h x) h h' \<Longrightarrow> vVal V h' x = vVal V h x"
    and reach_local: "agree (vReach V h x) h h' \<Longrightarrow> vReach V h' x = vReach V h x"
    and ok_local: "agree (vReach V h x) h h' \<Longrightarrow> vOk V h' x = vOk V h x"
begin

lemmas local = val_local reach_local ok_local

lemma unmoved: "agree (vReach V h x) h h' \<Longrightarrow> unmoved V h h' x"
  by (simp add: unmoved_def local)

lemma live_grown:
  assumes "grown h h'" and "live V h x"
  shows "live V h' x" and "vVal V h' x = vVal V h x" and "vReach V h' x = vReach V h x"
proof -
  have "agree (vReach V h x) h h'"
    using assms by (auto simp: grown_def live_def elim: agree_mono)
  then show "live V h' x" "vVal V h' x = vVal V h x" "vReach V h' x = vReach V h x"
    using assms by (auto simp: live_def local grown_def)
qed

text \<open>The copy survives what happens later to the store.\<close>

lemma copied_grown:
  assumes "copied V h x (y, h')" and "grown h' h''"
  shows "copied V h x (y, h'')"
proof -
  have y: "live V h' y"
    using assms(1) by (auto simp: copied_def live_def)
  show ?thesis
    using assms(1) live_grown[OF assms(2) y] grown_trans[OF _ assms(2)] grown_lim[OF assms(2)]
    by (auto simp: copied_def live_def subset_iff intro: less_le_trans)
qed

text \<open>
  Copy and original are independent: they share no address, and whatever is written to addresses
  the one reaches leaves the value of the other.
\<close>

lemma copied_independent:
  assumes c: "copied V h x r" and x: "live V h x"
  shows "vReach V (snd r) x \<inter> vReach V (snd r) (fst r) = {}"
    and "agree (- vReach V (snd r) (fst r)) (snd r) h2 \<Longrightarrow> vVal V h2 x = vVal V h x"
    and "agree (- vReach V (snd r) x) (snd r) h2 \<Longrightarrow> vVal V h2 (fst r) = vVal V h x"
proof -
  have g: "grown h (snd r)"
    using c by (simp add: copied_def)
  note x' = live_grown[OF g x]
  have "vReach V (snd r) x \<subseteq> {..<lim h}" and fresh: "vReach V (snd r) (fst r) \<subseteq> {lim h..<lim (snd r)}"
    using c x unfolding x'(3) by (simp_all add: copied_def live_def)
  moreover have "{..<lim h} \<inter> {lim h..<lim (snd r)} = {}"
    by auto
  ultimately show disj: "vReach V (snd r) x \<inter> vReach V (snd r) (fst r) = {}"
    by blast
  then have sub: "vReach V (snd r) x \<subseteq> - vReach V (snd r) (fst r)"
    "vReach V (snd r) (fst r) \<subseteq> - vReach V (snd r) x"
    by blast+
  show "vVal V h2 x = vVal V h x" if "agree (- vReach V (snd r) (fst r)) (snd r) h2"
    unfolding x'(2)[symmetric] by (rule val_local[OF agree_mono[OF that sub(1)]])
  have v: "vVal V (snd r) (fst r) = vVal V h x"
    using c by (simp add: copied_def)
  show "vVal V h2 (fst r) = vVal V h x" if "agree (- vReach V (snd r) x) (snd r) h2"
    unfolding v[symmetric] by (rule val_local[OF agree_mono[OF that sub(2)]])
qed

end

lemma store_viewI:
  assumes "\<And>h x h'. agree (vReach V h x) h h' \<Longrightarrow> unmoved V h h' x"
  shows "store_view V"
  using assms by (intro store_view.intro) (auto simp: unmoved_def)

lemma agree_Un: "agree (A \<union> B) h h' \<longleftrightarrow> agree A h h' \<and> agree B h h'"
  by (auto simp: agree_def)

text \<open>The contract of a \<open>DeepCopyInto\<close>.\<close>

locale deep_copy = store_view V for V :: "(('s, 'm, 'l) store, 'x, 'v) view" +
  fixes cp :: "'x \<Rightarrow> ('s, 'm, 'l) store \<Rightarrow> 'x \<times> ('s, 'm, 'l) store"
  assumes copies: "live V h x \<Longrightarrow> copied V h x (cp x h)"
begin

text \<open>A copy made after other things were allocated.\<close>

lemma copies_later:
  assumes g: "grown h h1" and x: "live V h x" and c: "cp x h1 = (y, h2)"
  shows "copied V h x (y, h2)" and "grown h1 h2"
proof -
  have "copied V h1 x (y, h2)"
    using copies[OF live_grown(1)[OF g x]] c by simp
  then show "copied V h x (y, h2)" "grown h1 h2"
    using live_grown(2)[OF g x] grown_trans[OF g] grown_lim[OF g] by (auto simp: copied_def)
qed

end

section \<open>Values without pointers\<close>

definition plain_view :: "(('s, 'm, 'l) store, 'x, 'x) view" where
  "plain_view = \<lparr>vVal = (\<lambda>h x. x), vReach = (\<lambda>h x. {}), vOk = (\<lambda>h x. True)\<rparr>"

interpretation plain: deep_copy plain_view Pair
  by unfold_locales (simp_all add: plain_view_def copied_def)

section \<open>Pointers\<close>

text \<open>\<open>new(T)\<close>: the next free address, with the zero value in its cell.\<close>

definition put ::
  "(((addr \<Rightarrow> 'x) \<Rightarrow> addr \<Rightarrow> 'x) \<Rightarrow> ('s, 'm, 'l) store \<Rightarrow> ('s, 'm, 'l) store) \<Rightarrow>
   addr \<Rightarrow> 'x \<Rightarrow> ('s, 'm, 'l) store \<Rightarrow> ('s, 'm, 'l) store" where
  "put upd a v h = upd (\<lambda>f. f(a := v)) h"

definition new ::
  "(((addr \<Rightarrow> 'x) \<Rightarrow> addr \<Rightarrow> 'x) \<Rightarrow> ('s, 'm, 'l) store \<Rightarrow> ('s, 'm, 'l) store) \<Rightarrow>
   'x \<Rightarrow> ('s, 'm, 'l) store \<Rightarrow> addr \<times> ('s, 'm, 'l) store" where
  "new upd v h = (lim h, put upd (lim h) v (h\<lparr>lim := Suc (lim h)\<rparr>))"

text \<open>
  The pattern of every pointer the generated code follows, and of every \<open>DeepCopy\<close>: \<open>nil\<close>
  stays \<open>nil\<close>; otherwise \<open>*out = new(T)\<close> and the cell is filled from the cell of \<open>in\<close>.
\<close>

definition newCopy ::
  "(('s, 'm, 'l) store \<Rightarrow> addr \<Rightarrow> 'x) \<Rightarrow>
   (((addr \<Rightarrow> 'x) \<Rightarrow> addr \<Rightarrow> 'x) \<Rightarrow> ('s, 'm, 'l) store \<Rightarrow> ('s, 'm, 'l) store) \<Rightarrow> 'x \<Rightarrow>
   ('x \<Rightarrow> ('s, 'm, 'l) store \<Rightarrow> 'x \<times> ('s, 'm, 'l) store) \<Rightarrow>
   addr option \<Rightarrow> ('s, 'm, 'l) store \<Rightarrow> addr option \<times> ('s, 'm, 'l) store" where
  "newCopy get upd zero cp p h =
     (case p of
        None \<Rightarrow> (None, h)
      | Some a \<Rightarrow>
          let (q, h1) = new upd zero h;
              (v, h2) = cp (get h1 a) h1
          in (Some q, put upd q v h2))"

lemma newCopy_nil [simp]:
  "newCopy get upd zero cp None h = (None, h)"
  "fst (newCopy get upd zero cp p h) = None \<longleftrightarrow> p = None"
  by (simp_all add: newCopy_def split: option.split prod.split)

definition ptr_view ::
  "(('s, 'm, 'l) store \<Rightarrow> addr \<Rightarrow> 'x) \<Rightarrow> (('s, 'm, 'l) store, 'x, 'v) view \<Rightarrow>
   (('s, 'm, 'l) store, addr option, 'v option) view" where
  "ptr_view get V =
     \<lparr>vVal = (\<lambda>h. map_option (\<lambda>a. vVal V h (get h a))),
      vReach = (\<lambda>h p. case p of None \<Rightarrow> {} | Some a \<Rightarrow> insert a (vReach V h (get h a))),
      vOk = (\<lambda>h p. case p of None \<Rightarrow> True | Some a \<Rightarrow> vOk V h (get h a))\<rparr>"

text \<open>A bank of cells.\<close>

locale cell =
  fixes get :: "('s, 'm, 'l) store \<Rightarrow> addr \<Rightarrow> 'x"
    and upd :: "((addr \<Rightarrow> 'x) \<Rightarrow> addr \<Rightarrow> 'x) \<Rightarrow> ('s, 'm, 'l) store \<Rightarrow> ('s, 'm, 'l) store"
  assumes get_put: "get (put upd a v h) b = (if b = a then v else get h b)"
    and lim_put: "lim (put upd a v h) = lim h"
    and get_agree: "agree A h h' \<Longrightarrow> a \<in> A \<Longrightarrow> get h' a = get h a"
    and put_agree: "a \<notin> A \<Longrightarrow> agree A h (put upd a v h)"
begin

lemmas cell_simps = get_put lim_put put_agree


lemma new_grown:
  assumes "new upd v h = (q, h1)"
  shows "q = lim h" and "grown h h1" and "lim h1 = Suc (lim h)" and "get h1 q = v"
proof -
  have "agree {..<lim h} (h\<lparr>lim := Suc (lim h)\<rparr>) h1" if "h1 = put upd (lim h) v (h\<lparr>lim := Suc (lim h)\<rparr>)"
    unfolding that by (rule put_agree) simp
  then show "q = lim h" "grown h h1" "lim h1 = Suc (lim h)" "get h1 q = v"
    using assms by (auto simp: new_def grown_def get_put lim_put)
qed

lemma put_fresh:
  assumes "grown h0 h" and "lim h0 \<le> q"
  shows "grown h0 (put upd q v h)"
  using assms agree_trans[OF _ put_agree[of q "{..<lim h0}" h v], of h0] by (simp add: grown_def lim_put)

end

text \<open>A bank of cells whose content is copied by \<open>cp\<close>: pointers to it are copied as well.\<close>

locale cell_copy = cell get upd + deep_copy V cp
  for get :: "('s, 'm, 'l) store \<Rightarrow> addr \<Rightarrow> 'x"
    and upd :: "((addr \<Rightarrow> 'x) \<Rightarrow> addr \<Rightarrow> 'x) \<Rightarrow> ('s, 'm, 'l) store \<Rightarrow> ('s, 'm, 'l) store"
    and V :: "(('s, 'm, 'l) store, 'x, 'v) view"
    and cp :: "'x \<Rightarrow> ('s, 'm, 'l) store \<Rightarrow> 'x \<times> ('s, 'm, 'l) store"
begin

lemma ptr_local:
  assumes "agree (vReach (ptr_view get V) h p) h h'"
  shows "vVal (ptr_view get V) h' p = vVal (ptr_view get V) h p"
    and "vReach (ptr_view get V) h' p = vReach (ptr_view get V) h p"
    and "vOk (ptr_view get V) h' p = vOk (ptr_view get V) h p"
proof -
  have "agree (vReach V h (get h a)) h h' \<and> get h' a = get h a" if "p = Some a" for a
    using assms that by (auto simp: ptr_view_def intro: agree_mono get_agree)
  then show "vVal (ptr_view get V) h' p = vVal (ptr_view get V) h p"
    and "vReach (ptr_view get V) h' p = vReach (ptr_view get V) h p"
    and "vOk (ptr_view get V) h' p = vOk (ptr_view get V) h p"
    using local[of h "get h (the p)" h'] by (cases p; simp add: ptr_view_def)+
qed

lemma new_copied:
  assumes x: "live (ptr_view get V) h (Some a)"
  shows "copied (ptr_view get V) h (Some a) (newCopy get upd zero cp (Some a) h)"
proof -
  obtain q h1 where n: "new upd zero h = (q, h1)"
    by fastforce
  obtain v h2 where c: "cp (get h1 a) h1 = (v, h2)"
    by fastforce
  note new = new_grown[OF n]
  have a: "a < lim h" and live: "live V h (get h a)"
    using x by (auto simp: live_def ptr_view_def)
  have get: "get h1 a = get h a"
    using get_agree[of "{..<lim h}" h h1 a] new(2) a by (simp add: grown_def)
  have "copied V h1 (get h a) (v, h2)"
    using copies[OF live_grown(1)[OF new(2) live]] c get by simp
  then have v: "grown h1 h2" "vVal V h2 v = vVal V h (get h a)" "vOk V h2 v"
    "vReach V h2 v \<subseteq> {Suc (lim h)..<lim h2}"
    using live_grown(2)[OF new(2) live] new(3) by (auto simp: copied_def)
  let ?h3 = "put upd q v h2"
  have "agree (vReach V h2 v) h2 ?h3"
    using v(4) new(1) by (intro put_agree) auto
  note at = local[OF this]
  have "grown h ?h3"
    using put_fresh[OF grown_trans[OF new(2) v(1)]] new(1) by simp
  moreover have "q < lim h2"
    using grown_lim[OF v(1)] new by simp
  ultimately show ?thesis
    using v at new(1) by (fastforce simp: newCopy_def n c copied_def ptr_view_def cell_simps)
qed

sublocale ptr: deep_copy "ptr_view get V" "newCopy get upd zero cp" for zero
proof (unfold_locales, goal_cases)
  case (4 h p)
  then show ?case
  proof (cases p)
    case None
    then show ?thesis
      by (simp add: newCopy_def copied_def ptr_view_def)
  qed (use new_copied 4 in simp)
qed (rule ptr_local; assumption)+

end

section \<open>Slices\<close>

definition read_slice :: "'x list \<Rightarrow> slice_h \<Rightarrow> 'x list" where
  "read_slice xs s = take (slLen s) (drop (slOff s) xs)"

lemma nth_read_slice:
  "i < slLen s \<Longrightarrow> slOff s + slLen s \<le> length xs \<Longrightarrow> read_slice xs s ! i = xs ! (slOff s + i)"
  by (simp add: read_slice_def)

lemma length_read_slice: "slOff s + slLen s \<le> length xs \<Longrightarrow> length (read_slice xs s) = slLen s"
  by (simp add: read_slice_def)

definition slice_view ::
  "(('s, 'm, 'l) store \<Rightarrow> addr \<Rightarrow> 'x list) \<Rightarrow> (('s, 'm, 'l) store, 'x, 'v) view \<Rightarrow>
   (('s, 'm, 'l) store, slice_h option, 'v slice) view" where
  "slice_view get V =
     \<lparr>vVal = (\<lambda>h. map_option (\<lambda>s. map (vVal V h) (read_slice (get h (slArr s)) s))),
      vReach = (\<lambda>h s. case s of None \<Rightarrow> {} | Some s \<Rightarrow>
        insert (slArr s) (\<Union>x\<in>set (read_slice (get h (slArr s)) s). vReach V h x)),
      vOk = (\<lambda>h s. case s of None \<Rightarrow> True | Some s \<Rightarrow>
        slOff s + slLen s \<le> length (get h (slArr s)) \<and>
        (\<forall>x\<in>set (read_slice (get h (slArr s)) s). vOk V h x))\<rparr>"

text \<open>\<open>make([]T, len(in))\<close>, then element by element: \<open>in[i].DeepCopyInto(&out[i])\<close>.\<close>

definition copyElem ::
  "(('s, 'm, 'l) store \<Rightarrow> addr \<Rightarrow> 'x list) \<Rightarrow>
   (((addr \<Rightarrow> 'x list) \<Rightarrow> addr \<Rightarrow> 'x list) \<Rightarrow> ('s, 'm, 'l) store \<Rightarrow> ('s, 'm, 'l) store) \<Rightarrow>
   ('x \<Rightarrow> ('s, 'm, 'l) store \<Rightarrow> 'x \<times> ('s, 'm, 'l) store) \<Rightarrow>
   slice_h \<Rightarrow> addr \<Rightarrow> nat \<Rightarrow> ('s, 'm, 'l) store \<Rightarrow> ('s, 'm, 'l) store" where
  "copyElem get upd cp s q i h =
     (let (v, h1) = cp (get h (slArr s) ! (slOff s + i)) h
      in put upd q ((get h1 q)[i := v]) h1)"

definition makeCopy ::
  "(('s, 'm, 'l) store \<Rightarrow> addr \<Rightarrow> 'x list) \<Rightarrow>
   (((addr \<Rightarrow> 'x list) \<Rightarrow> addr \<Rightarrow> 'x list) \<Rightarrow> ('s, 'm, 'l) store \<Rightarrow> ('s, 'm, 'l) store) \<Rightarrow> 'x \<Rightarrow>
   ('x \<Rightarrow> ('s, 'm, 'l) store \<Rightarrow> 'x \<times> ('s, 'm, 'l) store) \<Rightarrow>
   slice_h option \<Rightarrow> ('s, 'm, 'l) store \<Rightarrow> slice_h option \<times> ('s, 'm, 'l) store" where
  "makeCopy get upd zero cp sl h =
     (case sl of
        None \<Rightarrow> (None, h)
      | Some s \<Rightarrow>
          let (q, h1) = new upd (replicate (slLen s) zero) h
          in (Some \<lparr>slArr = q, slOff = 0, slLen = slLen s\<rparr>,
              fold (copyElem get upd cp s q) [0..<slLen s] h1))"

text \<open>An array bank with elements that \<open>V\<close> reads.\<close>

locale array_view = cell get upd + store_view V
  for get :: "('s, 'm, 'l) store \<Rightarrow> addr \<Rightarrow> 'x list"
    and upd :: "((addr \<Rightarrow> 'x list) \<Rightarrow> addr \<Rightarrow> 'x list) \<Rightarrow> ('s, 'm, 'l) store \<Rightarrow> ('s, 'm, 'l) store"
    and V :: "(('s, 'm, 'l) store, 'x, 'v) view"
begin

lemma slice_local:
  assumes "agree (vReach (slice_view get V) h sl) h h'"
  shows "vVal (slice_view get V) h' sl = vVal (slice_view get V) h sl"
    and "vReach (slice_view get V) h' sl = vReach (slice_view get V) h sl"
    and "vOk (slice_view get V) h' sl = vOk (slice_view get V) h sl"
proof -
  have s: "get h' (slArr s) = get h (slArr s)" if "sl = Some s" for s
    using assms that by (auto simp: slice_view_def intro: get_agree)
  have x: "vVal V h' x = vVal V h x \<and> vReach V h' x = vReach V h x \<and> vOk V h' x = vOk V h x"
    if "sl = Some s" "x \<in> set (read_slice (get h (slArr s)) s)" for s x
  proof -
    have "agree (vReach V h x) h h'"
      using assms that by (auto simp: slice_view_def intro: agree_mono)
    then show ?thesis
      by (simp add: local)
  qed
  show "vVal (slice_view get V) h' sl = vVal (slice_view get V) h sl"
    and "vReach (slice_view get V) h' sl = vReach (slice_view get V) h sl"
    and "vOk (slice_view get V) h' sl = vOk (slice_view get V) h sl"
    using s x by (cases sl; simp add: slice_view_def)+
qed

sublocale slices: store_view "slice_view get V"
  by unfold_locales (rule slice_local; assumption)+

end

locale array_copy = array_view get upd V + deep_copy V cp
  for get :: "('s, 'm, 'l) store \<Rightarrow> addr \<Rightarrow> 'x list"
    and upd :: "((addr \<Rightarrow> 'x list) \<Rightarrow> addr \<Rightarrow> 'x list) \<Rightarrow> ('s, 'm, 'l) store \<Rightarrow> ('s, 'm, 'l) store"
    and V :: "(('s, 'm, 'l) store, 'x, 'v) view"
    and cp :: "'x \<Rightarrow> ('s, 'm, 'l) store \<Rightarrow> 'x \<times> ('s, 'm, 'l) store"
begin

text \<open>The loop: the elements before \<open>i\<close> are copies of those of \<open>xs\<close>.\<close>

lemma copyElems_invariant:
  assumes s: "slArr s < lim h" "slOff s + slLen s \<le> length (get h (slArr s))"
    and xs: "xs = read_slice (get h (slArr s)) s" "\<And>x. x \<in> set xs \<Longrightarrow> live V h x"
    and h1: "grown h h1" "lim h < lim h1" "length (get h1 (lim h)) = slLen s"
    and i: "i \<le> slLen s"
  defines "hi \<equiv> fold (copyElem get upd cp s (lim h)) [0..<i] h1"
  shows "grown h hi \<and> lim h < lim hi \<and> length (get hi (lim h)) = slLen s \<and>
     (\<forall>j<i. vVal V hi (get hi (lim h) ! j) = vVal V h (xs ! j) \<and> vOk V hi (get hi (lim h) ! j) \<and>
        vReach V hi (get hi (lim h) ! j) \<subseteq> {Suc (lim h)..<lim hi})"
  using i unfolding hi_def
proof (induction i)
  case 0
  then show ?case
    using h1 by simp
next
  case (Suc i)
  let ?q = "lim h" and ?h = "fold (copyElem get upd cp s (lim h)) [0..<i] h1"
  have IH: "grown h ?h" "?q < lim ?h" "length (get ?h ?q) = slLen s"
    and elems: "\<And>j. j < i \<Longrightarrow> vVal V ?h (get ?h ?q ! j) = vVal V h (xs ! j) \<and>
      vOk V ?h (get ?h ?q ! j) \<and> vReach V ?h (get ?h ?q ! j) \<subseteq> {Suc ?q..<lim ?h}"
    using Suc by auto
  obtain v h2 where c: "cp (xs ! i) ?h = (v, h2)"
    by fastforce
  have "xs ! i \<in> set xs"
    using Suc.prems s(2) by (simp add: xs(1) length_read_slice)
  note x = live_grown[OF IH(1) xs(2)[OF this]]
  have "copied V ?h (xs ! i) (v, h2)"
    using copies[OF x(1)] c by simp
  then have v: "grown ?h h2" "vVal V h2 v = vVal V h (xs ! i)" "vOk V h2 v"
    "vReach V h2 v \<subseteq> {lim ?h..<lim h2}"
    using x by (simp_all add: copied_def)
  have same: "get ?h (slArr s) = get h (slArr s)" "get h2 ?q = get ?h ?q"
    using IH s(1) v(1) get_agree[of "{..<lim h}" h ?h "slArr s"] get_agree[of "{..<lim ?h}" ?h h2 ?q]
    by (auto simp: grown_def)
  have step: "fold (copyElem get upd cp s ?q) [0..<Suc i] h1 = put upd ?q ((get h2 ?q)[i := v]) h2"
    using Suc.prems s(2) same(1) c by (simp add: copyElem_def xs(1) nth_read_slice)
  let ?h3 = "put upd ?q ((get h2 ?q)[i := v]) h2"
  have g3: "grown h ?h3"
    by (intro put_fresh grown_trans[OF IH(1) v(1)]) simp
  have lim: "lim ?h3 = lim h2" "lim ?h \<le> lim h2"
    using grown_lim[OF v(1)] by (simp_all add: lim_put)
  have elem: "vVal V ?h3 y = vVal V h2 y \<and> vOk V ?h3 y = vOk V h2 y \<and> vReach V ?h3 y = vReach V h2 y"
    if "vReach V h2 y \<subseteq> {Suc ?q..<lim h2}" for y
  proof -
    have "agree (vReach V h2 y) h2 ?h3"
      using that by (intro put_agree) auto
    then show ?thesis
      by (simp add: local)
  qed
  have old: "vVal V h2 y = vVal V ?h y \<and> vOk V h2 y = vOk V ?h y \<and> vReach V h2 y = vReach V ?h y"
    if "vOk V ?h y" "vReach V ?h y \<subseteq> {Suc ?q..<lim ?h}" for y
  proof -
    have "live V ?h y"
      using that by (auto simp: live_def)
    then show ?thesis
      using live_grown[OF v(1)] that by (simp add: live_def)
  qed
  have nth: "vVal V ?h3 (get ?h3 ?q ! j) = vVal V h (xs ! j) \<and> vOk V ?h3 (get ?h3 ?q ! j) \<and>
      vReach V ?h3 (get ?h3 ?q ! j) \<subseteq> {Suc ?q..<lim ?h3}" if "j < Suc i" for j
  proof (cases "j = i")
    case True
    have "vReach V h2 v \<subseteq> {Suc ?q..<lim h2}"
      using v(4) IH(2) by fastforce
    then show ?thesis
      using True elem[of v] v Suc.prems IH(3) same lim by (simp add: get_put)
  next
    case False
    then have "get ?h3 ?q ! j = get ?h ?q ! j"
      using same by (simp add: get_put)
    moreover note d = elems[of j] and o = old[of "get ?h ?q ! j"]
    moreover have "vReach V h2 (get ?h ?q ! j) \<subseteq> {Suc ?q..<lim h2}"
      using d o lim(2) False that by fastforce
    ultimately show ?thesis
      using elem[of "get ?h ?q ! j"] False that lim by simp
  qed
  show ?case
    unfolding step using g3 IH same lim nth by (simp add: get_put)
qed

lemma make_copied:
  assumes l: "live (slice_view get V) h (Some s)"
  shows "copied (slice_view get V) h (Some s) (makeCopy get upd zero cp (Some s) h)"
proof -
  obtain q h1 where n: "new upd (replicate (slLen s) zero) h = (q, h1)"
    by fastforce
  note new = new_grown[OF n]
  let ?xs = "read_slice (get h (slArr s)) s"
  let ?h2 = "fold (copyElem get upd cp s q) [0..<slLen s] h1"
  have s: "slArr s < lim h" "slOff s + slLen s \<le> length (get h (slArr s))"
    and xs: "\<And>x. x \<in> set ?xs \<Longrightarrow> live V h x"
    using l by (auto simp: live_def slice_view_def)
  have inv: "grown h ?h2" "lim h < lim ?h2" "length (get ?h2 q) = slLen s"
    and nth: "\<And>j. j < slLen s \<Longrightarrow> vVal V ?h2 (get ?h2 q ! j) = vVal V h (?xs ! j) \<and>
      vOk V ?h2 (get ?h2 q ! j) \<and> vReach V ?h2 (get ?h2 q ! j) \<subseteq> {Suc q..<lim ?h2}"
    using copyElems_invariant[OF s refl xs new(2), of "slLen s"] new by auto
  have rd: "read_slice (get ?h2 q) \<lparr>slArr = q, slOff = 0, slLen = slLen s\<rparr> = get ?h2 q"
    using inv(3) by (simp add: read_slice_def)
  have val: "map (vVal V ?h2) (get ?h2 q) = map (vVal V h) ?xs"
    using nth inv(3) length_read_slice[OF s(2)] by (intro nth_equalityI) auto
  have "vOk V ?h2 y \<and> vReach V ?h2 y \<subseteq> {Suc q..<lim ?h2}" if "y \<in> set (get ?h2 q)" for y
    using that nth inv(3) by (auto simp: in_set_conv_nth)
  then have "vOk V ?h2 y" "vReach V ?h2 y \<subseteq> {lim h..<lim ?h2}" if "y \<in> set (get ?h2 q)" for y
    using that new(1) by fastforce+
  then show ?thesis
    using inv new(1) val rd by (auto simp: makeCopy_def n copied_def slice_view_def)
qed

sublocale slice: deep_copy "slice_view get V" "makeCopy get upd zero cp" for zero
proof (unfold_locales, goal_cases)
  case (1 h sl)
  then show ?case
  proof (cases sl)
    case None
    then show ?thesis
      by (simp add: makeCopy_def copied_def slice_view_def)
  qed (use make_copied 1 in simp)
qed

end

section \<open>The banks of the store\<close>

interpretation refs: cell refCells refCells_update
  by unfold_locales (auto simp: put_def agree_def)

interpretation sels: cell selCells selCells_update
  by unfold_locales (auto simp: put_def agree_def)

interpretation gates: cell gateCells gateCells_update
  by unfold_locales (auto simp: put_def agree_def)

interpretation maps: cell mapCells mapCells_update
  by unfold_locales (auto simp: put_def agree_def)

interpretation strs: cell strArrays strArrays_update
  by unfold_locales (auto simp: put_def agree_def)

interpretation specs: cell specCells specCells_update
  by unfold_locales (auto simp: put_def agree_def)

interpretation statuses: cell statusCells statusCells_update
  by unfold_locales (auto simp: put_def agree_def)

interpretation chans: cell chanCells chanCells_update
  by unfold_locales (auto simp: put_def agree_def)

interpretation chanArrs: cell chanArrays chanArrays_update
  by unfold_locales (auto simp: put_def agree_def)

interpretation lists: cell listCells listCells_update
  by unfold_locales (auto simp: put_def agree_def)

section \<open>Slices of strings: \<open>copy\<close>\<close>

text \<open>
  \<open>copy(dst, src)\<close> overwrites as many elements as the shorter of the two has;
  \<open>*out = make([]string, len(*in)); copy(*out, *in)\<close>.
\<close>

definition copy_builtin :: "'x list \<Rightarrow> 'x list \<Rightarrow> 'x list" where
  "copy_builtin dst src = take (length dst) src @ drop (length src) dst"

definition copyStrings ::
  "slice_h option \<Rightarrow> ('s, 'm, 'l) store \<Rightarrow> slice_h option \<times> ('s, 'm, 'l) store" where
  "copyStrings sl h =
     (case sl of
        None \<Rightarrow> (None, h)
      | Some s \<Rightarrow>
          let (q, h1) = new strArrays_update (replicate (slLen s) '''') h
          in (Some \<lparr>slArr = q, slOff = 0, slLen = slLen s\<rparr>,
              put strArrays_update q
                (copy_builtin (strArrays h1 q) (read_slice (strArrays h1 (slArr s)) s)) h1))"

abbreviation strings_view :: "(('s, 'm, 'l) store, slice_h option, string slice) view" where
  "strings_view \<equiv> slice_view strArrays plain_view"

interpretation string_arrays: array_view strArrays strArrays_update plain_view
  by unfold_locales

interpretation string_slices: deep_copy strings_view copyStrings
proof (unfold_locales, goal_cases)
  case (1 h sl)
  then show ?case
  proof (cases sl)
    case None
    then show ?thesis
      by (simp add: copyStrings_def copied_def slice_view_def)
  next
    case (Some s)
    obtain q h1 where n: "new strArrays_update (replicate (slLen s) '''') h = (q, h1)"
      by fastforce
    note new = strs.new_grown[OF n]
    have s: "slArr s < lim h" "slOff s + slLen s \<le> length (strArrays h (slArr s))"
      using 1 Some by (auto simp: live_def slice_view_def)
    have same: "strArrays h1 (slArr s) = strArrays h (slArr s)"
      using strs.get_agree[of "{..<lim h}" h h1 "slArr s"] new(2) s(1) by (simp add: grown_def)
    have "copy_builtin (strArrays h1 q) (read_slice (strArrays h1 (slArr s)) s) =
        read_slice (strArrays h (slArr s)) s"
      using new(4) same length_read_slice[OF s(2)] by (simp add: copy_builtin_def)
    moreover have "grown h (put strArrays_update q v h1)" for v
      using strs.put_fresh[OF new(2)] new(1) by simp
    moreover have "read_slice (read_slice (strArrays h (slArr s)) s)
        \<lparr>slArr = q, slOff = 0, slLen = slLen s\<rparr> = read_slice (strArrays h (slArr s)) s"
      by (simp add: read_slice_def)
    ultimately show ?thesis
      using Some new s(2)
      by (simp add: copyStrings_def n copied_def slice_view_def plain_view_def strs.cell_simps length_read_slice)
  qed
qed

section \<open>Maps of strings: \<open>make\<close> and \<open>range\<close>\<close>

text \<open>\<open>*out = make(map[string]string); for key, val := range *in { (*out)[key] = val }\<close>.\<close>

definition insertEntry :: "addr \<Rightarrow> string \<times> string \<Rightarrow> ('s, 'm, 'l) store \<Rightarrow> ('s, 'm, 'l) store" where
  "insertEntry q e h = put mapCells_update q (AList.update (fst e) (snd e) (mapCells h q)) h"

definition copyMap :: "addr option \<Rightarrow> ('s, 'm, 'l) store \<Rightarrow> addr option \<times> ('s, 'm, 'l) store" where
  "copyMap p h =
     (case p of
        None \<Rightarrow> (None, h)
      | Some a \<Rightarrow>
          let (q, h1) = new mapCells_update [] h
          in (Some q, fold (insertEntry q) (mapCells h1 a) h1))"

definition entries_view :: "(('s, 'm, 'l) store, (string \<times> string) list, str_map) view" where
  "entries_view = \<lparr>vVal = (\<lambda>h. map_of), vReach = (\<lambda>h es. {}), vOk = (\<lambda>h es. distinct (map fst es))\<rparr>"

abbreviation map_view :: "(('s, 'm, 'l) store, addr option, str_map option) view" where
  "map_view \<equiv> ptr_view mapCells entries_view"

text \<open>Entries of a map have no pointers; the loop builds a map equal to the one it ranges over.\<close>

lemma fold_insertEntry:
  "fold (insertEntry q) es h =
   put mapCells_update q (fold (\<lambda>e. AList.update (fst e) (snd e)) es (mapCells h q)) h"
proof (induction es arbitrary: h)
  case Nil
  then show ?case
    by (simp add: put_def)
next
  case (Cons e es)
  have "put mapCells_update q v (put mapCells_update q w h) = put mapCells_update q v h" for v w
    by (simp add: put_def comp_def)
  then show ?case
    using Cons by (simp add: insertEntry_def maps.get_put)
qed

lemma fold_update_entries:
  assumes "distinct (map fst es)"
  shows "map_of (fold (\<lambda>e. AList.update (fst e) (snd e)) es m) = map_of m ++ map_of es"
    and "distinct (map fst m) \<Longrightarrow> distinct (map fst (fold (\<lambda>e. AList.update (fst e) (snd e)) es m))"
  using assms
proof (induction es arbitrary: m)
  case (Cons e es)
  case 1
  then have "map_of es (fst e) = None"
    by (simp add: map_of_eq_None_iff)
  then show ?case
    using 1 Cons(1) by (cases e) (auto simp: AList.update_conv' map_add_def fun_eq_iff split: option.split)
next
  case (Cons e es)
  case 2
  then show ?case
    using Cons(2) by (simp add: distinct_update)
qed simp_all

interpretation entries: cell_copy mapCells mapCells_update entries_view Pair
  by unfold_locales (simp_all add: entries_view_def copied_def live_def)

interpretation string_maps: deep_copy map_view copyMap
proof (unfold_locales, goal_cases)
  case (1 h p)
  then show ?case
  proof (cases p)
    case None
    then show ?thesis
      by (simp add: copyMap_def copied_def ptr_view_def)
  next
    case (Some a)
    obtain q h1 where n: "new mapCells_update [] h = (q, h1)"
      by fastforce
    note new = maps.new_grown[OF n]
    have a: "a < lim h" "distinct (map fst (mapCells h a))"
      using 1 Some by (auto simp: live_def ptr_view_def entries_view_def)
    have "mapCells h1 a = mapCells h a"
      using maps.get_agree[of "{..<lim h}" h h1 a] new(2) a(1) by (simp add: grown_def)
    moreover have "grown h (put mapCells_update q v h1)" for v
      using maps.put_fresh[OF new(2)] new(1) by simp
    ultimately show ?thesis
      using Some new a(2) fold_update_entries[OF a(2), of "[]"]
      by (simp add: copyMap_def n copied_def ptr_view_def entries_view_def fold_insertEntry maps.cell_simps)
  qed
qed

end
