(* ===== verification/Deep_Copy.thy ===== *)
theory Deep_Copy
  imports Go_Heap
begin

text \<open>
  The generated deep copies of the API types, \<open>zz_generated.deepcopy.go\<close>. A method
  \<open>(in *T) DeepCopyInto(out *T)\<close> takes the struct that \<open>in\<close> points to and gives the struct
  it writes to \<open>*out\<close> with the store after it; \<open>in\<close> and \<open>out\<close> are different structs, as
  in every call of the repository. \<open>DeepCopy\<close> and \<open>DeepCopyObject\<close> take and give pointers.

  The methods of \<open>LabelSelector\<close>, \<open>ObjectMeta\<close> and \<open>ListMeta\<close> belong to
  \<open>k8s.io/apimachinery\<close>: they are the fields of \<open>machinery\<close>, with the contract
  \<open>deep_copy\<close> as the hypothesis (locale \<open>api_machinery\<close>) under which every method
  of this file is shown to keep the same contract.
\<close>

section \<open>What apimachinery provides\<close>

record ('s, 'm, 'l) machinery =
  LabelSelector_DeepCopyInto :: "'s \<Rightarrow> ('s, 'm, 'l) store \<Rightarrow> 's \<times> ('s, 'm, 'l) store"
  ObjectMeta_DeepCopyInto :: "'m \<Rightarrow> ('s, 'm, 'l) store \<Rightarrow> 'm \<times> ('s, 'm, 'l) store"
  ListMeta_DeepCopyInto :: "'l \<Rightarrow> ('s, 'm, 'l) store \<Rightarrow> 'l \<times> ('s, 'm, 'l) store"
  zeroLabelSelector :: 's
  zeroObjectMeta :: 'm
  zeroListMeta :: 'l

section \<open>Zero values\<close>

definition zeroReference :: ObjectReference where
  "zeroReference = \<lparr>refNamespace = '''', refName = ''''\<rparr>"

definition zeroGate :: GateS where
  "zeroGate = \<lparr>gsName = '''', gsLabelSelector = None, gsAnnotations = None\<rparr>"

definition zeroSpec :: SpecS where
  "zeroSpec = \<lparr>ssType = '''', ssPathname = '''', ssInsecureSkipVerify = False, ssSecretRef = None,
     ssConfigMapRef = None, ssGates = None, ssSourceNamespaces = None\<rparr>"

definition zeroTypeMeta :: TypeMeta where
  "zeroTypeMeta = \<lparr>tmKind = '''', tmAPIVersion = ''''\<rparr>"

definition zeroChannel :: "('s, 'm, 'l) machinery \<Rightarrow> 'm ChannelS" where
  "zeroChannel M = \<lparr>csStatus = StatusS, csObjectMeta = zeroObjectMeta M, csSpec = zeroSpec,
     csTypeMeta = zeroTypeMeta\<rparr>"

definition zeroChannelList :: "('s, 'm, 'l) machinery \<Rightarrow> 'l ChannelListS" where
  "zeroChannelList M = \<lparr>clTypeMeta = zeroTypeMeta, clListMeta = zeroListMeta M, clItems = None\<rparr>"

section \<open>The methods\<close>

text \<open>\<open>ChannelGate\<close>.\<close>

definition ChannelGate_DeepCopyInto ::
  "('s, 'm, 'l) machinery \<Rightarrow> GateS \<Rightarrow> ('s, 'm, 'l) store \<Rightarrow> GateS \<times> ('s, 'm, 'l) store" where
  "ChannelGate_DeepCopyInto M src h =
     (let out = src;
          (sel, h) = newCopy selCells selCells_update (zeroLabelSelector M)
            (LabelSelector_DeepCopyInto M) (gsLabelSelector src) h;
          out = out\<lparr>gsLabelSelector := sel\<rparr>;
          (ann, h) = copyMap (gsAnnotations src) h;
          out = out\<lparr>gsAnnotations := ann\<rparr>
      in (out, h))"

definition ChannelGate_DeepCopy ::
  "('s, 'm, 'l) machinery \<Rightarrow> addr option \<Rightarrow> ('s, 'm, 'l) store \<Rightarrow> addr option \<times> ('s, 'm, 'l) store" where
  "ChannelGate_DeepCopy M = newCopy gateCells gateCells_update zeroGate (ChannelGate_DeepCopyInto M)"

text \<open>\<open>ChannelSpec\<close>; \<open>**out = **in\<close> copies a reference, which has no pointers.\<close>

definition ChannelSpec_DeepCopyInto ::
  "('s, 'm, 'l) machinery \<Rightarrow> SpecS \<Rightarrow> ('s, 'm, 'l) store \<Rightarrow> SpecS \<times> ('s, 'm, 'l) store" where
  "ChannelSpec_DeepCopyInto M src h =
     (let out = src;
          (sec, h) = newCopy refCells refCells_update zeroReference Pair (ssSecretRef src) h;
          out = out\<lparr>ssSecretRef := sec\<rparr>;
          (cm, h) = newCopy refCells refCells_update zeroReference Pair (ssConfigMapRef src) h;
          out = out\<lparr>ssConfigMapRef := cm\<rparr>;
          (gates, h) = newCopy gateCells gateCells_update zeroGate (ChannelGate_DeepCopyInto M)
            (ssGates src) h;
          out = out\<lparr>ssGates := gates\<rparr>;
          (nss, h) = copyStrings (ssSourceNamespaces src) h;
          out = out\<lparr>ssSourceNamespaces := nss\<rparr>
      in (out, h))"

definition ChannelSpec_DeepCopy ::
  "('s, 'm, 'l) machinery \<Rightarrow> addr option \<Rightarrow> ('s, 'm, 'l) store \<Rightarrow> addr option \<times> ('s, 'm, 'l) store" where
  "ChannelSpec_DeepCopy M = newCopy specCells specCells_update zeroSpec (ChannelSpec_DeepCopyInto M)"

text \<open>\<open>ChannelStatus\<close>, an empty struct.\<close>

definition ChannelStatus_DeepCopyInto ::
  "StatusS \<Rightarrow> ('s, 'm, 'l) store \<Rightarrow> StatusS \<times> ('s, 'm, 'l) store" where
  "ChannelStatus_DeepCopyInto src h = (src, h)"

definition ChannelStatus_DeepCopy ::
  "addr option \<Rightarrow> ('s, 'm, 'l) store \<Rightarrow> addr option \<times> ('s, 'm, 'l) store" where
  "ChannelStatus_DeepCopy = newCopy statusCells statusCells_update StatusS ChannelStatus_DeepCopyInto"

text \<open>\<open>Channel\<close>.\<close>

definition Channel_DeepCopyInto ::
  "('s, 'm, 'l) machinery \<Rightarrow> 'm ChannelS \<Rightarrow> ('s, 'm, 'l) store \<Rightarrow> 'm ChannelS \<times> ('s, 'm, 'l) store" where
  "Channel_DeepCopyInto M src h =
     (let out = src;
          out = out\<lparr>csTypeMeta := csTypeMeta src\<rparr>;
          (om, h) = ObjectMeta_DeepCopyInto M (csObjectMeta src) h;
          out = out\<lparr>csObjectMeta := om\<rparr>;
          (sp, h) = ChannelSpec_DeepCopyInto M (csSpec src) h;
          out = out\<lparr>csSpec := sp\<rparr>;
          out = out\<lparr>csStatus := csStatus src\<rparr>
      in (out, h))"

definition Channel_DeepCopy ::
  "('s, 'm, 'l) machinery \<Rightarrow> addr option \<Rightarrow> ('s, 'm, 'l) store \<Rightarrow> addr option \<times> ('s, 'm, 'l) store" where
  "Channel_DeepCopy M = newCopy chanCells chanCells_update (zeroChannel M) (Channel_DeepCopyInto M)"

text \<open>\<open>ChannelList\<close>.\<close>

definition ChannelList_DeepCopyInto ::
  "('s, 'm, 'l) machinery \<Rightarrow> 'l ChannelListS \<Rightarrow> ('s, 'm, 'l) store \<Rightarrow>
   'l ChannelListS \<times> ('s, 'm, 'l) store" where
  "ChannelList_DeepCopyInto M src h =
     (let out = src;
          out = out\<lparr>clTypeMeta := clTypeMeta src\<rparr>;
          (lm, h) = ListMeta_DeepCopyInto M (clListMeta src) h;
          out = out\<lparr>clListMeta := lm\<rparr>;
          (items, h) = makeCopy chanArrays chanArrays_update (zeroChannel M) (Channel_DeepCopyInto M)
            (clItems src) h;
          out = out\<lparr>clItems := items\<rparr>
      in (out, h))"

definition ChannelList_DeepCopy ::
  "('s, 'm, 'l) machinery \<Rightarrow> addr option \<Rightarrow> ('s, 'm, 'l) store \<Rightarrow> addr option \<times> ('s, 'm, 'l) store" where
  "ChannelList_DeepCopy M =
     newCopy listCells listCells_update (zeroChannelList M) (ChannelList_DeepCopyInto M)"

text \<open>
  A value of the interface \<open>runtime.Object\<close>: \<open>None\<close> is the \<open>nil\<close> interface; an
  interface that holds a \<open>nil\<close> pointer would be \<open>Some (ChannelObject None)\<close>, which is
  not equal to \<open>nil\<close> in Go.
\<close>

datatype runtime_Object = ChannelObject "addr option" | ChannelListObject "addr option"

definition Channel_DeepCopyObject ::
  "('s, 'm, 'l) machinery \<Rightarrow> addr option \<Rightarrow> ('s, 'm, 'l) store \<Rightarrow>
   runtime_Object option \<times> ('s, 'm, 'l) store" where
  "Channel_DeepCopyObject M src h =
     (let (c, h) = Channel_DeepCopy M src h
      in if c \<noteq> None then (Some (ChannelObject c), h) else (None, h))"

definition ChannelList_DeepCopyObject ::
  "('s, 'm, 'l) machinery \<Rightarrow> addr option \<Rightarrow> ('s, 'm, 'l) store \<Rightarrow>
   runtime_Object option \<times> ('s, 'm, 'l) store" where
  "ChannelList_DeepCopyObject M src h =
     (let (c, h) = ChannelList_DeepCopy M src h
      in if c \<noteq> None then (Some (ChannelListObject c), h) else (None, h))"

section \<open>The values the structs stand for\<close>

text \<open>
  The views of the three foreign structs; an \<open>ObjectMeta\<close> stands for the metadata of
  \<open>Channel_Types\<close> and the UID, a \<open>ListMeta\<close> for whatever \<open>'lv\<close> is.
\<close>

record ('s, 'm, 'l, 'lv) views =
  selView :: "(('s, 'm, 'l) store, 's, LabelSelector) view"
  metaView :: "(('s, 'm, 'l) store, 'm, ObjectMeta \<times> string) view"
  listMetaView :: "(('s, 'm, 'l) store, 'l, 'lv) view"

abbreviation sel_ptr where
  "sel_ptr W \<equiv> ptr_view selCells (selView W)"

abbreviation ref_ptr where
  "ref_ptr \<equiv> ptr_view refCells plain_view"

definition gate_view :: "('s, 'm, 'l, 'lv) views \<Rightarrow> (('s, 'm, 'l) store, GateS, ChannelGate) view" where
  "gate_view W =
     \<lparr>vVal = (\<lambda>h g. \<lparr>gateName = gsName g, gateLabelSelector = vVal (sel_ptr W) h (gsLabelSelector g),
        gateAnnotations = vVal map_view h (gsAnnotations g)\<rparr>),
      vReach = (\<lambda>h g. vReach (sel_ptr W) h (gsLabelSelector g) \<union> vReach map_view h (gsAnnotations g)),
      vOk = (\<lambda>h g. vOk (sel_ptr W) h (gsLabelSelector g) \<and> vOk map_view h (gsAnnotations g))\<rparr>"

abbreviation gate_ptr where
  "gate_ptr W \<equiv> ptr_view gateCells (gate_view W)"

definition spec_view :: "('s, 'm, 'l, 'lv) views \<Rightarrow> (('s, 'm, 'l) store, SpecS, ChannelSpec) view" where
  "spec_view W =
     \<lparr>vVal = (\<lambda>h s. \<lparr>spType = ssType s, Pathname = ssPathname s,
        InsecureSkipVerify = ssInsecureSkipVerify s, SecretRef = vVal ref_ptr h (ssSecretRef s),
        ConfigMapRef = vVal ref_ptr h (ssConfigMapRef s), Gates = vVal (gate_ptr W) h (ssGates s),
        SourceNamespaces = vVal strings_view h (ssSourceNamespaces s)\<rparr>),
      vReach = (\<lambda>h s. vReach ref_ptr h (ssSecretRef s) \<union> vReach ref_ptr h (ssConfigMapRef s) \<union>
        vReach (gate_ptr W) h (ssGates s) \<union> vReach strings_view h (ssSourceNamespaces s)),
      vOk = (\<lambda>h s. vOk ref_ptr h (ssSecretRef s) \<and> vOk ref_ptr h (ssConfigMapRef s) \<and>
        vOk (gate_ptr W) h (ssGates s) \<and> vOk strings_view h (ssSourceNamespaces s))\<rparr>"

definition channel_view ::
  "('s, 'm, 'l, 'lv) views \<Rightarrow> (('s, 'm, 'l) store, 'm ChannelS, TypeMeta \<times> Channel) view" where
  "channel_view W =
     \<lparr>vVal = (\<lambda>h c. (csTypeMeta c,
        \<lparr>chMeta = fst (vVal (metaView W) h (csObjectMeta c)),
         chUID = snd (vVal (metaView W) h (csObjectMeta c)),
         chSpec = vVal (spec_view W) h (csSpec c)\<rparr>)),
      vReach = (\<lambda>h c. vReach (metaView W) h (csObjectMeta c) \<union> vReach (spec_view W) h (csSpec c)),
      vOk = (\<lambda>h c. vOk (metaView W) h (csObjectMeta c) \<and> vOk (spec_view W) h (csSpec c))\<rparr>"

abbreviation channel_slice where
  "channel_slice W \<equiv> slice_view chanArrays (channel_view W)"

definition list_view ::
  "('s, 'm, 'l, 'lv) views \<Rightarrow>
   (('s, 'm, 'l) store, 'l ChannelListS, TypeMeta \<times> 'lv \<times> (TypeMeta \<times> Channel) slice) view" where
  "list_view W =
     \<lparr>vVal = (\<lambda>h l. (clTypeMeta l, vVal (listMetaView W) h (clListMeta l),
        vVal (channel_slice W) h (clItems l))),
      vReach = (\<lambda>h l. vReach (listMetaView W) h (clListMeta l) \<union> vReach (channel_slice W) h (clItems l)),
      vOk = (\<lambda>h l. vOk (listMetaView W) h (clListMeta l) \<and> vOk (channel_slice W) h (clItems l))\<rparr>"

section \<open>The contract of every method\<close>

interpretation ref_cells: cell_copy refCells refCells_update plain_view Pair
  by unfold_locales

text \<open>A view made of views of the parts is local when they are.\<close>

lemma gate_unmoved:
  "unmoved (sel_ptr W) h h' (gsLabelSelector g) \<Longrightarrow> unmoved map_view h h' (gsAnnotations g) \<Longrightarrow>
   unmoved (gate_view W) h h' g"
  by (simp add: unmoved_def gate_view_def)

lemma spec_unmoved:
  "unmoved ref_ptr h h' (ssSecretRef s) \<Longrightarrow> unmoved ref_ptr h h' (ssConfigMapRef s) \<Longrightarrow>
   unmoved (gate_ptr W) h h' (ssGates s) \<Longrightarrow> unmoved strings_view h h' (ssSourceNamespaces s) \<Longrightarrow>
   unmoved (spec_view W) h h' s"
  by (simp add: unmoved_def spec_view_def)

lemma channel_unmoved:
  "unmoved (metaView W) h h' (csObjectMeta c) \<Longrightarrow> unmoved (spec_view W) h h' (csSpec c) \<Longrightarrow>
   unmoved (channel_view W) h h' c"
  by (simp add: unmoved_def channel_view_def)

lemma list_unmoved:
  "unmoved (listMetaView W) h h' (clListMeta l) \<Longrightarrow> unmoved (channel_slice W) h h' (clItems l) \<Longrightarrow>
   unmoved (list_view W) h h' l"
  by (simp add: unmoved_def list_view_def)

lemma reach_simps:
  "vReach (gate_view W) h g = vReach (sel_ptr W) h (gsLabelSelector g) \<union> vReach map_view h (gsAnnotations g)"
  "vReach (spec_view W) h s = vReach ref_ptr h (ssSecretRef s) \<union> vReach ref_ptr h (ssConfigMapRef s) \<union>
     vReach (gate_ptr W) h (ssGates s) \<union> vReach strings_view h (ssSourceNamespaces s)"
  "vReach (channel_view W) h c = vReach (metaView W) h (csObjectMeta c) \<union> vReach (spec_view W) h (csSpec c)"
  "vReach (list_view W) h l = vReach (listMetaView W) h (clListMeta l) \<union> vReach (channel_slice W) h (clItems l)"
  by (simp_all add: gate_view_def spec_view_def channel_view_def list_view_def)

text \<open>A struct is live when its parts are, and copied when its parts are.\<close>

lemma live_parts:
  "live (gate_view W) h g \<longleftrightarrow> live (sel_ptr W) h (gsLabelSelector g) \<and> live map_view h (gsAnnotations g)"
  "live (spec_view W) h s \<longleftrightarrow> live ref_ptr h (ssSecretRef s) \<and> live ref_ptr h (ssConfigMapRef s) \<and>
     live (gate_ptr W) h (ssGates s) \<and> live strings_view h (ssSourceNamespaces s)"
  "live (channel_view W) h c \<longleftrightarrow> live (metaView W) h (csObjectMeta c) \<and> live (spec_view W) h (csSpec c)"
  "live (list_view W) h l \<longleftrightarrow> live (listMetaView W) h (clListMeta l) \<and> live (channel_slice W) h (clItems l)"
  by (auto simp: live_def gate_view_def spec_view_def channel_view_def list_view_def)

lemma gate_copied:
  "copied (sel_ptr W) h (gsLabelSelector g) (s, h') \<Longrightarrow> copied map_view h (gsAnnotations g) (a, h') \<Longrightarrow>
   copied (gate_view W) h g (g\<lparr>gsLabelSelector := s, gsAnnotations := a\<rparr>, h')"
  by (simp add: copied_def gate_view_def)

lemma spec_copied:
  "copied ref_ptr h (ssSecretRef s) (sec, h') \<Longrightarrow> copied ref_ptr h (ssConfigMapRef s) (cm, h') \<Longrightarrow>
   copied (gate_ptr W) h (ssGates s) (g, h') \<Longrightarrow> copied strings_view h (ssSourceNamespaces s) (ns, h') \<Longrightarrow>
   copied (spec_view W) h s
     (s\<lparr>ssSecretRef := sec, ssConfigMapRef := cm, ssGates := g, ssSourceNamespaces := ns\<rparr>, h')"
  by (simp add: copied_def spec_view_def)

lemma channel_copied:
  "copied (metaView W) h (csObjectMeta c) (m, h') \<Longrightarrow> copied (spec_view W) h (csSpec c) (s, h') \<Longrightarrow>
   copied (channel_view W) h c (c\<lparr>csObjectMeta := m, csSpec := s\<rparr>, h')"
  by (simp add: copied_def channel_view_def)

lemma list_copied:
  "copied (listMetaView W) h (clListMeta l) (m, h') \<Longrightarrow> copied (channel_slice W) h (clItems l) (s, h') \<Longrightarrow>
   copied (list_view W) h l (l\<lparr>clListMeta := m, clItems := s\<rparr>, h')"
  by (simp add: copied_def list_view_def)

locale api_machinery =
  sel: deep_copy "selView W" "LabelSelector_DeepCopyInto M" +
  meta: deep_copy "metaView W" "ObjectMeta_DeepCopyInto M" +
  lmeta: deep_copy "listMetaView W" "ListMeta_DeepCopyInto M"
  for M :: "('s, 'm, 'l) machinery" and W :: "('s, 'm, 'l, 'lv) views"
begin

sublocale sel_cells: cell_copy selCells selCells_update "selView W" "LabelSelector_DeepCopyInto M"
  by unfold_locales

sublocale gate: deep_copy "gate_view W" "ChannelGate_DeepCopyInto M"
proof (intro deep_copy.intro store_viewI deep_copy_axioms.intro)
  show "unmoved (gate_view W) h h' g" if "agree (vReach (gate_view W) h g) h h'" for h h' g
    using that by (simp add: reach_simps agree_Un gate_unmoved sel_cells.ptr.unmoved entries.ptr.unmoved)
next
  fix h g
  assume "live (gate_view W) h g"
  then have sel: "live (sel_ptr W) h (gsLabelSelector g)" and ann: "live map_view h (gsAnnotations g)"
    by (simp_all add: live_parts)
  obtain s h1 where 1: "newCopy selCells selCells_update (zeroLabelSelector M)
      (LabelSelector_DeepCopyInto M) (gsLabelSelector g) h = (s, h1)"
    by fastforce
  obtain a h2 where 2: "copyMap (gsAnnotations g) h1 = (a, h2)"
    by fastforce
  note s = sel_cells.ptr.copies_later[OF grown_refl sel 1]
  note a = string_maps.copies_later[OF s(2) ann 2]
  show "copied (gate_view W) h g (ChannelGate_DeepCopyInto M g h)"
    using gate_copied[OF sel_cells.ptr.copied_grown[OF s(1) a(2)] a(1)]
    by (simp add: ChannelGate_DeepCopyInto_def 1 2)
qed

sublocale gate_cells: cell_copy gateCells gateCells_update "gate_view W" "ChannelGate_DeepCopyInto M"
  by unfold_locales

sublocale spec: deep_copy "spec_view W" "ChannelSpec_DeepCopyInto M"
proof (intro deep_copy.intro store_viewI deep_copy_axioms.intro)
  show "unmoved (spec_view W) h h' s" if "agree (vReach (spec_view W) h s) h h'" for h h' s
    using that by (simp add: reach_simps agree_Un spec_unmoved ref_cells.ptr.unmoved gate_cells.ptr.unmoved
        string_arrays.slices.unmoved)
next
  fix h s
  assume "live (spec_view W) h s"
  then have live: "live ref_ptr h (ssSecretRef s)" "live ref_ptr h (ssConfigMapRef s)"
      "live (gate_ptr W) h (ssGates s)" "live strings_view h (ssSourceNamespaces s)"
    by (simp_all add: live_parts)
  obtain sec h1 where 1: "newCopy refCells refCells_update zeroReference Pair (ssSecretRef s) h = (sec, h1)"
    by fastforce
  obtain cm h2 where 2: "newCopy refCells refCells_update zeroReference Pair (ssConfigMapRef s) h1 = (cm, h2)"
    by fastforce
  obtain g h3 where 3: "newCopy gateCells gateCells_update zeroGate (ChannelGate_DeepCopyInto M)
      (ssGates s) h2 = (g, h3)"
    by fastforce
  obtain ns h4 where 4: "copyStrings (ssSourceNamespaces s) h3 = (ns, h4)"
    by fastforce
  note c1 = ref_cells.ptr.copies_later[OF grown_refl live(1) 1]
  note c2 = ref_cells.ptr.copies_later[OF c1(2) live(2) 2]
  note g2 = grown_trans[OF c1(2) c2(2)]
  note c3 = gate_cells.ptr.copies_later[OF g2 live(3) 3]
  note c4 = string_slices.copies_later[OF grown_trans[OF g2 c3(2)] live(4) 4]
  note later = grown_trans[OF c3(2) c4(2)]
  show "copied (spec_view W) h s (ChannelSpec_DeepCopyInto M s h)"
    using spec_copied[OF ref_cells.ptr.copied_grown[OF c1(1) grown_trans[OF c2(2) later]]
        ref_cells.ptr.copied_grown[OF c2(1) later] gate_cells.ptr.copied_grown[OF c3(1) c4(2)] c4(1)]
    by (simp add: ChannelSpec_DeepCopyInto_def 1 2 3 4)
qed

sublocale channel: deep_copy "channel_view W" "Channel_DeepCopyInto M"
proof (intro deep_copy.intro store_viewI deep_copy_axioms.intro)
  show "unmoved (channel_view W) h h' c" if "agree (vReach (channel_view W) h c) h h'" for h h' c
    using that by (simp add: reach_simps(3) agree_Un channel_unmoved meta.unmoved spec.unmoved)
next
  fix h c
  assume "live (channel_view W) h c"
  then have live: "live (metaView W) h (csObjectMeta c)" "live (spec_view W) h (csSpec c)"
    by (simp_all add: live_parts(3))
  obtain m h1 where 1: "ObjectMeta_DeepCopyInto M (csObjectMeta c) h = (m, h1)"
    by fastforce
  obtain s h2 where 2: "ChannelSpec_DeepCopyInto M (csSpec c) h1 = (s, h2)"
    by fastforce
  note c1 = meta.copies_later[OF grown_refl live(1) 1]
  note c2 = spec.copies_later[OF c1(2) live(2) 2]
  show "copied (channel_view W) h c (Channel_DeepCopyInto M c h)"
    using channel_copied[OF meta.copied_grown[OF c1(1) c2(2)] c2(1)]
    by (simp add: Channel_DeepCopyInto_def 1 2)
qed

sublocale chan_cells: cell_copy chanCells chanCells_update "channel_view W" "Channel_DeepCopyInto M"
  by unfold_locales

sublocale chan_arrays: array_copy chanArrays chanArrays_update "channel_view W" "Channel_DeepCopyInto M"
  by unfold_locales

sublocale chan_list: deep_copy "list_view W" "ChannelList_DeepCopyInto M"
proof (intro deep_copy.intro store_viewI deep_copy_axioms.intro)
  show "unmoved (list_view W) h h' l" if "agree (vReach (list_view W) h l) h h'" for h h' l
    using that by (simp add: reach_simps(4) agree_Un list_unmoved lmeta.unmoved chan_arrays.slices.unmoved)
next
  fix h l
  assume "live (list_view W) h l"
  then have live: "live (listMetaView W) h (clListMeta l)" "live (channel_slice W) h (clItems l)"
    by (simp_all add: live_parts(4))
  obtain m h1 where 1: "ListMeta_DeepCopyInto M (clListMeta l) h = (m, h1)"
    by fastforce
  obtain s h2 where 2: "makeCopy chanArrays chanArrays_update (zeroChannel M) (Channel_DeepCopyInto M)
      (clItems l) h1 = (s, h2)"
    by fastforce
  note c1 = lmeta.copies_later[OF grown_refl live(1) 1]
  note c2 = chan_arrays.slice.copies_later[OF c1(2) live(2) 2]
  show "copied (list_view W) h l (ChannelList_DeepCopyInto M l h)"
    using list_copied[OF lmeta.copied_grown[OF c1(1) c2(2)] c2(1)]
    by (simp add: ChannelList_DeepCopyInto_def 1 2)
qed

sublocale list_cells: cell_copy listCells listCells_update "list_view W" "ChannelList_DeepCopyInto M"
  by unfold_locales

end

section \<open>An instance\<close>

text \<open>
  A small apimachinery: metadata with its two maps in the store, selectors and list metadata
  without pointers.
\<close>

record MetaS =
  msNamespace :: string
  msName :: string
  msUID :: string
  msLabels :: "addr option"
  msAnnotations :: "addr option"

type_synonym mem_store = "(LabelSelector, MetaS, string) store"

definition memMeta_DeepCopyInto :: "MetaS \<Rightarrow> mem_store \<Rightarrow> MetaS \<times> mem_store" where
  "memMeta_DeepCopyInto src h =
     (let (ls, h) = copyMap (msLabels src) h; (as, h) = copyMap (msAnnotations src) h
      in (src\<lparr>msLabels := ls, msAnnotations := as\<rparr>, h))"

definition memMachinery :: "(LabelSelector, MetaS, string) machinery" where
  "memMachinery = \<lparr>LabelSelector_DeepCopyInto = Pair, ObjectMeta_DeepCopyInto = memMeta_DeepCopyInto,
     ListMeta_DeepCopyInto = Pair, zeroLabelSelector = \<lparr>MatchLabels = [], MatchExpressions = []\<rparr>,
     zeroObjectMeta = \<lparr>msNamespace = '''', msName = '''', msUID = '''', msLabels = None,
       msAnnotations = None\<rparr>, zeroListMeta = ''''\<rparr>"

definition memMeta_view :: "(mem_store, MetaS, ObjectMeta \<times> string) view" where
  "memMeta_view =
     \<lparr>vVal = (\<lambda>h m.
        (\<lparr>omNamespace = msNamespace m, omName = msName m,
          omLabels = (case vVal map_view h (msLabels m) of None \<Rightarrow> Map.empty | Some f \<Rightarrow> f),
          omAnnotations = (case vVal map_view h (msAnnotations m) of None \<Rightarrow> Map.empty | Some f \<Rightarrow> f),
          omOwnerReferences = []\<rparr>, msUID m)),
      vReach = (\<lambda>h m. vReach map_view h (msLabels m) \<union> vReach map_view h (msAnnotations m)),
      vOk = (\<lambda>h m. vOk map_view h (msLabels m) \<and> vOk map_view h (msAnnotations m))\<rparr>"

definition memViews :: "(LabelSelector, MetaS, string, string) views" where
  "memViews = \<lparr>selView = plain_view, metaView = memMeta_view, listMetaView = plain_view\<rparr>"

lemma memMeta_deep_copy: "deep_copy memMeta_view memMeta_DeepCopyInto"
proof (intro deep_copy.intro store_viewI deep_copy_axioms.intro)
  fix h m h'
  assume "agree (vReach memMeta_view h m) h h'"
  then have "unmoved map_view h h' (msLabels m)" "unmoved map_view h h' (msAnnotations m)"
    by (simp_all add: memMeta_view_def agree_Un entries.ptr.unmoved)
  then show "unmoved memMeta_view h h' m"
    by (simp add: memMeta_view_def unmoved_def)
next
  fix h m
  assume "live memMeta_view h m"
  then have live: "live map_view h (msLabels m)" "live map_view h (msAnnotations m)"
    by (simp_all add: memMeta_view_def live_def)
  obtain ls h1 where 1: "copyMap (msLabels m) h = (ls, h1)"
    by fastforce
  obtain as h2 where 2: "copyMap (msAnnotations m) h1 = (as, h2)"
    by fastforce
  note c1 = string_maps.copies_later[OF grown_refl live(1) 1]
  note c2 = string_maps.copies_later[OF c1(2) live(2) 2]
  show "copied memMeta_view h m (memMeta_DeepCopyInto m h)"
    using entries.ptr.copied_grown[OF c1(1) c2(2)] c2(1)
    by (simp add: memMeta_DeepCopyInto_def 1 2 memMeta_view_def copied_def)
qed

interpretation mem_machinery: api_machinery memMachinery memViews
  by (intro api_machinery.intro)
    (simp_all add: memMachinery_def memViews_def memMeta_deep_copy plain.deep_copy_axioms)

text \<open>A channel with labels, a Secret reference and two source namespaces, and a list of it.\<close>

definition ex_channelS :: "MetaS ChannelS" where
  "ex_channelS = \<lparr>csStatus = StatusS,
     csObjectMeta = \<lparr>msNamespace = ''ns1'', msName = ''ch1'', msUID = ''u1'', msLabels = Some 0,
       msAnnotations = None\<rparr>,
     csSpec = zeroSpec\<lparr>ssSecretRef := Some 1,
       ssSourceNamespaces := Some \<lparr>slArr = 2, slOff = 1, slLen = 1\<rparr>\<rparr>,
     csTypeMeta = \<lparr>tmKind = ''Channel'', tmAPIVersion = ''v1''\<rparr>\<rparr>"

definition ex_store :: mem_store where
  "ex_store = \<lparr>lim = 6,
     refCells = (\<lambda>a. \<lparr>refNamespace = ''ns1'', refName = ''s''\<rparr>),
     selCells = (\<lambda>a. \<lparr>MatchLabels = [], MatchExpressions = []\<rparr>),
     gateCells = (\<lambda>a. zeroGate),
     mapCells = (\<lambda>a. if a = 0 then [(''a'', ''1''), (''b'', ''2'')] else []),
     strArrays = (\<lambda>a. if a = 2 then [''x'', ''y''] else []),
     specCells = (\<lambda>a. zeroSpec),
     statusCells = (\<lambda>a. StatusS),
     chanCells = (\<lambda>a. if a = 3 then ex_channelS else zeroChannel memMachinery),
     chanArrays = (\<lambda>a. if a = 4 then [ex_channelS] else []),
     listCells = (\<lambda>a. if a = 5
       then \<lparr>clTypeMeta = \<lparr>tmKind = ''ChannelList'', tmAPIVersion = ''v1''\<rparr>, clListMeta = ''7'',
              clItems = Some \<lparr>slArr = 4, slOff = 0, slLen = 1\<rparr>\<rparr>
       else zeroChannelList memMachinery)\<rparr>"

abbreviation channel_ptr where
  "channel_ptr W \<equiv> ptr_view chanCells (channel_view W)"

abbreviation list_ptr where
  "list_ptr W \<equiv> ptr_view listCells (list_view W)"

lemmas ex_live_defs = live_def ptr_view_def slice_view_def read_slice_def plain_view_def entries_view_def
  channel_view_def spec_view_def list_view_def memViews_def memMeta_view_def ex_store_def
  ex_channelS_def zeroSpec_def

lemma ex_channel_live: "live (channel_ptr memViews) ex_store (Some 3)"
  by (simp add: ex_live_defs)

lemma ex_list_live: "live (list_ptr memViews) ex_store (Some 5)"
  by (simp add: ex_live_defs)

section \<open>What the callers may rely on\<close>

abbreviation spec_ptr where
  "spec_ptr W \<equiv> ptr_view specCells (spec_view W)"

abbreviation status_ptr where
  "status_ptr \<equiv> ptr_view statusCells plain_view"

interpretation status_cells: cell_copy statusCells statusCells_update plain_view ChannelStatus_DeepCopyInto
  by unfold_locales (simp add: ChannelStatus_DeepCopyInto_def copied_def plain_view_def)

lemmas deep_copy_defs = ChannelGate_DeepCopy_def ChannelSpec_DeepCopy_def ChannelStatus_DeepCopy_def
  Channel_DeepCopy_def ChannelList_DeepCopy_def

lemma DeepCopy_nil [simp]:
  "fst (ChannelGate_DeepCopy M p h) = None \<longleftrightarrow> p = None"
  "fst (ChannelSpec_DeepCopy M p h) = None \<longleftrightarrow> p = None"
  "fst (ChannelStatus_DeepCopy p h) = None \<longleftrightarrow> p = None"
  "fst (Channel_DeepCopy M p h) = None \<longleftrightarrow> p = None"
  "fst (ChannelList_DeepCopy M p h) = None \<longleftrightarrow> p = None"
  by (simp_all add: deep_copy_defs)

context api_machinery
begin

sublocale spec_cells: cell_copy specCells specCells_update "spec_view W" "ChannelSpec_DeepCopyInto M"
  by unfold_locales

lemma DeepCopy_copies:
  "live (gate_ptr W) h g \<Longrightarrow> copied (gate_ptr W) h g (ChannelGate_DeepCopy M g h)"
  "live (spec_ptr W) h s \<Longrightarrow> copied (spec_ptr W) h s (ChannelSpec_DeepCopy M s h)"
  "live (channel_ptr W) h c \<Longrightarrow> copied (channel_ptr W) h c (Channel_DeepCopy M c h)"
  "live (list_ptr W) h l \<Longrightarrow> copied (list_ptr W) h l (ChannelList_DeepCopy M l h)"
  by (simp_all add: deep_copy_defs gate_cells.ptr.copies spec_cells.ptr.copies chan_cells.ptr.copies
      list_cells.ptr.copies)

lemmas DeepCopy_independent =
  chan_cells.ptr.copied_independent[OF DeepCopy_copies(3)]
  list_cells.ptr.copied_independent[OF DeepCopy_copies(4)]

end

lemma ChannelStatus_DeepCopy_copies:
  "live status_ptr h s \<Longrightarrow> copied status_ptr h s (ChannelStatus_DeepCopy s h)"
  by (simp add: ChannelStatus_DeepCopy_def status_cells.ptr.copies)

lemma copied_live: "copied V h x r \<Longrightarrow> live V (snd r) (fst r)"
  by (auto simp: copied_def live_def)

text \<open>
  C22. Whatever well-formed pointer it is called on, and whatever apimachinery does within its
  contract, each of the five \<open>DeepCopy\<close> methods gives \<open>nil\<close> exactly for \<open>nil\<close>, a
  struct that stands for the same value in which every address is freshly allocated, and a store in
  which no cell that existed has changed.
\<close>

theorem deep_copies_equal:
  assumes "api_machinery M W"
    and "live (gate_ptr W) h g" and "live (spec_ptr W) h s" and "live status_ptr h t"
    and "live (channel_ptr W) h c" and "live (list_ptr W) h l"
  shows "copied (gate_ptr W) h g (ChannelGate_DeepCopy M g h) \<and>
    copied (spec_ptr W) h s (ChannelSpec_DeepCopy M s h) \<and>
    copied status_ptr h t (ChannelStatus_DeepCopy t h) \<and>
    copied (channel_ptr W) h c (Channel_DeepCopy M c h) \<and>
    copied (list_ptr W) h l (ChannelList_DeepCopy M l h) \<and>
    (fst (ChannelGate_DeepCopy M g h) = None \<longleftrightarrow> g = None) \<and>
    (fst (ChannelSpec_DeepCopy M s h) = None \<longleftrightarrow> s = None) \<and>
    (fst (ChannelStatus_DeepCopy t h) = None \<longleftrightarrow> t = None) \<and>
    (fst (Channel_DeepCopy M c h) = None \<longleftrightarrow> c = None) \<and>
    (fst (ChannelList_DeepCopy M l h) = None \<longleftrightarrow> l = None)"
  using api_machinery.DeepCopy_copies[OF assms(1)] assms(2-) by (simp add: ChannelStatus_DeepCopy_copies)

lemma ex_other_live:
  "live (gate_ptr memViews) ex_store None" "live (spec_ptr memViews) ex_store (Some 0)"
  "live status_ptr ex_store (Some 0)"
  by (simp_all add: ex_live_defs)

theorem deep_copies_equal_witness:
  "copied (list_ptr memViews) ex_store (Some 5) (ChannelList_DeepCopy memMachinery (Some 5) ex_store) \<and>
   fst (ChannelList_DeepCopy memMachinery (Some 5) ex_store) = Some 6"
  using deep_copies_equal[OF mem_machinery.api_machinery_axioms ex_other_live ex_channel_live ex_list_live]
  by (simp add: ChannelList_DeepCopy_def newCopy_def new_def ex_store_def split: prod.split)

text \<open>
  C23. A deep-copied channel and a deep-copied list of channels are independent of their originals:
  they share no address, and however the cells that the one reaches are overwritten, the other
  keeps its value.
\<close>

theorem channel_copies_independent:
  assumes "api_machinery M W" and "live (channel_ptr W) h c" and "live (list_ptr W) h l"
    and "Channel_DeepCopy M c h = (c', h1)" and "ChannelList_DeepCopy M l h = (l', h2)"
  shows "vReach (channel_ptr W) h1 c \<inter> vReach (channel_ptr W) h1 c' = {} \<and>
    (\<forall>k. agree (- vReach (channel_ptr W) h1 c') h1 k \<longrightarrow> vVal (channel_ptr W) k c = vVal (channel_ptr W) h c) \<and>
    (\<forall>k. agree (- vReach (channel_ptr W) h1 c) h1 k \<longrightarrow> vVal (channel_ptr W) k c' = vVal (channel_ptr W) h c) \<and>
    vReach (list_ptr W) h2 l \<inter> vReach (list_ptr W) h2 l' = {} \<and>
    (\<forall>k. agree (- vReach (list_ptr W) h2 l') h2 k \<longrightarrow> vVal (list_ptr W) k l = vVal (list_ptr W) h l) \<and>
    (\<forall>k. agree (- vReach (list_ptr W) h2 l) h2 k \<longrightarrow> vVal (list_ptr W) k l' = vVal (list_ptr W) h l)"
proof -
  note C = api_machinery.DeepCopy_independent(1-3)[OF assms(1,2,2), unfolded assms(4) fst_conv snd_conv]
  note L = api_machinery.DeepCopy_independent(4-6)[OF assms(1,3,3), unfolded assms(5) fst_conv snd_conv]
  show ?thesis
    by (intro conjI allI impI C L)
qed

text \<open>The second entry of the copy's labels is overwritten, the original keeps its labels.\<close>

theorem channel_copies_independent_witness:
  "let r = Channel_DeepCopy memMachinery (Some 3) ex_store
   in vVal (channel_ptr memViews) (put mapCells_update 7 [(''a'', ''9'')] (snd r)) (Some 3) =
      vVal (channel_ptr memViews) ex_store (Some 3)"
proof -
  let ?P = "channel_ptr memViews" and ?r = "Channel_DeepCopy memMachinery (Some 3) ex_store"
  have "7 \<in> vReach ?P (snd ?r) (fst ?r)"
    by code_simp
  then have "agree (- vReach ?P (snd ?r) (fst ?r)) (snd ?r) (put mapCells_update 7 [(''a'', ''9'')] (snd ?r))"
    by (intro maps.put_agree) simp
  then show ?thesis
    using channel_copies_independent[OF mem_machinery.api_machinery_axioms ex_channel_live ex_list_live
        surjective_pairing surjective_pairing]
    by (simp add: Let_def)
qed

text \<open>
  C27. \<open>DeepCopyObject\<close> keeps the dynamic type: on \<open>nil\<close> it gives the \<open>nil\<close> interface,
  never an interface around a \<open>nil\<close> pointer; on a well-formed channel or list it gives an
  interface of the same type around a well-formed, equal struct.
\<close>

theorem deep_copy_object_typed:
  assumes "api_machinery M W" and "live (channel_ptr W) h c" and "live (list_ptr W) h l"
    and "Channel_DeepCopyObject M c h = (oc, h1)" and "ChannelList_DeepCopyObject M l h = (ol, h2)"
  shows "(case c of None \<Rightarrow> oc = None
     | Some a \<Rightarrow> (\<exists>q. oc = Some (ChannelObject (Some q)) \<and> live (channel_ptr W) h1 (Some q) \<and>
         vVal (channel_ptr W) h1 (Some q) = vVal (channel_ptr W) h c)) \<and>
    (case l of None \<Rightarrow> ol = None
     | Some a \<Rightarrow> (\<exists>q. ol = Some (ChannelListObject (Some q)) \<and> live (list_ptr W) h2 (Some q) \<and>
         vVal (list_ptr W) h2 (Some q) = vVal (list_ptr W) h l))"
proof -
  obtain q1 k1 where 1: "Channel_DeepCopy M c h = (q1, k1)"
    by fastforce
  obtain q2 k2 where 2: "ChannelList_DeepCopy M l h = (q2, k2)"
    by fastforce
  note cp = api_machinery.DeepCopy_copies(3,4)[OF assms(1)]
  have C: "copied (channel_ptr W) h c (q1, k1)" and L: "copied (list_ptr W) h l (q2, k2)"
    using cp(1)[OF assms(2)] cp(2)[OF assms(3)] 1 2 by simp_all
  have nil: "q1 = None \<longleftrightarrow> c = None" "q2 = None \<longleftrightarrow> l = None"
    using DeepCopy_nil(4)[of M c h] DeepCopy_nil(5)[of M l h] 1 2 by simp_all
  have val: "vVal (channel_ptr W) k1 q1 = vVal (channel_ptr W) h c" "vVal (list_ptr W) k2 q2 = vVal (list_ptr W) h l"
    using C L by (simp_all add: copied_def)
  show ?thesis
    using assms(4,5) 1 2 nil val copied_live[OF C] copied_live[OF L]
    by (cases c; cases l) (auto simp: Channel_DeepCopyObject_def ChannelList_DeepCopyObject_def)
qed

theorem deep_copy_object_typed_witness:
  "(case fst (Channel_DeepCopyObject memMachinery (Some 3) ex_store) of
      Some (ChannelObject (Some q)) \<Rightarrow> q = 6 | _ \<Rightarrow> False) \<and>
   fst (ChannelList_DeepCopyObject memMachinery None ex_store) = None"
proof -
  have "live (list_ptr memViews) ex_store None"
    by (simp add: live_def ptr_view_def)
  note T = deep_copy_object_typed[OF mem_machinery.api_machinery_axioms ex_channel_live this
      surjective_pairing surjective_pairing]
  have "fst (Channel_DeepCopy memMachinery (Some 3) ex_store) = Some 6"
    by code_simp
  then show ?thesis
    using T by (auto simp: Channel_DeepCopyObject_def split: prod.splits if_splits)
qed

end
