(* ===== verification/Go_Path.thy ===== *)
theory Go_Path
  imports Go_Lib
begin

text \<open>
  \<open>path/filepath\<close> on the operator's platform: \<open>filepath.Clean\<close> and \<open>filepath.Join\<close>,
  lexical operations on slash-separated names, and the fact the certificate code rests on: a plain
  file name joined to a directory stays the last element of the path, so that different names
  give different files.
\<close>

text \<open>The elements that remain, the last one first.\<close>

fun clean_elements :: "bool \<Rightarrow> string list \<Rightarrow> string list \<Rightarrow> string list" where
  "clean_elements rooted out [] = out"
| "clean_elements rooted out (c # cs) = clean_elements rooted
     (if c = [] \<or> c = ''.'' then out
      else if c = ''..'' then
        (case out of [] \<Rightarrow> if rooted then [] else [''..'']
         | x # xs \<Rightarrow> if x = ''..'' then ''..'' # out else xs)
      else c # out) cs"

definition filepath_Clean :: "string \<Rightarrow> string" where
  "filepath_Clean p =
     (if p = [] then ''.''
      else let rooted = hd p = CHR ''/'';
               out = rev (clean_elements rooted [] (strings_Split p CHR ''/''))
           in if rooted then ''/'' @ join ''/'' out
              else if out = [] then ''.'' else join ''/'' out)"

definition filepath_Join :: "string list \<Rightarrow> string" where
  "filepath_Join elems =
     (case dropWhile (\<lambda>x. x = []) elems of [] \<Rightarrow> [] | x # xs \<Rightarrow> filepath_Clean (join ''/'' (x # xs)))"

definition plain_name :: "string \<Rightarrow> bool" where
  "plain_name f \<longleftrightarrow> CHR ''/'' \<notin> set f \<and> f \<noteq> [] \<and> f \<noteq> ''.'' \<and> f \<noteq> ''..''"

lemma strings_Split_snoc:
  "c \<notin> set f \<Longrightarrow> strings_Split (d @ c # f) c = strings_Split d c @ [f]"
  by (induction d) (auto simp: strings_Split_free split: list.splits)

lemma clean_elements_snoc:
  "plain_name f \<Longrightarrow> clean_elements r out (cs @ [f]) = f # clean_elements r out cs"
  by (induction r out cs rule: clean_elements.induct) (auto simp: plain_name_def)

text \<open>A joined name keeps its file name as the last element.\<close>

lemma filepath_Join_file:
  assumes "d \<noteq> []" and f: "plain_name f"
  shows "\<exists>u. filepath_Join [d, f] = u @ f"
proof -
  let ?out = "\<lambda>r. rev (clean_elements r [] (strings_Split d CHR ''/''))"
  have "strings_Split (d @ CHR ''/'' # f) CHR ''/'' = strings_Split d CHR ''/'' @ [f]"
    using f by (intro strings_Split_snoc) (simp add: plain_name_def)
  then have "filepath_Clean (d @ CHR ''/'' # f) =
      (if hd d = CHR ''/'' then ''/'' @ join ''/'' (?out True @ [f]) else join ''/'' (?out False @ [f]))"
    using assms by (simp add: filepath_Clean_def Let_def clean_elements_snoc)
  moreover have "\<exists>u. join ''/'' (xs @ [f]) = u @ f" for xs :: "string list"
    by (cases xs) (simp, metis append_assoc join_snoc list.distinct(1))
  then have "\<exists>u. ''/'' @ join ''/'' (xs @ [f]) = u @ f" for xs :: "string list"
    by (metis append_assoc)
  ultimately show ?thesis
    using \<open>d \<noteq> []\<close> \<open>\<And>xs. \<exists>u. join ''/'' (xs @ [f]) = u @ f\<close> by (simp add: filepath_Join_def)
qed

lemma filepath_Join_distinct:
  assumes "d \<noteq> []" "plain_name f" "plain_name g" "length f = length g" "f \<noteq> g"
  shows "filepath_Join [d, f] \<noteq> filepath_Join [d, g]"
  using filepath_Join_file [OF assms(1,2)] filepath_Join_file [OF assms(1,3)] assms(4,5)
  by (metis append_eq_append_conv)

lemma clean_elements_nonempty: "[] \<notin> set out \<Longrightarrow> [] \<notin> set (clean_elements r out cs)"
  by (induction r out cs rule: clean_elements.induct) (auto split: list.splits)

lemma filepath_Clean_nonempty [simp]: "filepath_Clean p \<noteq> []"
  using clean_elements_nonempty [of "[]" False "strings_Split p CHR ''/''"] by (auto simp: filepath_Clean_def Let_def join_eq_Nil)

lemma filepath_Join_nonempty: "x \<in> set xs \<Longrightarrow> x \<noteq> [] \<Longrightarrow> filepath_Join xs \<noteq> []"
  by (auto simp: filepath_Join_def split: list.splits)

end
