(* ===== verification/Helm_Repo.thy ===== *)
theory Helm_Repo
  imports Go_Path
begin

text \<open>
  \<open>pkg/utils/helmrepo.go\<close>: fetching the index of a Helm repository. The loader is an argument of
  the code; the local one opens \<open>index.yaml\<close> below a directory the way \<open>http.Dir\<close> does.
  Reading and closing the body, opening a file and the YAML parser are the record \<open>IndexEnv\<close>. The
  deferred \<open>Close\<close> runs on every way out, panics included.
\<close>

record ('w, 'b, 'i) IndexEnv =
  os_Open :: "string \<Rightarrow> 'w \<Rightarrow> (go_error + 'b) \<times> 'w"
  ReadAll :: "'b \<Rightarrow> 'w \<Rightarrow> (go_error + bytes) \<times> 'w"
  Close :: "'b \<Rightarrow> 'w \<Rightarrow> go_error option \<times> 'w"
  yaml_Unmarshal :: "bytes \<Rightarrow> go_error + 'i"

text \<open>\<open>validURL[len(repoURL)-1:]\<close> is out of bounds for the empty string.\<close>

definition buildRepoURL :: "string \<Rightarrow> string outcome" where
  "buildRepoURL repoURL =
     map_outcome_bind (slice_expr repoURL (int (length repoURL) - 1) (int (length repoURL)))
       (\<lambda>t. Return ((if t \<noteq> ''/'' then repoURL @ ''/'' else repoURL) @ ''index.yaml''))"

text \<open>\<open>http.Dir.Open\<close>: the empty directory is the current one, and the name is taken below the root.\<close>

definition http_Dir_Open :: "('w, 'b, 'i) IndexEnv \<Rightarrow> string \<Rightarrow> string \<Rightarrow> 'w \<Rightarrow> (go_error + 'b) \<times> 'w" where
  "http_Dir_Open ie d name = os_Open ie (filepath_Join [if d = [] then ''.'' else d, filepath_Clean (''/'' @ name)])"

definition LoadLocalIdx :: "('w, 'b, 'i) IndexEnv \<Rightarrow> string \<Rightarrow> 'w \<Rightarrow> (go_error + 'b) \<times> 'w" where
  "LoadLocalIdx ie idxPath w =
     (case http_Dir_Open ie idxPath ''index.yaml'' w of
        (Inl er, w) \<Rightarrow> (Inl er, w)
      | (Inr content, w) \<Rightarrow> (Inr content, w))"

text \<open>What follows a successful load, before the deferred call.\<close>

definition readIndex :: "('w, 'b, 'i) IndexEnv \<Rightarrow> string \<Rightarrow> 'b \<Rightarrow> 'w \<Rightarrow> (go_error + 'i) outcome \<times> 'w" where
  "readIndex ie channelPathName body w =
     (case buildRepoURL channelPathName of
        Panic p \<Rightarrow> (Panic p, w)
      | Return url \<Rightarrow>
         (case ReadAll ie body w of
            (Inl er, w) \<Rightarrow> (Return (Inl (WrapErr er (''unable to read body of '' @ url))), w)
          | (Inr bs, w) \<Rightarrow>
             (case yaml_Unmarshal ie bs of
                Inl er \<Rightarrow> (Return (Inl (WrapErr er (''unable to unmarshal repo '' @ url))), w)
              | Inr i \<Rightarrow> (Return (Inr i), w))))"

definition GetHelmRepoIndex ::
  "('w, 'b, 'i) IndexEnv \<Rightarrow> (string \<Rightarrow> 'w \<Rightarrow> (go_error + 'b) \<times> 'w) \<Rightarrow> string \<Rightarrow> 'w \<Rightarrow> (go_error + 'i) outcome \<times> 'w" where
  "GetHelmRepoIndex ie loadIdx channelPathName w =
     (case loadIdx channelPathName w of
        (Inl er, w) \<Rightarrow> (Return (Inl (WrapErr er ''failed to get chart index'')), w)
      | (Inr body, w) \<Rightarrow>
         (case readIndex ie channelPathName body w of (r, w) \<Rightarrow> (r, snd (Close ie body w))))"

section \<open>The address\<close>

lemma buildRepoURL_cases:
  "buildRepoURL [] = Panic SliceBounds"
  "buildRepoURL (p @ ''/'') = Return (p @ ''/index.yaml'')"
  "c \<noteq> CHR ''/'' \<Longrightarrow> buildRepoURL (p @ [c]) = Return (p @ [c] @ ''/index.yaml'')"
  by (simp_all add: buildRepoURL_def slice_expr_def nat_add_distrib)

lemma buildRepoURL_total: "p \<noteq> [] \<Longrightarrow> \<exists>url. buildRepoURL p = Return url"
  by (cases p rule: rev_cases) (metis buildRepoURL_cases(2,3))+

section \<open>Open bodies\<close>

text \<open>
  A world that counts: opening gives a new handle, closing gives it back. The loader and the reader
  are arbitrary up to that.
\<close>

locale body_store =
  fixes ie :: "('w, 'b, 'i) IndexEnv" and opened :: "'w \<Rightarrow> 'b set"
  assumes open_ok: "os_Open ie f w = (Inr b, w') \<Longrightarrow> b \<notin> opened w \<and> opened w' = insert b (opened w)"
    and open_err: "os_Open ie f w = (Inl er, w') \<Longrightarrow> opened w' = opened w"
    and read_opened: "ReadAll ie b w = (rr, w') \<Longrightarrow> opened w' = opened w"
    and close_opened: "opened (snd (Close ie b w)) = opened w - {b}"
begin

lemma readIndex_opened: "readIndex ie p b w = (r, w') \<Longrightarrow> opened w' = opened w"
  by (auto simp: readIndex_def split: outcome.splits prod.splits sum.splits dest: read_opened)

lemma no_leak: "opened (snd (GetHelmRepoIndex ie (LoadLocalIdx ie) p w)) = opened w"
proof -
  obtain r w1 where o: "LoadLocalIdx ie p w = (r, w1)" by fastforce
  then have raw: "os_Open ie (filepath_Join [if p = [] then ''.'' else p, filepath_Clean (''/'' @ ''index.yaml'')]) w = (r, w1)"
    by (auto simp: LoadLocalIdx_def http_Dir_Open_def split: prod.splits sum.splits)
  show ?thesis
  proof (cases r)
    case (Inl er)
    then show ?thesis using o open_err raw by (simp add: GetHelmRepoIndex_def)
  next
    case (Inr b)
    obtain r2 w2 where r2: "readIndex ie p b w1 = (r2, w2)" by fastforce
    have "b \<notin> opened w" "opened w1 = insert b (opened w)" using open_ok raw Inr by simp_all
    then show ?thesis using o Inr r2 readIndex_opened [OF r2] by (simp add: GetHelmRepoIndex_def close_opened)
  qed
qed

end

text \<open>An instance: one file, handles are numbers, the YAML is taken as it is.\<close>

type_synonym disk = "(string \<times> bytes) list \<times> (nat \<times> bytes) list"

definition diskEnv :: "(disk, nat, bytes) IndexEnv" where
  "diskEnv = \<lparr>
     os_Open = (\<lambda>f (fs, hs). case map_of fs f of
        None \<Rightarrow> (Inl (NewErr ''no such file''), (fs, hs))
      | Some bs \<Rightarrow> (let h = Suc (fold max (map fst hs) 0) in (Inr h, (fs, (h, bs) # hs)))),
     ReadAll = (\<lambda>h (fs, hs). (case map_of hs h of None \<Rightarrow> Inl (NewErr ''file already closed'') | Some bs \<Rightarrow> Inr bs, (fs, hs))),
     Close = (\<lambda>h (fs, hs). (None, (fs, filter (\<lambda>x. fst x \<noteq> h) hs))),
     yaml_Unmarshal = (\<lambda>bs. if bs = [] then Inl (NewErr ''empty'') else Inr bs)\<rparr>"

lemma fold_max_ge: "x \<in> set xs \<Longrightarrow> x \<le> fold max xs (n :: nat)" and "n \<le> fold max xs n"
  for n :: nat
  by (simp_all add: Max.set_eq_fold [symmetric])

interpretation disk: body_store diskEnv "\<lambda>w. fst ` set (snd w)"
proof
  fix f and w w' :: disk and b
  assume "os_Open diskEnv f w = (Inr b, w')"
  then show "b \<notin> fst ` set (snd w) \<and> fst ` set (snd w') = insert b (fst ` set (snd w))"
    using fold_max_ge [of _ "map fst (snd w)" 0]
    by (auto simp: diskEnv_def Let_def split: prod.splits option.splits) (metis Suc_n_not_le_n fst_conv image_eqI)+
qed (auto simp: diskEnv_def image_iff split: prod.splits option.splits)

text \<open>
  C38. Reading a local index leaves no body open, whichever way the function ends. It returns an
  index exactly when the path is not empty and the file could be opened, read and parsed, and it
  panics exactly when the path is empty and an index file was found.
\<close>

theorem helm_index_no_leak:
  assumes "body_store ie opened"
  shows "opened (snd (GetHelmRepoIndex ie (LoadLocalIdx ie) p w)) = opened w \<and>
    (fst (GetHelmRepoIndex ie (LoadLocalIdx ie) p w) = Return (Inr i) \<longleftrightarrow>
      p \<noteq> [] \<and> (\<exists>b w1 bs w2. LoadLocalIdx ie p w = (Inr b, w1) \<and> ReadAll ie b w1 = (Inr bs, w2) \<and>
        yaml_Unmarshal ie bs = Inr i)) \<and>
    ((\<exists>q. fst (GetHelmRepoIndex ie (LoadLocalIdx ie) p w) = Panic q) \<longleftrightarrow>
      p = [] \<and> (\<exists>b w1. LoadLocalIdx ie p w = (Inr b, w1)))"
proof -
  have url: "p = [] \<and> buildRepoURL p = Panic SliceBounds \<or> p \<noteq> [] \<and> (\<exists>url. buildRepoURL p = Return url)"
    using buildRepoURL_total [of p] buildRepoURL_cases(1) by (cases "p = []") auto
  obtain r w1 where o: "LoadLocalIdx ie p w = (r, w1)" by fastforce
  show ?thesis
  proof (cases r)
    case (Inl er)
    then show ?thesis using body_store.no_leak [OF assms, of p w] o by (simp add: GetHelmRepoIndex_def)
  next
    case (Inr b)
    obtain rr w2 where "ReadAll ie b w1 = (rr, w2)" by fastforce
    then show ?thesis
      using body_store.no_leak [OF assms, of p w] url o Inr
      by (cases rr) (auto simp: GetHelmRepoIndex_def readIndex_def split: sum.splits)
  qed
qed

theorem helm_index_no_leak_witness:
  "fst (GetHelmRepoIndex diskEnv (LoadLocalIdx diskEnv) ''charts/'' ([(''charts/index.yaml'', ''x'')], [])) = Return (Inr ''x'') \<and>
   fst (GetHelmRepoIndex diskEnv (LoadLocalIdx diskEnv) [] ([(''index.yaml'', ''x'')], [])) = Panic SliceBounds \<and>
   snd (snd (GetHelmRepoIndex diskEnv (LoadLocalIdx diskEnv) [] ([(''index.yaml'', ''x'')], []))) = []"
proof (intro conjI)
  show "snd (snd (GetHelmRepoIndex diskEnv (LoadLocalIdx diskEnv) [] ([(''index.yaml'', ''x'')], []))) = []"
    using helm_index_no_leak [OF disk.body_store_axioms, of "[]" "([(''index.yaml'', ''x'')], [])"] by simp
qed code_simp+

end
