(* ===== verification/Kube_Pair.thy ===== *)
theory Kube_Pair
  imports Kube_Mem
begin

text \<open>
  A client that sees only a part of a larger world, such as one of two clusters. A part is given
  by a function that reads it and one that puts it back; the laws of \<open>kube_api\<close> carry over, and
  clients of disjoint parts do not disturb each other. \<open>inMem\<close> and \<open>outMem\<close> are clients of
  two in-memory clusters.
\<close>

section \<open>Clients of a part\<close>

definition on_part :: "('v \<Rightarrow> 'w) \<Rightarrow> ('w \<Rightarrow> 'v \<Rightarrow> 'v) \<Rightarrow> ('w \<Rightarrow> 'r \<times> 'w) \<Rightarrow> 'v \<Rightarrow> 'r \<times> 'v" where
  "on_part get put f v = (case f (get v) of (r, w) \<Rightarrow> (r, put w v))"

definition part_kind :: "('v \<Rightarrow> 'w) \<Rightarrow> ('w \<Rightarrow> 'v \<Rightarrow> 'v) \<Rightarrow> ('w, 'o) kind_client \<Rightarrow> ('v, 'o) kind_client" where
  "part_kind get put c = \<lparr>
     kGet = (\<lambda>k. on_part get put (kGet c k)), kList = (\<lambda>lo. on_part get put (kList c lo)),
     kCreate = (\<lambda>ob. on_part get put (kCreate c ob)), kUpdate = (\<lambda>ob. on_part get put (kUpdate c ob)),
     kDelete = (\<lambda>ob. on_part get put (kDelete c ob))\<rparr>"

definition part_env :: "('v \<Rightarrow> 'w) \<Rightarrow> ('w \<Rightarrow> 'v \<Rightarrow> 'v) \<Rightarrow> 'w Env \<Rightarrow> 'v Env" where
  "part_env get put e = \<lparr>
     channels = part_kind get put (channels e),
     dataObjects = (\<lambda>g. part_kind get put (dataObjects e g)),
     roles = part_kind get put (roles e),
     roleBindings = part_kind get put (roleBindings e),
     managedClusters = part_kind get put (managedClusters e),
     services = part_kind get put (services e),
     endpoints = part_kind get put (endpoints e),
     webhookConfigs = part_kind get put (webhookConfigs e),
     deployments = part_kind get put (deployments e),
     crds = part_kind get put (crds e),
     dynListHubs = (\<lambda>gvr. on_part get put (dynListHubs e gvr)),
     mapOrder = on_part get put (mapOrder e),
     SetControllerReference = SetControllerReference e,
     nnString = nnString e,
     LabelSelectorAsSelector = LabelSelectorAsSelector e\<rparr>"

lemma on_part_iff: "on_part get put f v = (r, v') \<longleftrightarrow> (\<exists>w. f (get v) = (r, w) \<and> v' = put w v)"
  by (auto simp: on_part_def split: prod.splits)

lemma part_kind_sel [simp]:
  "kGet (part_kind get put c) k v = (r1, v') \<longleftrightarrow> (\<exists>w. kGet c k (get v) = (r1, w) \<and> v' = put w v)"
  "kList (part_kind get put c) lo v = (r2, v') \<longleftrightarrow> (\<exists>w. kList c lo (get v) = (r2, w) \<and> v' = put w v)"
  "kCreate (part_kind get put c) ob v = (r1, v') \<longleftrightarrow> (\<exists>w. kCreate c ob (get v) = (r1, w) \<and> v' = put w v)"
  "kUpdate (part_kind get put c) ob v = (r1, v') \<longleftrightarrow> (\<exists>w. kUpdate c ob (get v) = (r1, w) \<and> v' = put w v)"
  "kDelete (part_kind get put c) ob v = (r3, v') \<longleftrightarrow> (\<exists>w. kDelete c ob (get v) = (r3, w) \<and> v' = put w v)"
  by (simp_all add: part_kind_def on_part_iff)

locale world_part =
  fixes get :: "'v \<Rightarrow> 'w" and put :: "'w \<Rightarrow> 'v \<Rightarrow> 'v"
  assumes get_put: "get (put w v) = w"
begin

lemma part_ops:
  "kGet (part_kind get put c) k v = (r1, v') \<Longrightarrow> kGet c k (get v) = (r1, get v')"
  "kList (part_kind get put c) lo v = (r2, v') \<Longrightarrow> kList c lo (get v) = (r2, get v')"
  "kCreate (part_kind get put c) ob v = (r1, v') \<Longrightarrow> kCreate c ob (get v) = (r1, get v')"
  "kUpdate (part_kind get put c) ob v = (r1, v') \<Longrightarrow> kUpdate c ob (get v) = (r1, get v')"
  "kDelete (part_kind get put c) ob v = (r3, v') \<Longrightarrow> kDelete c ob (get v) = (r3, get v')"
  by (auto simp: get_put)

lemma part_kind_api:
  assumes "kind_api c meta fill st sel upd"
  shows "kind_api (part_kind get put c) meta fill (\<lambda>v. st (get v)) sel upd"
proof -
  note k = assms
  show ?thesis
  proof (unfold_locales, goal_cases)
    case 1
    show ?case by (rule kind_api.sel_upd [OF k])
  next
    case 2
    then show ?case by (rule kind_api.keyed [OF k])
  next
    case 3
    then show ?case by (rule kind_api.fill_meta [OF k])
  next
    case 18
    show ?case by (rule kind_api.upd_upd [OF k])
  qed (drule part_ops,
    erule kind_api.get_st [OF k]
      kind_api.get_ok [OF k]
      kind_api.get_nf [OF k]
      kind_api.list_st [OF k]
      kind_api.list_ok [OF k]
      kind_api.list_distinct [OF k]
      kind_api.create_ok [OF k]
      kind_api.create_err [OF k]
      kind_api.create_exists [OF k]
      kind_api.update_ok [OF k]
      kind_api.update_err [OF k]
      kind_api.delete_ok [OF k]
      kind_api.delete_err [OF k]
      kind_api.delete_nf [OF k])+
qed

lemma part_kind_calm:
  assumes "kind_api_calm c meta fill st sel upd calm may"
  shows "kind_api_calm (part_kind get put c) meta fill (\<lambda>v. st (get v)) sel upd (\<lambda>v. calm (get v)) may"
proof -
  note k = assms
  have "kind_api c meta fill st sel upd" using k by (simp add: kind_api_calm_def)
  then show ?thesis
  proof (intro kind_api_calm.intro part_kind_api kind_api_calm_axioms.intro)
    fix v kk assume "calm (get v)"
    from kind_api_calm.calm_get [OF k this, of kk]
    show "\<exists>v'. calm (get v') \<and> kGet (part_kind get put c) kk v =
        (case sel (st (get v)) kk of None \<Rightarrow> Inl NotFound | Some ob \<Rightarrow> Inr ob, v')"
      by (auto simp: get_put)
  next
    fix v lo assume "calm (get v)"
    from kind_api_calm.calm_list [OF k this, of lo]
    show "\<exists>obs v'. calm (get v') \<and> kList (part_kind get put c) lo v = (Inr obs, v')" by (auto simp: get_put)
  next
    fix v ob assume "calm (get v)" "sel (st (get v)) (key_of_meta (meta ob)) = None"
    from kind_api_calm.calm_create [OF k this]
    show "\<exists>ob' v'. calm (get v') \<and> kCreate (part_kind get put c) ob v = (Inr ob', v')" by (auto simp: get_put)
  next
    fix v ob old assume "calm (get v)" "sel (st (get v)) (key_of_meta (meta ob)) = Some old" "may old ob"
    from kind_api_calm.calm_update [OF k this]
    show "\<exists>ob' v'. calm (get v') \<and> kUpdate (part_kind get put c) ob v = (Inr ob', v')" by (auto simp: get_put)
  next
    fix v ob assume "calm (get v)" "sel (st (get v)) (key_of_meta (meta ob)) \<noteq> None"
    from kind_api_calm.calm_delete [OF k this]
    show "\<exists>v'. calm (get v') \<and> kDelete (part_kind get put c) ob v = (Inr (), v')" by (auto simp: get_put)
  qed
qed

lemma part_kube_api:
  assumes "kube_api e st"
  shows "kube_api (part_env get put e) (\<lambda>v. st (get v))"
proof -
  have ax: "kube_api_axioms e st" using assms by (simp add: kube_api_def)
  have "kube_api_axioms (part_env get put e) (\<lambda>v. st (get v))"
    using ax unfolding kube_api_axioms_def part_env_def
    by (auto simp: on_part_iff get_put intro: part_kind_api)
  then show ?thesis
    using assms unfolding kube_api_def by (auto simp: part_env_def intro: part_kind_api)
qed

end

context world_part
begin

lemma part_kube_calm:
  assumes "kube_api_calm e st calm"
  shows "kube_api_calm (part_env get put e) (\<lambda>v. st (get v)) (\<lambda>v. calm (get v))"
proof -
  have api: "kube_api e st" and ax: "kube_api_calm_axioms e st calm" using assms by (simp_all add: kube_api_calm_def)
  have "kube_api_calm_axioms (part_env get put e) (\<lambda>v. st (get v)) (\<lambda>v. calm (get v))"
  proof (rule kube_api_calm_axioms.intro)
    show "kind_api_calm (dataObjects (part_env get put e) g) doMeta (=) (\<lambda>v. st (get v)) (data_sel g) (data_upd g)
        (\<lambda>v. calm (get v)) any_update" for g
      using kube_api_calm.data_calm [OF assms] by (simp add: part_env_def part_kind_calm)
    show "\<exists>hs v'. calm (get v') \<and> dynListHubs (part_env get put e) gvr v = ((Some hs, None), v')"
      if "calm (get v)" for gvr v
      using kube_api_calm.hubs_calm [OF assms that, of gvr] by (auto simp: part_env_def on_part_iff get_put)
    show "calm (get v')" if "mapOrder (part_env get put e) v = (ord, v')" "calm (get v)" for v v' ord
      using kube_api_calm.order_calm [OF assms] that by (auto simp: part_env_def on_part_iff get_put)
  qed
  then show ?thesis
    using assms part_kube_api [OF api] unfolding kube_api_calm_def by (auto simp: part_env_def intro: part_kind_calm)
qed

end

section \<open>Two in-memory clusters\<close>

definition put_fst :: "'a \<Rightarrow> 'a \<times> 'b \<Rightarrow> 'a \<times> 'b" where
  "put_fst x v = (x, snd v)"

definition put_snd :: "'b \<Rightarrow> 'a \<times> 'b \<Rightarrow> 'a \<times> 'b" where
  "put_snd x v = (fst v, x)"

interpretation left: world_part fst put_fst
  by unfold_locales (simp add: put_fst_def)

interpretation right: world_part snd put_snd
  by unfold_locales (simp add: put_snd_def)

definition inMem :: "(mem \<times> mem) Env" where
  "inMem = part_env fst put_fst memEnv"

definition outMem :: "(mem \<times> mem) Env" where
  "outMem = part_env snd put_snd memEnv"

lemma inMem_api: "kube_api inMem (\<lambda>v. mem_cluster (fst v))"
  unfolding inMem_def by (rule left.part_kube_api [OF mem_kube_api])

lemma outMem_api: "kube_api outMem (\<lambda>v. mem_cluster (snd v))"
  unfolding outMem_def by (rule right.part_kube_api [OF mem_kube_api])

end
