(* ===== verification/Webhook_Wireup.thy ===== *)
theory Webhook_Wireup
  imports Kube_Pair
begin

text \<open>
  \<open>pkg/webhook/wireupwebhook.go\<close>: the names and defaults of the webhook, the templates of the
  objects it needs, and the code that creates them at start-up. Two clients are involved, the
  manager's own (\<open>eOut\<close>, the cluster that holds the channels) and the in-cluster one
  (\<open>eIn\<close>, the cluster the operator runs in); they act on one world, so that they may be the
  same cluster or two. Access to \<open>Webhooks[0]\<close> and \<open>Service\<close> of an existing configuration
  may panic, and the definitions say so.
\<close>

section \<open>Settings\<close>

record 'h WireUp =
  wuHandler :: "'h option"
  CertDir :: string
  WebhookName :: string
  WebHookPort :: go_int
  WebHookeSvcKey :: NamespacedName
  WebHookServicePort :: go_int
  ValidtorPath :: string
  DeployLabel :: string
  DeploymentSelector :: str_map

definition findEnvVariable :: "(string \<Rightarrow> string option) \<Rightarrow> string \<Rightarrow> go_error + string" where
  "findEnvVariable LookupEnv envName =
     (case LookupEnv envName of
        None \<Rightarrow> Inl (NewErr (envName @ '' env var is not set''))
      | Some val \<Rightarrow> Inr val)"

definition GetValidatorName :: "string \<Rightarrow> string" where
  "GetValidatorName wbhName = strings_ReplaceAll wbhName CHR ''-'' CHR ''.'' @ ''.validator''"

definition GetWebHookServiceName :: "string \<Rightarrow> string" where
  "GetWebHookServiceName wbhName = wbhName @ ''-svc''"

text \<open>
  \<open>certDir\<close> is the value of \<open>filepath.Join(os.TempDir(), ...)\<close>; the manager, the context,
  the server and the logger are not kept, no modelled code changes them.
\<close>

definition NewWireUp ::
  "(string \<Rightarrow> string option) \<Rightarrow> string \<Rightarrow> ('h WireUp \<Rightarrow> 'h WireUp) list \<Rightarrow> go_error + 'h WireUp" where
  "NewWireUp LookupEnv certDir opts =
     (let webhookName = ''channels-apps-open-cluster-management-webhook''
      in case findEnvVariable LookupEnv ''DEPLOYMENT_LABEL'' of
        Inl er \<Rightarrow> Inl (WrapErr er ''failed to create a new webhook wireup'')
      | Inr deploymentLabel \<Rightarrow>
         (let deploymentSelector = [''app'' \<mapsto> deploymentLabel]
          in case findEnvVariable LookupEnv ''POD_NAMESPACE'' of
            Inl er \<Rightarrow> Inl (WrapErr er ''failed to create a new webhook wireup'')
          | Inr podNamespace \<Rightarrow>
              Inr (fold (\<lambda>op w. op w) opts
                \<lparr>wuHandler = None, CertDir = certDir, WebhookName = webhookName, WebHookPort = 9443,
                 WebHookeSvcKey = nskey podNamespace (GetWebHookServiceName webhookName),
                 WebHookServicePort = 443, ValidtorPath = ''/duplicate-validation'',
                 DeployLabel = deploymentLabel, DeploymentSelector = deploymentSelector\<rparr>)))"

text \<open>channel_validator.go, \<open>ValidateLogic\<close>: the option that installs the handler.\<close>

definition ValidateLogic :: "'h \<Rightarrow> 'h WireUp \<Rightarrow> 'h WireUp" where
  "ValidateLogic handler w = w\<lparr>wuHandler := Some handler\<rparr>"

section \<open>Templates\<close>

definition validateInt32 :: "go_int \<Rightarrow> int32" where
  "validateInt32 number =
     (if 2147483647 < sint number then 2147483647
      else if sint number < -2147483648 then word_of_int (-2147483648)
      else ucast number)"

text \<open>\<open>intstr.FromInt\<close> truncates; the zero value of the port is 0.\<close>

definition newWebhookServiceTemplate ::
  "bool \<Rightarrow> NamespacedName \<Rightarrow> go_int \<Rightarrow> go_int \<Rightarrow> str_map \<Rightarrow> Service" where
  "newWebhookServiceTemplate isExternalAPIServer svcKey webHookPort webHookServicePort deploymentSelector =
     (if isExternalAPIServer
      then \<lparr>svcMeta = plain_meta (nnNamespace svcKey) (nnName svcKey),
        svcPorts = [\<lparr>svcPort = validateInt32 webHookServicePort, svcTargetPort = 0\<rparr>],
        svcSelector = Map.empty, svcClusterIP = []\<rparr>
      else \<lparr>svcMeta = plain_meta (nnNamespace svcKey) (nnName svcKey),
        svcPorts = [\<lparr>svcPort = validateInt32 webHookServicePort, svcTargetPort = ucast webHookPort\<rparr>],
        svcSelector = deploymentSelector, svcClusterIP = []\<rparr>)"

definition newWebhookEndpointTemplate :: "NamespacedName \<Rightarrow> go_int \<Rightarrow> string \<Rightarrow> Endpoints" where
  "newWebhookEndpointTemplate svcKey webHookServicePort serviceClusterIP =
     \<lparr>epMeta = plain_meta (nnNamespace svcKey) (nnName svcKey),
      epSubsets = [([serviceClusterIP], [validateInt32 webHookServicePort])]\<rparr>"

definition newValidatingWebhookCfg ::
  "NamespacedName \<Rightarrow> string \<Rightarrow> string \<Rightarrow> bytes \<Rightarrow> GroupVersionKind \<Rightarrow> string list \<Rightarrow> WebhookConfiguration" where
  "newValidatingWebhookCfg svcKey validatorName path ca gvk ops =
     \<lparr>wcMeta = plain_meta [] validatorName,
      wcWebhooks = [\<lparr>vwName = validatorName, vwAdmissionReviewVersions = [''v1beta1''],
        vwSideEffects = Some ''None'', vwFailurePolicy = Some ''Ignore'',
        vwService = Some \<lparr>srNamespace = nnNamespace svcKey, srName = nnName svcKey, srPath = Some path\<rparr>,
        vwCABundle = ca,
        vwRules = [\<lparr>wrAPIGroups = [gvkGroup gvk], wrAPIVersions = [gvkVersion gvk],
          wrResources = [gvkKind gvk], wrOperations = ops\<rparr>],
        vwTimeoutSeconds = Some 30\<rparr>]\<rparr>"

definition setOwnerReferences :: "'w Env \<Rightarrow> string \<Rightarrow> string \<Rightarrow> ObjectMeta \<Rightarrow> 'w \<Rightarrow> ObjectMeta \<times> 'w" where
  "setOwnerReferences c deployNs deployLabel obj w =
     (case kGet (deployments c) (nskey deployNs deployLabel) w of
        (Inl _, w) \<Rightarrow> (obj, w)
      | (Inr owner, w) \<Rightarrow> (obj\<lparr>omOwnerReferences := [\<lparr>orAPIVersion = ''apps/v1'', orKind = ''Deployment'',
          orName = omName (ooMeta owner), orUID = ooUID owner, orController = False\<rparr>]\<rparr>, w))"

definition setWebhookOwnerReferences :: "'w Env \<Rightarrow> ObjectMeta \<Rightarrow> 'w \<Rightarrow> ObjectMeta \<times> 'w" where
  "setWebhookOwnerReferences c obj w =
     (case kGet (crds c) (nskey [] ''channels.apps.open-cluster-management.io'') w of
        (Inl _, w) \<Rightarrow> (obj, w)
      | (Inr owner, w) \<Rightarrow> (obj\<lparr>omOwnerReferences := [\<lparr>orAPIVersion = ''apiextensions.k8s.io/v1'',
          orKind = ''CustomResourceDefinition'', orName = omName (ooMeta owner), orUID = ooUID owner,
          orController = False\<rparr>]\<rparr>, w))"

section \<open>Creating the objects\<close>

definition createOrRecreate :: "('w, 'o) kind_client \<Rightarrow> 'o \<Rightarrow> 'w \<Rightarrow> (api_err + 'o) \<times> 'w" where
  "createOrRecreate c obj w =
     (case kCreate c obj w of
        (Inr created, w) \<Rightarrow> (Inr created, w)
      | (Inl er, w) \<Rightarrow>
          if er \<noteq> AlreadyExists then (Inl er, w)
          else (case kDelete c obj w of
              (Inl delErr, w) \<Rightarrow> if delErr \<noteq> NotFound then (Inl delErr, w) else kCreate c obj w
            | (Inr _, w) \<Rightarrow> kCreate c obj w))"

text \<open>What precedes each creation: a read, and a deletion if it found the object.\<close>

definition deleteExisting :: "('w, 'o) kind_client \<Rightarrow> NamespacedName \<Rightarrow> 'w \<Rightarrow> api_err option \<times> 'w" where
  "deleteExisting c key w =
     (case kGet c key w of
        (Inl _, w) \<Rightarrow> (None, w)
      | (Inr existing, w) \<Rightarrow>
          (case kDelete c existing w of
             (Inl deleteErr, w) \<Rightarrow> (Some deleteErr, w)
           | (Inr _, w) \<Rightarrow> (None, w)))"

text \<open>Steps 2 to 4, for a hosted cluster; the argument is the service that step 1 created.\<close>

definition wireHostedCluster ::
  "'w Env \<Rightarrow> 'w Env \<Rightarrow> 'h WireUp \<Rightarrow> Service \<Rightarrow> 'w \<Rightarrow> go_error option \<times> 'w" where
  "wireHostedCluster eIn eOut wu inClusterService w =
     (case deleteExisting (services eOut) (WebHookeSvcKey wu) w of
        (Some er, w) \<Rightarrow> (Some (ApiError er), w)
      | (None, w) \<Rightarrow>
     (case createOrRecreate (services eOut) (newWebhookServiceTemplate True (WebHookeSvcKey wu) (WebHookPort wu)
             (WebHookServicePort wu) (DeploymentSelector wu)) w of
        (Inl er, w) \<Rightarrow> (Some (ApiError er), w)
      | (Inr _, w) \<Rightarrow>
     (case (if svcClusterIP inClusterService = []
            then (case kGet (services eIn) (WebHookeSvcKey wu) w of
                    (Inl er, w) \<Rightarrow> (Inl er, w)
                  | (Inr service, w) \<Rightarrow> (Inr (svcClusterIP service), w))
            else (Inr (svcClusterIP inClusterService), w)) of
        (Inl er, w) \<Rightarrow> (Some (ApiError er), w)
      | (Inr serviceClusterIP, w) \<Rightarrow>
          if serviceClusterIP = []
          then (Some (NewErr (''no service Cluster IP found: '' @ nnString eOut (WebHookeSvcKey wu))), w)
          else
     (case deleteExisting (endpoints eOut) (WebHookeSvcKey wu) w of
        (Some er, w) \<Rightarrow> (Some (ApiError er), w)
      | (None, w) \<Rightarrow>
     (case createOrRecreate (endpoints eOut)
             (newWebhookEndpointTemplate (WebHookeSvcKey wu) (WebHookServicePort wu) serviceClusterIP) w of
        (Inl er, w) \<Rightarrow> (Some (ApiError er), w)
      | (Inr _, w) \<Rightarrow> (None, w))))))"

definition getOrCreateWebhookService ::
  "'w Env \<Rightarrow> 'w Env \<Rightarrow> 'h WireUp \<Rightarrow> bool \<Rightarrow> 'w \<Rightarrow> go_error option \<times> 'w" where
  "getOrCreateWebhookService eIn eOut wu isExternalAPIServer w =
     (case deleteExisting (services eIn) (WebHookeSvcKey wu) w of
        (Some er, w) \<Rightarrow> (Some (ApiError er), w)
      | (None, w) \<Rightarrow>
         (let newService = newWebhookServiceTemplate False (WebHookeSvcKey wu) (WebHookPort wu)
                (WebHookServicePort wu) (DeploymentSelector wu)
          in case setOwnerReferences eIn (nnNamespace (WebHookeSvcKey wu)) (DeployLabel wu) (svcMeta newService) w of
            (m, w) \<Rightarrow>
             (case createOrRecreate (services eIn) (newService\<lparr>svcMeta := m\<rparr>) w of
                (Inl er, w) \<Rightarrow> (Some (ApiError er), w)
              | (Inr inClusterService, w) \<Rightarrow>
                  if \<not> isExternalAPIServer then (None, w)
                  else wireHostedCluster eIn eOut wu inClusterService w)))"

text \<open>The assignments to \<open>validator.Webhooks[0]\<close>.\<close>

definition refreshWebhook :: "NamespacedName \<Rightarrow> bytes \<Rightarrow> WebhookConfiguration \<Rightarrow> WebhookConfiguration outcome" where
  "refreshWebhook svcKey ca validator =
     (case wcWebhooks validator of
        [] \<Rightarrow> Panic IndexOutOfRange
      | hook # hooks \<Rightarrow>
          (case vwService hook of
             None \<Rightarrow> Panic NilDereference
           | Some s \<Rightarrow> Return (validator\<lparr>wcWebhooks := hook\<lparr>
               vwService := Some (s\<lparr>srNamespace := nnNamespace svcKey, srName := nnName svcKey\<rparr>),
               vwCABundle := ca, vwFailurePolicy := Some ''Ignore'', vwTimeoutSeconds := Some 30\<rparr> # hooks\<rparr>)))"

text \<open>
  A read error other than NotFound is neither returned nor acted on: the code goes on to the
  service.
\<close>

definition createOrUpdateValiationWebhook ::
  "'w Env \<Rightarrow> 'w Env \<Rightarrow> 'h WireUp \<Rightarrow> bool \<Rightarrow> bytes \<Rightarrow> GroupVersionKind \<Rightarrow> string list \<Rightarrow> 'w \<Rightarrow> go_error option outcome \<times> 'w" where
  "createOrUpdateValiationWebhook eIn eOut wu isExternalAPIServer ca gvk ops w =
     (let validatorName = GetValidatorName (WebhookName wu);
          finish = (\<lambda>w. case getOrCreateWebhookService eIn eOut wu isExternalAPIServer w of
             (r, w) \<Rightarrow> (Return (Wrap r ''failed to set up service for webhook''), w))
      in case kGet (webhookConfigs eOut) (nskey [] validatorName) w of
        (Inl er, w) \<Rightarrow>
          if er = NotFound then
            (let cfg = newValidatingWebhookCfg (WebHookeSvcKey wu) validatorName (ValidtorPath wu) ca gvk ops
             in case setWebhookOwnerReferences eOut (wcMeta cfg) w of
               (m, w) \<Rightarrow>
                (case kCreate (webhookConfigs eOut) (cfg\<lparr>wcMeta := m\<rparr>) w of
                   (Inl er, w) \<Rightarrow> (Return (Some (WrapErr (ApiError er) (''Failed to create validating webhook '' @ validatorName))), w)
                 | (Inr _, w) \<Rightarrow> finish w))
          else finish w
      | (Inr validator, w) \<Rightarrow>
          (case refreshWebhook (WebHookeSvcKey wu) ca validator of
             Panic p \<Rightarrow> (Panic p, w)
           | Return validator \<Rightarrow>
              (case setWebhookOwnerReferences eOut (wcMeta validator) w of
                 (m, w) \<Rightarrow>
                  (case kUpdate (webhookConfigs eOut) (validator\<lparr>wcMeta := m\<rparr>) w of
                     (Inl er, w) \<Rightarrow> (Return (Some (WrapErr (ApiError er) (''Failed to update validating webhook '' @ validatorName))), w)
                   | (Inr _, w) \<Rightarrow> finish w))))"

text \<open>The configuration of release 2.0 is removed.\<close>

definition DelPreValiationCfg20 :: "'w Env \<Rightarrow> 'w \<Rightarrow> go_error option \<times> 'w" where
  "DelPreValiationCfg20 clt w =
     (case kGet (webhookConfigs clt) (nskey [] ''channel-webhook-validator'') w of
        (Inl er, w) \<Rightarrow> if er = NotFound then (None, w) else (Some (ApiError er), w)
      | (Inr pCfg, w) \<Rightarrow>
          (case kDelete (webhookConfigs clt) pCfg w of
             (Inl er, w) \<Rightarrow> (Some (ApiError er), w)
           | (Inr _, w) \<Rightarrow> (None, w)))"

fun runCleanUps :: "('w Env \<Rightarrow> 'w \<Rightarrow> go_error option \<times> 'w) list \<Rightarrow> 'w Env \<Rightarrow> 'w \<Rightarrow> go_error option \<times> 'w" where
  "runCleanUps [] eOut w = (None, w)"
| "runCleanUps (cf # cFuncs) eOut w =
     (case cf eOut w of
        (Some er, w) \<Rightarrow> (Some (WrapErr er ''failed to clean up''), w)
      | (None, w) \<Rightarrow> runCleanUps cFuncs eOut w)"

text \<open>A cache that does not start is only logged.\<close>

definition WireUpWebhookSupplymentryResource ::
  "'w Env \<Rightarrow> 'w Env \<Rightarrow> 'h WireUp \<Rightarrow> bool \<Rightarrow> bytes \<Rightarrow> GroupVersionKind \<Rightarrow> string list \<Rightarrow>
   ('w Env \<Rightarrow> 'w \<Rightarrow> go_error option \<times> 'w) list \<Rightarrow> 'w \<Rightarrow> go_error option outcome \<times> 'w" where
  "WireUpWebhookSupplymentryResource eIn eOut wu isExternalAPIServer caCert gvk ops cFuncs w =
     (case runCleanUps cFuncs eOut w of
        (Some er, w) \<Rightarrow> (Return (Some er), w)
      | (None, w) \<Rightarrow>
         (case createOrUpdateValiationWebhook eIn eOut wu isExternalAPIServer caCert gvk ops w of
            (Panic p, w) \<Rightarrow> (Panic p, w)
          | (Return r, w) \<Rightarrow> (Return (Wrap r ''failed to set up the validation webhook config''), w)))"

section \<open>Ports\<close>

interpretation port32: saturating validateInt32
proof
  fix x :: go_int
  have big: "sint (word_of_int (-2147483648) :: int32) = -2147483648" by (simp add: signed_of_int)
  show "sint (validateInt32 x) = max (- (2 ^ (LENGTH(32) - 1))) (min (2 ^ (LENGTH(32) - 1) - 1) (sint x))"
    using sint_ucast_exact [where 'b = 32 and 'a = 64, of x] big by (auto simp: validateInt32_def)
qed

section \<open>One object at a time\<close>

context kind_api
begin

lemma createOrRecreate_ok:
  assumes "createOrRecreate ops ob w = (Inr ob', w')"
  shows "fill ob ob'" and "st w' = upd (\<lambda>m. m(key_of_meta (meta ob) \<mapsto> ob')) (st w)"
proof -
  let ?k = "key_of_meta (meta ob)"
  obtain r w1 where c: "kCreate ops ob w = (r, w1)" by fastforce
  have "fill ob ob' \<and> st w' = upd (\<lambda>m. m(?k \<mapsto> ob')) (st w)"
  proof (cases r)
    case (Inr x)
    then have "kCreate ops ob w = (Inr ob', w')" using assms c by (simp add: createOrRecreate_def)
    then show ?thesis by (auto dest: create_ok)
  next
    case (Inl er)
    then have er: "er = AlreadyExists" using assms c by (auto simp: createOrRecreate_def split: if_splits)
    obtain d w2 where d: "kDelete ops ob w1 = (d, w2)" by fastforce
    have st1: "st w1 = st w" using create_exists [of ob w w1] c Inl er by simp
    have again: "kCreate ops ob w2 = (Inr ob', w')" and "\<forall>x. d = Inl x \<longrightarrow> x = NotFound"
      using assms c d Inl er by (auto simp: createOrRecreate_def split: sum.splits if_splits)
    then have "st w2 = upd (\<lambda>m. m(?k := None)) (st w) \<or> st w2 = st w"
      using d delete_ok [of ob w1 _ w2] delete_nf [of ob w1 w2] st1 by (cases d) auto
    then show ?thesis using create_ok [OF again] by (auto simp: upd_upd)
  qed
  then show "fill ob ob'" and "st w' = upd (\<lambda>m. m(?k \<mapsto> ob')) (st w)" by auto
qed

text \<open>Whatever happens, only the entry under the object's key may differ.\<close>

definition entry_step where
  "entry_step k s s' \<longleftrightarrow> s' = s \<or> (\<exists>v. s' = upd (\<lambda>m. m(k := v)) s)"

lemma entry_step_refl [simp]: "entry_step k s s"
  by (simp add: entry_step_def)

lemma entry_step_trans: "entry_step k s s1 \<Longrightarrow> entry_step k s1 s2 \<Longrightarrow> entry_step k s s2"
  by (auto simp: entry_step_def upd_upd)

lemma create_entry: "kCreate ops ob w = (r, w') \<Longrightarrow> entry_step (key_of_meta (meta ob)) (st w) (st w')"
  by (auto simp: entry_step_def dest: create_touches)

lemma delete_entry: "kDelete ops ob w = (r, w') \<Longrightarrow> entry_step (key_of_meta (meta ob)) (st w) (st w')"
  by (auto simp: entry_step_def dest: delete_touches)

lemma createOrRecreate_entry:
  assumes "createOrRecreate ops ob w = (r, w')"
  shows "entry_step (key_of_meta (meta ob)) (st w) (st w')"
proof -
  obtain r1 w1 where c: "kCreate ops ob w = (r1, w1)" by fastforce
  obtain r2 w2 where d: "kDelete ops ob w1 = (r2, w2)" by fastforce
  obtain r3 w3 where c2: "kCreate ops ob w2 = (r3, w3)" by fastforce
  have "w' = w1 \<or> w' = w2 \<or> w' = w3"
    using assms c d c2 by (auto simp: createOrRecreate_def split: sum.splits if_splits)
  then show ?thesis using create_entry [OF c] delete_entry [OF d] create_entry [OF c2] entry_step_trans by blast
qed

lemma deleteExisting_entry:
  assumes "deleteExisting ops k w = (r, w')"
  shows "entry_step k (st w) (st w')"
proof -
  obtain g w1 where g: "kGet ops k w = (g, w1)" by fastforce
  show ?thesis
  proof (cases g)
    case (Inl er)
    then show ?thesis using assms g get_st [OF g] by (simp add: deleteExisting_def)
  next
    case (Inr ob)
    then have "key_of_meta (meta ob) = k" using g get_ok keyed by blast
    moreover obtain d where "kDelete ops ob w1 = (d, w')"
      using assms g Inr by (auto simp: deleteExisting_def split: prod.splits sum.splits)
    ultimately show ?thesis using delete_entry [of ob w1 d w'] get_st [OF g] by simp
  qed
qed

end

context kind_api_calm
begin

lemma deleteExisting_calm:
  assumes "calm w"
  shows "\<exists>w'. calm w' \<and> deleteExisting ops k w = (None, w') \<and> sel (st w') k = None"
proof -
  obtain w1 where w1: "calm w1" "kGet ops k w = (case sel (st w) k of None \<Rightarrow> Inl NotFound | Some ob \<Rightarrow> Inr ob, w1)"
    using calm_get [OF assms] by blast
  note st1 = get_st [OF w1(2)]
  show ?thesis
  proof (cases "sel (st w) k")
    case None
    then show ?thesis using w1 st1 by (auto simp: deleteExisting_def)
  next
    case (Some ob)
    note key = keyed [OF Some]
    then obtain w2 where w2: "calm w2" "kDelete ops ob w1 = (Inr (), w2)"
      using calm_delete [OF w1(1), of ob] Some st1 by auto
    then show ?thesis using w1 Some delete_ok [OF w2(2)] key by (auto simp: deleteExisting_def sel_upd)
  qed
qed

lemma createOrRecreate_calm:
  assumes "calm w" and "sel (st w) (key_of_meta (meta ob)) = None"
  shows "\<exists>ob' w'. calm w' \<and> createOrRecreate ops ob w = (Inr ob', w')"
  using calm_create [OF assms] by (auto simp: createOrRecreate_def)

end

section \<open>The service of the webhook\<close>

text \<open>The service that sends the calls of the API server to the operator's pod.\<close>

definition webhook_service :: "'h WireUp \<Rightarrow> Service \<Rightarrow> bool" where
  "webhook_service wu svc \<longleftrightarrow> key_of_meta (svcMeta svc) = WebHookeSvcKey wu \<and>
     svcPorts svc = [\<lparr>svcPort = validateInt32 (WebHookServicePort wu), svcTargetPort = ucast (WebHookPort wu)\<rparr>] \<and>
     svcSelector svc = DeploymentSelector wu"

text \<open>The service of a hosted cluster has no pods to select; its endpoints are written by hand.\<close>

definition hosted_service :: "'h WireUp \<Rightarrow> Service \<Rightarrow> bool" where
  "hosted_service wu svc \<longleftrightarrow> key_of_meta (svcMeta svc) = WebHookeSvcKey wu \<and>
     svcPorts svc = [\<lparr>svcPort = validateInt32 (WebHookServicePort wu), svcTargetPort = 0\<rparr>] \<and>
     svcSelector svc = Map.empty"

definition hosted_endpoint :: "'h WireUp \<Rightarrow> string \<Rightarrow> Endpoints \<Rightarrow> bool" where
  "hosted_endpoint wu ip ep \<longleftrightarrow> key_of_meta (epMeta ep) = WebHookeSvcKey wu \<and>
     epSubsets ep = [([ip], [validateInt32 (WebHookServicePort wu)])]"

lemma service_template_fill:
  assumes "svc_fill ((newWebhookServiceTemplate ext (WebHookeSvcKey wu) (WebHookPort wu) (WebHookServicePort wu)
      (DeploymentSelector wu))\<lparr>svcMeta := m\<rparr>) svc"
    and "key_of_meta m = WebHookeSvcKey wu"
  shows "ext = False \<Longrightarrow> webhook_service wu svc" and "ext = True \<Longrightarrow> hosted_service wu svc"
  using assms by (auto simp: svc_fill_def newWebhookServiceTemplate_def webhook_service_def hosted_service_def)

lemma template_keys [simp]:
  "key_of_meta (svcMeta (newWebhookServiceTemplate ext k p q sel)) = k"
  "key_of_meta (epMeta (newWebhookEndpointTemplate k p ip)) = k"
  by (simp_all add: newWebhookServiceTemplate_def newWebhookEndpointTemplate_def)

lemma meta_owners_key [simp]: "key_of_meta (omOwnerReferences_update f m) = key_of_meta m"
  by (simp add: key_of_meta_def)

context kube_api
begin

lemma setOwner_st:
  assumes "setOwnerReferences e ns l m w = (m', w')"
  shows "st w' = st w" and "key_of_meta m' = key_of_meta m"
  using assms by (auto simp: setOwnerReferences_def split: prod.splits sum.splits dest: dpl.get_st)

lemma setWebhookOwner_st:
  assumes "setWebhookOwnerReferences e m w = (m', w')"
  shows "st w' = st w" and "key_of_meta m' = key_of_meta m"
  using assms by (auto simp: setWebhookOwnerReferences_def split: prod.splits sum.splits dest: crd.get_st)

text \<open>Step 1 on its own: the result, and the only entry that may change.\<close>

lemma create_service:
  assumes "setOwnerReferences e ns l (svcMeta (newWebhookServiceTemplate False (WebHookeSvcKey wu) (WebHookPort wu)
      (WebHookServicePort wu) (DeploymentSelector wu))) w = (m, w1)"
    and "createOrRecreate (services e) ((newWebhookServiceTemplate False (WebHookeSvcKey wu) (WebHookPort wu)
      (WebHookServicePort wu) (DeploymentSelector wu))\<lparr>svcMeta := m\<rparr>) w1 = (r, w2)"
  shows "svc.entry_step (WebHookeSvcKey wu) (st w) (st w2)"
    and "r = Inr sv \<Longrightarrow> clServices (st w2) (WebHookeSvcKey wu) = Some sv \<and> webhook_service wu sv"
proof -
  note o = setOwner_st [OF assms(1)]
  then have key: "key_of_meta m = WebHookeSvcKey wu" by simp
  show "svc.entry_step (WebHookeSvcKey wu) (st w) (st w2)"
    using svc.createOrRecreate_entry [OF assms(2)] o(1) key by simp
  assume "r = Inr sv"
  then have run: "createOrRecreate (services e) ((newWebhookServiceTemplate False (WebHookeSvcKey wu) (WebHookPort wu)
      (WebHookServicePort wu) (DeploymentSelector wu))\<lparr>svcMeta := m\<rparr>) w1 = (Inr sv, w2)" using assms(2) by simp
  from svc.createOrRecreate_ok [OF run] service_template_fill(1) [OF _ key, of False] key
  show "clServices (st w2) (WebHookeSvcKey wu) = Some sv \<and> webhook_service wu sv" by auto
qed

lemma getOrCreate_local:
  assumes run: "getOrCreateWebhookService e eOut wu False w = (r, w')"
  shows "svc.entry_step (WebHookeSvcKey wu) (st w) (st w')"
    and "r = None \<Longrightarrow> \<exists>sv. clServices (st w') (WebHookeSvcKey wu) = Some sv \<and> webhook_service wu sv"
proof -
  let ?t = "newWebhookServiceTemplate False (WebHookeSvcKey wu) (WebHookPort wu) (WebHookServicePort wu) (DeploymentSelector wu)"
  obtain d w1 where d: "deleteExisting (services e) (WebHookeSvcKey wu) w = (d, w1)" by fastforce
  obtain m w2 where m: "setOwnerReferences e (nnNamespace (WebHookeSvcKey wu)) (DeployLabel wu) (svcMeta ?t) w1 = (m, w2)" by fastforce
  obtain c w3 where c: "createOrRecreate (services e) (?t\<lparr>svcMeta := m\<rparr>) w2 = (c, w3)" by fastforce
  note s = create_service [OF m c]
  have run': "w' = w1 \<and> r \<noteq> None \<or> w' = w3 \<and> (r = None \<longrightarrow> (\<exists>sv. c = Inr sv))"
    using run d m c by (auto simp: getOrCreateWebhookService_def Let_def split: option.splits sum.splits)
  then show "svc.entry_step (WebHookeSvcKey wu) (st w) (st w')"
    using svc.deleteExisting_entry [OF d] s(1) svc.entry_step_trans by blast
  show "r = None \<Longrightarrow> \<exists>sv. clServices (st w') (WebHookeSvcKey wu) = Some sv \<and> webhook_service wu sv"
    using run' s(2) by blast
qed

end

context kube_api_calm
begin

lemma setOwner_calm:
  assumes "calm w" and "setOwnerReferences e ns l m w = (m', w')"
  shows "calm w'"
  using dpl.calm_get [OF assms(1), of "nskey ns l"] assms(2)
  by (auto simp: setOwnerReferences_def split: prod.splits sum.splits option.splits)

lemma setWebhookOwner_calm:
  assumes "calm w" and "setWebhookOwnerReferences e m w = (m', w')"
  shows "calm w'"
  using crd.calm_get [OF assms(1), of "nskey [] ''channels.apps.open-cluster-management.io''"] assms(2)
  by (auto simp: setWebhookOwnerReferences_def split: prod.splits sum.splits option.splits)

lemma getOrCreate_calm:
  assumes calm: "calm w"
  shows "\<exists>w'. calm w' \<and> getOrCreateWebhookService e eOut wu False w = (None, w')"
proof -
  let ?t = "newWebhookServiceTemplate False (WebHookeSvcKey wu) (WebHookPort wu) (WebHookServicePort wu) (DeploymentSelector wu)"
  obtain w1 where w1: "calm w1" "deleteExisting (services e) (WebHookeSvcKey wu) w = (None, w1)"
      "clServices (st w1) (WebHookeSvcKey wu) = None"
    using svc.deleteExisting_calm [OF calm] by blast
  obtain m w2 where m: "setOwnerReferences e (nnNamespace (WebHookeSvcKey wu)) (DeployLabel wu) (svcMeta ?t) w1 = (m, w2)" by fastforce
  note o = setOwner_st [OF m] setOwner_calm [OF w1(1) m]
  have "clServices (st w2) (key_of_meta (svcMeta (?t\<lparr>svcMeta := m\<rparr>))) = None" using o w1(3) by simp
  from svc.createOrRecreate_calm [OF o(3) this] w1(2) m show ?thesis
    by (auto simp: getOrCreateWebhookService_def Let_def)
qed

end

section \<open>The configuration of the webhook\<close>

definition config_wired :: "'h WireUp \<Rightarrow> bytes \<Rightarrow> WebhookConfiguration \<Rightarrow> bool" where
  "config_wired wu ca cfg \<longleftrightarrow> (\<exists>hook hooks s. wcWebhooks cfg = hook # hooks \<and> vwService hook = Some s \<and>
     nskey (srNamespace s) (srName s) = WebHookeSvcKey wu \<and> vwCABundle hook = ca \<and>
     vwFailurePolicy hook = Some ''Ignore'' \<and> vwTimeoutSeconds hook = Some 30)"

text \<open>The configurations the update code can handle.\<close>

definition refreshable :: "WebhookConfiguration \<Rightarrow> bool" where
  "refreshable cfg \<longleftrightarrow> (\<exists>hook hooks. wcWebhooks cfg = hook # hooks \<and> vwService hook \<noteq> None)"

lemma refreshWebhook_result:
  "refreshable cfg \<Longrightarrow> \<exists>cfg'. refreshWebhook (WebHookeSvcKey wu) ca cfg = Return cfg' \<and> config_wired wu ca cfg' \<and>
     wcMeta cfg' = wcMeta cfg"
  by (auto simp: refreshable_def refreshWebhook_def config_wired_def)

lemma refreshWebhook_panic:
  "\<not> refreshable cfg \<Longrightarrow> \<exists>p. refreshWebhook k ca cfg = Panic p"
  by (auto simp: refreshable_def refreshWebhook_def split: list.splits option.splits)

lemma config_wired_meta [simp]: "config_wired wu ca (cfg\<lparr>wcMeta := m\<rparr>) = config_wired wu ca cfg"
  by (simp add: config_wired_def)

lemma new_config_wired: "config_wired wu ca (newValidatingWebhookCfg (WebHookeSvcKey wu) n p ca g ops)"
  by (simp add: config_wired_def newValidatingWebhookCfg_def)

text \<open>The name of the configuration never is that of the one it replaces.\<close>

lemma GetValidatorName_new: "GetValidatorName n \<noteq> ''channel-webhook-validator''"
proof
  assume "GetValidatorName n = ''channel-webhook-validator''"
  then have "rev ''.validator'' @ rev (strings_ReplaceAll n CHR ''-'' CHR ''.'') = rev ''channel-webhook-validator''"
    unfolding GetValidatorName_def by (metis rev_append)
  then show False by simp
qed

lemma GetValidatorName_dots: "CHR ''-'' \<notin> set (GetValidatorName n)"
  by (auto simp: GetValidatorName_def strings_ReplaceAll_def)

context kube_api
begin

lemma service_step_configs: "svc.entry_step k c c' \<Longrightarrow> clWebhookConfigs c' = clWebhookConfigs c"
  by (auto simp: svc.entry_step_def)

end

context kube_api_calm
begin

text \<open>One cluster: the manager's client and the in-cluster client are the same.\<close>

lemma createOrUpdate_calm:
  assumes calm: "calm w"
    and there: "\<And>cfg. clWebhookConfigs (st w) (nskey [] (GetValidatorName (WebhookName wu))) = Some cfg \<Longrightarrow> refreshable cfg"
  shows "\<exists>w' cfg sv. calm w' \<and> createOrUpdateValiationWebhook e e wu False ca g ops w = (Return None, w') \<and>
    clWebhookConfigs (st w') = (clWebhookConfigs (st w))(nskey [] (GetValidatorName (WebhookName wu)) \<mapsto> cfg) \<and>
    config_wired wu ca cfg \<and> clServices (st w') (WebHookeSvcKey wu) = Some sv \<and> webhook_service wu sv"
proof -
  let ?n = "GetValidatorName (WebhookName wu)"
  let ?k = "nskey [] ?n"
  have "\<exists>cfg w2. calm w2 \<and> config_wired wu ca cfg \<and> clWebhookConfigs (st w2) = (clWebhookConfigs (st w))(?k \<mapsto> cfg) \<and>
      createOrUpdateValiationWebhook e e wu False ca g ops w =
        (case getOrCreateWebhookService e e wu False w2 of (r, w) \<Rightarrow> (Return (Wrap r ''failed to set up service for webhook''), w))"
  proof -
    obtain w1 where w1: "calm w1" "kGet (webhookConfigs e) ?k w =
        (case clWebhookConfigs (st w) ?k of None \<Rightarrow> Inl NotFound | Some ob \<Rightarrow> Inr ob, w1)"
      using wcf.calm_get [OF calm] by blast
    note st1 = wcf.get_st [OF w1(2)]
    show ?thesis
    proof (cases "clWebhookConfigs (st w) ?k")
      case None
      let ?c = "newValidatingWebhookCfg (WebHookeSvcKey wu) ?n (ValidtorPath wu) ca g ops"
      obtain m w2 where m: "setWebhookOwnerReferences e (wcMeta ?c) w1 = (m, w2)" by fastforce
      note o = setWebhookOwner_st [OF m] setWebhookOwner_calm [OF w1(1) m]
      have key: "key_of_meta m = ?k" using o(2) by (simp add: newValidatingWebhookCfg_def)
      then obtain x w3 where w3: "calm w3" "kCreate (webhookConfigs e) (?c\<lparr>wcMeta := m\<rparr>) w2 = (Inr x, w3)"
        using wcf.calm_create [OF o(3), of "?c\<lparr>wcMeta := m\<rparr>"] None o(1) st1 by auto
      with wcf.create_ok [OF w3(2)] key o(1) st1 None w1 m new_config_wired
      show ?thesis by (intro exI [of _ x] exI [of _ w3]) (auto simp: createOrUpdateValiationWebhook_def Let_def)
    next
      case (Some old)
      obtain new where new: "refreshWebhook (WebHookeSvcKey wu) ca old = Return new" "config_wired wu ca new" "wcMeta new = wcMeta old"
        using refreshWebhook_result [OF there [OF Some]] by blast
      obtain m w2 where m: "setWebhookOwnerReferences e (wcMeta new) w1 = (m, w2)" by fastforce
      note o = setWebhookOwner_st [OF m] setWebhookOwner_calm [OF w1(1) m]
      have key: "key_of_meta m = ?k" using o(2) new(3) wcf.keyed [OF Some] by simp
      then obtain x w3 where w3: "calm w3" "kUpdate (webhookConfigs e) (new\<lparr>wcMeta := m\<rparr>) w2 = (Inr x, w3)"
        using wcf.calm_update [OF o(3) _ any_update_True, of "new\<lparr>wcMeta := m\<rparr>" old] Some o(1) st1 by auto
      with wcf.update_ok [OF w3(2)] key o(1) st1 Some w1 m new
      show ?thesis by (intro exI [of _ x] exI [of _ w3]) (auto simp: createOrUpdateValiationWebhook_def Let_def)
    qed
  qed
  then obtain cfg w2 where cfg: "calm w2" "config_wired wu ca cfg" "clWebhookConfigs (st w2) = (clWebhookConfigs (st w))(?k \<mapsto> cfg)"
      "createOrUpdateValiationWebhook e e wu False ca g ops w =
        (case getOrCreateWebhookService e e wu False w2 of (r, w) \<Rightarrow> (Return (Wrap r ''failed to set up service for webhook''), w))"
    by blast
  obtain w3 where w3: "calm w3" "getOrCreateWebhookService e e wu False w2 = (None, w3)"
    using getOrCreate_calm [OF cfg(1)] by blast
  note s = service_step_configs [OF getOrCreate_local(1) [OF w3(2)]] getOrCreate_local(2) [OF w3(2)]
  from s(2) obtain sv where "clServices (st w3) (WebHookeSvcKey wu) = Some sv" "webhook_service wu sv" by blast
  with s(1) cfg w3 show ?thesis by auto
qed

lemma DelPre_calm:
  assumes calm: "calm w"
  shows "\<exists>w'. calm w' \<and> DelPreValiationCfg20 e w = (None, w') \<and>
    clWebhookConfigs (st w') = (clWebhookConfigs (st w))(nskey [] ''channel-webhook-validator'' := None)"
proof -
  let ?k = "nskey [] ''channel-webhook-validator''"
  obtain w1 where w1: "calm w1" "kGet (webhookConfigs e) ?k w =
      (case clWebhookConfigs (st w) ?k of None \<Rightarrow> Inl NotFound | Some ob \<Rightarrow> Inr ob, w1)"
    using wcf.calm_get [OF calm] by blast
  note st1 = wcf.get_st [OF w1(2)]
  show ?thesis
  proof (cases "clWebhookConfigs (st w) ?k")
    case None
    then show ?thesis using w1 st1 by (auto simp: DelPreValiationCfg20_def fun_upd_idem)
  next
    case (Some old)
    note key = wcf.keyed [OF Some]
    obtain w2 where w2: "calm w2" "kDelete (webhookConfigs e) old w1 = (Inr (), w2)"
      using wcf.calm_delete [OF w1(1), of old] Some key st1 by auto
    with wcf.delete_ok [OF w2(2)] Some w1 key st1 show ?thesis by (auto simp: DelPreValiationCfg20_def)
  qed
qed

lemma WireUp_calm:
  assumes calm: "calm w"
    and there: "\<And>cfg. clWebhookConfigs (st w) (nskey [] (GetValidatorName (WebhookName wu))) = Some cfg \<Longrightarrow> refreshable cfg"
  shows "\<exists>w' cfg sv. calm w' \<and>
    WireUpWebhookSupplymentryResource e e wu False ca g ops [DelPreValiationCfg20] w = (Return None, w') \<and>
    clWebhookConfigs (st w') = (clWebhookConfigs (st w))(nskey [] ''channel-webhook-validator'' := None,
      nskey [] (GetValidatorName (WebhookName wu)) \<mapsto> cfg) \<and>
    config_wired wu ca cfg \<and> clServices (st w') (WebHookeSvcKey wu) = Some sv \<and> webhook_service wu sv"
proof -
  obtain w1 where w1: "calm w1" "DelPreValiationCfg20 e w = (None, w1)"
      "clWebhookConfigs (st w1) = (clWebhookConfigs (st w))(nskey [] ''channel-webhook-validator'' := None)"
    using DelPre_calm [OF calm] by blast
  have "refreshable cfg" if "clWebhookConfigs (st w1) (nskey [] (GetValidatorName (WebhookName wu))) = Some cfg" for cfg
    using that there GetValidatorName_new [of "WebhookName wu"] by (simp add: w1(3))
  from createOrUpdate_calm [OF w1(1) this, of wu ca g ops] w1 show ?thesis
    by (auto simp: WireUpWebhookSupplymentryResource_def)
qed

end

context kube_api
begin

lemma createOrUpdate_panics:
  assumes "kGet (webhookConfigs e) (nskey [] (GetValidatorName (WebhookName wu))) w = (Inr cfg, w1)" and "\<not> refreshable cfg"
  shows "\<exists>p. createOrUpdateValiationWebhook eIn e wu ext ca g ops w = (Panic p, w1)"
  using refreshWebhook_panic [OF assms(2), of "WebHookeSvcKey wu" ca] assms(1)
  by (auto simp: createOrUpdateValiationWebhook_def Let_def)

end

section \<open>A hosted cluster\<close>

text \<open>The calls of a client leave a state alone that it does not belong to.\<close>

definition keeps :: "('w, 'o) kind_client \<Rightarrow> ('w \<Rightarrow> 's) \<Rightarrow> bool" where
  "keeps c st \<longleftrightarrow> (\<forall>k w. st (snd (kGet c k w)) = st w) \<and> (\<forall>lo w. st (snd (kList c lo w)) = st w) \<and>
     (\<forall>ob w. st (snd (kCreate c ob w)) = st w \<and> st (snd (kUpdate c ob w)) = st w \<and> st (snd (kDelete c ob w)) = st w)"

lemma keepsD:
  assumes "keeps c st"
  shows "kGet c k w = (r1, w') \<Longrightarrow> st w' = st w" and "kCreate c ob w = (r2, w') \<Longrightarrow> st w' = st w"
    and "kDelete c ob w = (r3, w') \<Longrightarrow> st w' = st w"
  using assms unfolding keeps_def by (metis snd_conv)+

lemma deleteExisting_keeps:
  assumes "keeps c st" and "deleteExisting c k w = (r, w')"
  shows "st w' = st w"
  using assms(2) by (auto simp: deleteExisting_def split: prod.splits sum.splits dest!: keepsD [OF assms(1)])

lemma createOrRecreate_keeps:
  assumes "keeps c st" and "createOrRecreate c ob w = (r, w')"
  shows "st w' = st w"
  using assms(2)
  by (auto simp: createOrRecreate_def split: prod.splits sum.splits if_splits dest!: keepsD [OF assms(1)])

text \<open>Two clusters that are reached by separate clients.\<close>

locale two_clusters =
  mgmt: kube_api eIn stIn + hosted: kube_api eOut stOut
  for eIn eOut :: "'w Env" and stIn stOut :: "'w \<Rightarrow> cluster" +
  assumes in_services: "keeps (services eIn) stOut" and in_deployments: "keeps (deployments eIn) stOut"
    and out_services: "keeps (services eOut) stIn" and out_endpoints: "keeps (endpoints eOut) stIn"
begin

lemma wireHosted_result:
  assumes run: "wireHostedCluster eIn eOut wu sv w = (None, w')"
    and sv: "clServices (stIn w) (WebHookeSvcKey wu) = Some sv"
  shows "stIn w' = stIn w" and "svcClusterIP sv \<noteq> []"
    and "\<exists>hs ep. clServices (stOut w') (WebHookeSvcKey wu) = Some hs \<and> hosted_service wu hs \<and>
      clEndpoints (stOut w') (WebHookeSvcKey wu) = Some ep \<and> hosted_endpoint wu (svcClusterIP sv) ep"
proof -
  let ?k = "WebHookeSvcKey wu"
  let ?t = "newWebhookServiceTemplate True ?k (WebHookPort wu) (WebHookServicePort wu) (DeploymentSelector wu)"
  obtain w1 where d: "deleteExisting (services eOut) ?k w = (None, w1)"
    using run by (cases "deleteExisting (services eOut) ?k w") (auto simp: wireHostedCluster_def split: option.splits)
  obtain hs w2 where c: "createOrRecreate (services eOut) ?t w1 = (Inr hs, w2)"
    using run d by (cases "createOrRecreate (services eOut) ?t w1") (auto simp: wireHostedCluster_def split: sum.splits)
  note in2 = createOrRecreate_keeps [OF out_services c] deleteExisting_keeps [OF out_services d]
  obtain g w3 where g: "kGet (services eIn) ?k w2 = (g, w3)" by fastforce
  have found: "g = Inr x \<Longrightarrow> x = sv" for x using mgmt.svc.get_ok [of ?k w2 x w3] g in2 sv by simp
  have ip: "svcClusterIP sv \<noteq> []"
    using run d c g found by (auto simp: wireHostedCluster_def split: sum.splits)
  let ?e = "newWebhookEndpointTemplate ?k (WebHookServicePort wu) (svcClusterIP sv)"
  obtain w5 where d2: "deleteExisting (endpoints eOut) ?k w2 = (None, w5)"
    using run d c ip by (cases "deleteExisting (endpoints eOut) ?k w2") (auto simp: wireHostedCluster_def split: option.splits)
  obtain ep where c2: "createOrRecreate (endpoints eOut) ?e w5 = (Inr ep, w')"
    using run d c ip d2 by (cases "createOrRecreate (endpoints eOut) ?e w5") (auto simp: wireHostedCluster_def split: sum.splits)
  show "stIn w' = stIn w"
    using createOrRecreate_keeps [OF out_endpoints c2] deleteExisting_keeps [OF out_endpoints d2] in2 by simp
  show "svcClusterIP sv \<noteq> []" by (rule ip)
  note hs = hosted.svc.createOrRecreate_ok [OF c]
  note e2 = hosted.epn.createOrRecreate_ok [OF c2]
  have "hosted_service wu hs" using service_template_fill(2) [where ext = True and wu = wu and m = "svcMeta ?t" and svc = hs] hs(1) by simp
  moreover have "clServices (stOut w') ?k = Some hs"
    using hosted.epn.deleteExisting_entry [OF d2] hs(2) e2(2) by (auto simp: hosted.epn.entry_step_def)
  moreover have "hosted_endpoint wu (svcClusterIP sv) ep" "clEndpoints (stOut w') ?k = Some ep"
    using e2 by (auto simp: hosted_endpoint_def newWebhookEndpointTemplate_def)
  ultimately show "\<exists>hs ep. clServices (stOut w') ?k = Some hs \<and> hosted_service wu hs \<and>
      clEndpoints (stOut w') ?k = Some ep \<and> hosted_endpoint wu (svcClusterIP sv) ep" by blast
qed

lemma getOrCreate_hosted:
  assumes run: "getOrCreateWebhookService eIn eOut wu True w = (None, w')"
  shows "\<exists>sv hs ep. clServices (stIn w') (WebHookeSvcKey wu) = Some sv \<and> webhook_service wu sv \<and> svcClusterIP sv \<noteq> [] \<and>
    clServices (stOut w') (WebHookeSvcKey wu) = Some hs \<and> hosted_service wu hs \<and>
    clEndpoints (stOut w') (WebHookeSvcKey wu) = Some ep \<and> hosted_endpoint wu (svcClusterIP sv) ep"
proof -
  let ?k = "WebHookeSvcKey wu"
  let ?t = "newWebhookServiceTemplate False ?k (WebHookPort wu) (WebHookServicePort wu) (DeploymentSelector wu)"
  obtain w1 where d: "deleteExisting (services eIn) ?k w = (None, w1)"
    using run by (cases "deleteExisting (services eIn) ?k w") (auto simp: getOrCreateWebhookService_def split: option.splits)
  obtain m w2 where m: "setOwnerReferences eIn (nnNamespace ?k) (DeployLabel wu) (svcMeta ?t) w1 = (m, w2)" by fastforce
  obtain r w3 where c: "createOrRecreate (services eIn) (?t\<lparr>svcMeta := m\<rparr>) w2 = (r, w3)" by fastforce
  obtain sv where sv: "r = Inr sv" "wireHostedCluster eIn eOut wu sv w3 = (None, w')"
    using run d m c by (cases r) (auto simp: getOrCreateWebhookService_def Let_def)
  have "clServices (stIn w3) ?k = Some sv \<and> webhook_service wu sv" by (rule mgmt.create_service(2) [OF m c sv(1)])
  with wireHosted_result [OF sv(2)] show ?thesis by auto
qed

end

interpretation mem_pair: two_clusters inMem outMem "\<lambda>v. mem_cluster (fst v)" "\<lambda>v. mem_cluster (snd v)"
proof -
  have left: "keeps (part_kind fst put_fst c) (\<lambda>v. mem_cluster (snd v))" for c :: "(mem, 'o) kind_client"
    by (simp add: keeps_def part_kind_def on_part_def put_fst_def split: prod.splits)
  have right: "keeps (part_kind snd put_snd c) (\<lambda>v. mem_cluster (fst v))" for c :: "(mem, 'o) kind_client"
    by (simp add: keeps_def part_kind_def on_part_def put_snd_def split: prod.splits)
  have sel: "services inMem = part_kind fst put_fst (services memEnv)" "deployments inMem = part_kind fst put_fst (deployments memEnv)"
    "services outMem = part_kind snd put_snd (services memEnv)" "endpoints outMem = part_kind snd put_snd (endpoints memEnv)"
    by (simp_all add: inMem_def outMem_def part_env_def)
  show "two_clusters inMem outMem (\<lambda>v. mem_cluster (fst v)) (\<lambda>v. mem_cluster (snd v))"
    unfolding two_clusters_def two_clusters_axioms_def sel
    by (intro conjI inMem_api outMem_api) (rule left right)+
qed

section \<open>Properties\<close>

definition ex_gvk :: GroupVersionKind where
  "ex_gvk = \<lparr>gvkGroup = apiGroup, gvkVersion = ''v1'', gvkKind = ''channels''\<rparr>"

definition ex_wire :: "unit WireUp" where
  "ex_wire = \<lparr>wuHandler = Some (), CertDir = ''/tmp'', WebhookName = ''channels-webhook'', WebHookPort = 9443,
     WebHookeSvcKey = nskey ''ocm'' ''channels-webhook-svc'', WebHookServicePort = 443,
     ValidtorPath = ''/duplicate-validation'', DeployLabel = ''channels'', DeploymentSelector = [''app'' \<mapsto> ''channels'']\<rparr>"

text \<open>
  C12. When no call fails and an existing configuration has a webhook with a service, wiring up the
  webhook in one cluster succeeds: the configuration of release 2.0 is gone, the configuration under
  the validator's name points at the webhook's service with the given CA and ignores failures, no
  other configuration changes, and the service selects the operator's pods. The rules and the path of a
  configuration that exists are left as they are.
\<close>

theorem webhook_wired:
  assumes "kube_api_calm e st calm" and "calm w"
    and "\<And>cfg. clWebhookConfigs (st w) (nskey [] (GetValidatorName (WebhookName wu))) = Some cfg \<Longrightarrow> refreshable cfg"
  shows "\<exists>w' cfg sv. calm w' \<and>
    WireUpWebhookSupplymentryResource e e wu False ca g ops [DelPreValiationCfg20] w = (Return None, w') \<and>
    clWebhookConfigs (st w') = (clWebhookConfigs (st w))(nskey [] ''channel-webhook-validator'' := None,
      nskey [] (GetValidatorName (WebhookName wu)) \<mapsto> cfg) \<and>
    config_wired wu ca cfg \<and> clServices (st w') (WebHookeSvcKey wu) = Some sv \<and> webhook_service wu sv"
  by (rule kube_api_calm.WireUp_calm [OF assms])

theorem webhook_wired_witness:
  "\<exists>w' cfg. WireUpWebhookSupplymentryResource memEnv memEnv ex_wire False ''CA'' ex_gvk [''CREATE''] [DelPreValiationCfg20] empty_mem = (Return None, w') \<and>
     clWebhookConfigs (mem_cluster w') (nskey [] (GetValidatorName ''channels-webhook'')) = Some cfg \<and> config_wired ex_wire ''CA'' cfg"
proof -
  have calm: "mem_calm empty_mem" by (simp add: mem_calm_def empty_mem_def)
  have "clWebhookConfigs (mem_cluster empty_mem) k = None" for k by (simp add: mem_cluster_def empty_mem_def)
  then show ?thesis
    using webhook_wired [OF fake.kube_api_calm_axioms calm, of ex_wire "''CA''" ex_gvk "[''CREATE'']"] by (auto simp: ex_wire_def)
qed

text \<open>
  C13. For a hosted cluster, a run that returns nil leaves the service in the management cluster with an
  address, a service without selector in the hosted cluster, and an endpoint there whose only address
  is that of the management service.
\<close>

theorem hosted_cluster_wired:
  assumes "two_clusters eIn eOut stIn stOut" and "getOrCreateWebhookService eIn eOut wu True w = (None, w')"
  shows "\<exists>sv hs ep. clServices (stIn w') (WebHookeSvcKey wu) = Some sv \<and> webhook_service wu sv \<and> svcClusterIP sv \<noteq> [] \<and>
    clServices (stOut w') (WebHookeSvcKey wu) = Some hs \<and> hosted_service wu hs \<and>
    clEndpoints (stOut w') (WebHookeSvcKey wu) = Some ep \<and> hosted_endpoint wu (svcClusterIP sv) ep"
  by (rule two_clusters.getOrCreate_hosted [OF assms])

theorem hosted_cluster_wired_witness:
  "\<exists>w' sv ep. getOrCreateWebhookService inMem outMem ex_wire True (empty_mem, empty_mem) = (None, w') \<and>
     clServices (mem_cluster (fst w')) (WebHookeSvcKey ex_wire) = Some sv \<and>
     clEndpoints (mem_cluster (snd w')) (WebHookeSvcKey ex_wire) = Some ep \<and> hosted_endpoint ex_wire (svcClusterIP sv) ep"
proof -
  have "fst (getOrCreateWebhookService inMem outMem ex_wire True (empty_mem, empty_mem)) = None" by code_simp
  then obtain w' where run: "getOrCreateWebhookService inMem outMem ex_wire True (empty_mem, empty_mem) = (None, w')"
    by (metis prod.collapse)
  from hosted_cluster_wired [OF mem_pair.two_clusters_axioms run] run show ?thesis by blast
qed

text \<open>
  \<open>createOrRecreate\<close> installs the object also when one of the same key exists: after a run
  without error the entry is the object as the server filled it in, and no other entry differs.
\<close>

theorem createOrRecreate_installs:
  assumes "kind_api ops meta fill st sel upd" and "createOrRecreate ops ob w = (Inr ob', w')"
  shows "fill ob ob' \<and> sel (st w') = (sel (st w))(key_of_meta (meta ob) \<mapsto> ob')"
  using kind_api.createOrRecreate_ok(1) [OF assms]
  by (simp only: kind_api.createOrRecreate_ok(2) [OF assms] kind_api.sel_upd [OF assms(1)] simp_thms)

theorem createOrRecreate_installs_witness:
  "\<exists>w' ob'. createOrRecreate (channels memEnv) (ex_channel\<lparr>chUID := ''new''\<rparr>) (empty_mem\<lparr>mChannels := [ex_channel]\<rparr>) = (Inr ob', w') \<and>
     clChannels (mem_cluster w') (nskey ''dev'' ''charts'') = Some (ex_channel\<lparr>chUID := ''new''\<rparr>)"
proof -
  let ?run = "createOrRecreate (channels memEnv) (ex_channel\<lparr>chUID := ''new''\<rparr>) (empty_mem\<lparr>mChannels := [ex_channel]\<rparr>)"
  have "\<not> isl (fst ?run)" by code_simp
  then obtain ob' w' where run: "?run = (Inr ob', w')" by (metis isl_def prod.collapse sum.collapse(2))
  have "kind_api (channels memEnv) chMeta (=) mem_cluster clChannels clChannels_update"
    using mem_kube_api by (simp add: kube_api_def)
  from createOrRecreate_installs [OF this run] run show ?thesis by (auto simp: key_of_meta_def ex_channel_def)
qed

text \<open>
  C21. The configuration step panics in exactly one situation: a configuration is read that has no
  webhook, or whose first webhook has no service.
\<close>

theorem stale_config_panics:
  "(\<exists>p w'. createOrUpdateValiationWebhook eIn eOut wu ext ca g ops w = (Panic p, w')) =
   (\<exists>cfg w1. kGet (webhookConfigs eOut) (nskey [] (GetValidatorName (WebhookName wu))) w = (Inr cfg, w1) \<and> \<not> refreshable cfg)"
proof (cases "kGet (webhookConfigs eOut) (nskey [] (GetValidatorName (WebhookName wu))) w")
  case (Pair r w1)
  consider (err) er where "r = Inl er" | (ok) cfg where "r = Inr cfg" "refreshable cfg" | (stale) cfg where "r = Inr cfg" "\<not> refreshable cfg"
    by (cases r) auto
  then show ?thesis
  proof cases
    case err
    with Pair show ?thesis by (auto simp: createOrUpdateValiationWebhook_def Let_def split: prod.splits sum.splits)
  next
    case ok
    then obtain cfg' where "refreshWebhook (WebHookeSvcKey wu) ca cfg = Return cfg'"
      using refreshWebhook_result [of cfg wu ca] by blast
    with Pair ok show ?thesis by (auto simp: createOrUpdateValiationWebhook_def Let_def split: prod.splits sum.splits)
  next
    case stale
    then obtain p where "refreshWebhook (WebHookeSvcKey wu) ca cfg = Panic p"
      using refreshWebhook_panic [of cfg "WebHookeSvcKey wu" ca] by blast
    with Pair stale show ?thesis by (auto simp: createOrUpdateValiationWebhook_def Let_def)
  qed
qed

text \<open>
  The port of a service is the configured one when 32 bits can hold it, and the nearest 32-bit
  value otherwise; it never wraps around.
\<close>

theorem service_port_saturates:
  "sint (validateInt32 n) = max (-2147483648) (min 2147483647 (sint n))"
  using port32.conv_clamps [of n] by simp

text \<open>
  C30. A read of the configuration that fails for any reason other than NotFound is swallowed: with one
  cluster, and when the step for the service that follows returns nil, the whole step returns nil
  although the cluster's webhook configurations are as they were.
\<close>

theorem config_read_error_swallowed:
  assumes "kube_api e st" and "kGet (webhookConfigs e) (nskey [] (GetValidatorName (WebhookName wu))) w = (Inl er, w1)"
    and "er \<noteq> NotFound" and "getOrCreateWebhookService e e wu False w1 = (None, w2)"
  shows "createOrUpdateValiationWebhook e e wu False ca g ops w = (Return None, w2) \<and>
    clWebhookConfigs (st w2) = clWebhookConfigs (st w)"
proof -
  have "kind_api (webhookConfigs e) wcMeta (=) st clWebhookConfigs clWebhookConfigs_update"
    using assms(1) by (simp add: kube_api_def)
  from kind_api.get_st [OF this assms(2)] have "st w1 = st w" .
  moreover have "clWebhookConfigs (st w2) = clWebhookConfigs (st w1)"
    by (rule kube_api.service_step_configs [OF assms(1) kube_api.getOrCreate_local(1) [OF assms(1,4)]])
  ultimately show ?thesis using assms(2-4) by (simp add: createOrUpdateValiationWebhook_def Let_def)
qed

theorem config_read_error_swallowed_witness:
  "\<exists>w2. createOrUpdateValiationWebhook memEnv memEnv ex_wire False ''CA'' ex_gvk [''CREATE'']
       (empty_mem\<lparr>mFaults := [Some ''timeout'']\<rparr>) = (Return None, w2) \<and> clWebhookConfigs (mem_cluster w2) = Map.empty"
proof -
  let ?w = "empty_mem\<lparr>mFaults := [Some ''timeout'']\<rparr>"
  have get: "kGet (webhookConfigs memEnv) k ?w = (Inl (OtherErr ''timeout''), empty_mem)" for k
    by (simp add: mem_client_def faulty_def pop_fault_def empty_mem_def)
  have "mem_calm empty_mem" by (simp add: mem_calm_def empty_mem_def)
  then obtain w2 where "getOrCreateWebhookService memEnv memEnv ex_wire False empty_mem = (None, w2)"
    using fake.getOrCreate_calm by blast
  from config_read_error_swallowed [OF mem_kube_api get _ this] show ?thesis
    by (auto simp: mem_cluster_def empty_mem_def)
qed

end
