(* ===== verification/Webhook_Certs.thy ===== *)
theory Webhook_Certs
  imports Webhook_Wireup Go_Path
begin

text \<open>
  \<open>pkg/webhook/certificate.go\<close> and \<open>WireUp.Attach\<close>: the certificate authority of the webhook
  and the serving certificate it signs. Both are kept in Secrets of the cluster, created on first
  use and read back on every later start; the serving pair is also written to the directory the
  webhook server reads.

  Key generation, signing, parsing and PEM (\<open>crypto/rand\<close>, \<open>crypto/rsa\<close>,
  \<open>crypto/x509\<close>, \<open>encoding/pem\<close>), the clock and the file system are the records
  \<open>Crypto\<close> and \<open>FileSystem\<close> over the same world as the API; the locale \<open>cert_lib\<close>
  states what their documentation promises. At the end an executable instance in which signatures
  are symbolic shows that the laws are consistent.
\<close>

unbundle bit_operations_syntax

section \<open>The standard library\<close>

datatype ExtKeyUsage = ExtKeyUsageServerAuth | ExtKeyUsageClientAuth

text \<open>
  The fields of \<open>x509.Certificate\<close> that the code sets or a verifier reads. Times count
  nanoseconds. A template has no public key.
\<close>

record 'p X509 =
  xSerialNumber :: int
  xSubjectCN :: string
  xIPAddresses :: "string list"
  xDNSNames :: "string list"
  xNotBefore :: int
  xNotAfter :: int
  xKeyUsage :: go_int
  xExtKeyUsage :: "ExtKeyUsage list"
  xBasicConstraintsValid :: bool
  xIsCA :: bool
  xPublicKey :: "'p option"

definition KeyUsageDigitalSignature :: go_int where
  "KeyUsageDigitalSignature = 1"

definition KeyUsageKeyEncipherment :: go_int where
  "KeyUsageKeyEncipherment = 4"

definition KeyUsageCertSign :: go_int where
  "KeyUsageCertSign = 32"

record PemBlock =
  pbType :: string
  pbBytes :: bytes

record ('w, 'k, 'p) Crypto =
  rand_Int :: "int \<Rightarrow> 'w \<Rightarrow> (go_error + int) \<times> 'w"
  time_Now :: "'w \<Rightarrow> int \<times> 'w"
  rsa_GenerateKey :: "nat \<Rightarrow> 'w \<Rightarrow> (go_error + 'k) \<times> 'w"
  PublicKey :: "'k \<Rightarrow> 'p"
  x509_CreateCertificate :: "'p X509 \<Rightarrow> 'p X509 \<Rightarrow> 'p \<Rightarrow> 'k \<Rightarrow> 'w \<Rightarrow> (go_error + bytes) \<times> 'w"
  x509_ParseCertificate :: "bytes \<Rightarrow> go_error + 'p X509"
  x509_MarshalPKCS1PrivateKey :: "'k \<Rightarrow> bytes"
  x509_ParsePKCS1PrivateKey :: "bytes \<Rightarrow> go_error + 'k"
  pem_Encode :: "PemBlock \<Rightarrow> go_error + bytes"
  pem_Decode :: "bytes \<Rightarrow> PemBlock option"

record 'w FileSystem =
  os_TempDir :: string
  os_MkdirAll :: "string \<Rightarrow> 'w \<Rightarrow> go_error option \<times> 'w"
  ioutil_WriteFile :: "string \<Rightarrow> bytes \<Rightarrow> 'w \<Rightarrow> go_error option \<times> 'w"

section \<open>Constants and keys\<close>

definition rsaKeySize :: nat where
  "rsaKeySize = 2048"

definition duration365d :: int where
  "duration365d = 3600000000000 * 24 * 365"

definition certName :: string where
  "certName = ''multicluster-channel-webhook''"

definition tlsCrt :: string where
  "tlsCrt = ''tls.crt''"

definition tlsKey :: string where
  "tlsKey = ''tls.key''"

record Certificate =
  Cert :: bytes
  Key :: bytes

definition getCASecretKey :: "NamespacedName \<Rightarrow> NamespacedName" where
  "getCASecretKey whKey = nskey (nnNamespace whKey) (nnName whKey @ ''-ca'')"

definition getSignedCASecretKey :: "NamespacedName \<Rightarrow> NamespacedName" where
  "getSignedCASecretKey whKey = nskey (nnNamespace whKey) (nnName whKey @ ''-signed-ca'')"

text \<open>\<open>corev1.Secret\<close> as a kind of object.\<close>

abbreviation secretKind :: GroupVersionKind where
  "secretKind \<equiv> \<lparr>gvkGroup = [], gvkVersion = ''v1'', gvkKind = ''Secret''\<rparr>"

text \<open>The Secret both functions fill in, and the certificate they read from one.\<close>

definition certSecret :: "NamespacedName \<Rightarrow> Certificate \<Rightarrow> DataObject" where
  "certSecret k c = \<lparr>doMeta = plain_meta (nnNamespace k) (nnName k), doType = ''kubernetes.io/tls'',
     doData = [tlsCrt \<mapsto> Cert c, tlsKey \<mapsto> Key c]\<rparr>"

definition secretCert :: "DataObject \<Rightarrow> Certificate" where
  "secretCert s = \<lparr>Cert = case_option [] id (doData s tlsCrt), Key = case_option [] id (doData s tlsKey)\<rparr>"

section \<open>Making certificates\<close>

definition generateBaseTemplateCert ::
  "('w, 'k, 'p) Crypto \<Rightarrow> string \<Rightarrow> string list \<Rightarrow> 'w \<Rightarrow> (go_error + 'p X509) \<times> 'w" where
  "generateBaseTemplateCert cr cn alternateDNS w =
     (case rand_Int cr (2 ^ 128) w of
        (Inl er, w) \<Rightarrow> (Inl er, w)
      | (Inr serialNumber, w) \<Rightarrow>
         (case time_Now cr w of (t1, w) \<Rightarrow>
         (case time_Now cr w of (t2, w) \<Rightarrow>
          (Inr \<lparr>xSerialNumber = serialNumber, xSubjectCN = cn, xIPAddresses = [], xDNSNames = alternateDNS,
             xNotBefore = t1, xNotAfter = t2 + duration365d,
             xKeyUsage = KeyUsageKeyEncipherment OR KeyUsageDigitalSignature,
             xExtKeyUsage = [ExtKeyUsageServerAuth, ExtKeyUsageClientAuth],
             xBasicConstraintsValid = True, xIsCA = False, xPublicKey = None\<rparr>, w))))"

definition getCertAndKey ::
  "('w, 'k, 'p) Crypto \<Rightarrow> 'p X509 \<Rightarrow> 'k \<Rightarrow> 'p X509 \<Rightarrow> 'k \<Rightarrow> 'w \<Rightarrow> (go_error + bytes \<times> bytes) \<times> 'w" where
  "getCertAndKey cr template signeeKey parent signingKey w =
     (case x509_CreateCertificate cr template parent (PublicKey cr signeeKey) signingKey w of
        (Inl er, w) \<Rightarrow> (Inl (WrapErr er ''error creating certificate: ''), w)
      | (Inr derBytes, w) \<Rightarrow>
         (case pem_Encode cr \<lparr>pbType = ''CERTIFICATE'', pbBytes = derBytes\<rparr> of
            Inl er \<Rightarrow> (Inl (WrapErr er ''error pem-encoding certificate: ''), w)
          | Inr certBuffer \<Rightarrow>
             (case pem_Encode cr \<lparr>pbType = ''RSA PRIVATE KEY'', pbBytes = x509_MarshalPKCS1PrivateKey cr signeeKey\<rparr> of
                Inl er \<Rightarrow> (Inl (WrapErr er ''error pem-encoding key: ''), w)
              | Inr keyBuffer \<Rightarrow> (Inr (certBuffer, keyBuffer), w))))"

definition GenerateSelfSignedCACert ::
  "('w, 'k, 'p) Crypto \<Rightarrow> string \<Rightarrow> 'w \<Rightarrow> (go_error + Certificate) \<times> 'w" where
  "GenerateSelfSignedCACert cr cn w =
     (case generateBaseTemplateCert cr cn [] w of
        (Inl er, w) \<Rightarrow> (Inl er, w)
      | (Inr template, w) \<Rightarrow>
         (let template = template\<lparr>xKeyUsage := KeyUsageKeyEncipherment OR KeyUsageDigitalSignature OR KeyUsageCertSign,
                xIsCA := True\<rparr>
          in case rsa_GenerateKey cr rsaKeySize w of
            (Inl er, w) \<Rightarrow> (Inl (WrapErr er ''error generating rsa key: ''), w)
          | (Inr priv, w) \<Rightarrow>
             (case getCertAndKey cr template priv template priv w of
                (Inl er, w) \<Rightarrow> (Inl er, w)
              | (Inr (c, k), w) \<Rightarrow> (Inr \<lparr>Cert = c, Key = k\<rparr>, w))))"

definition GenerateSignedCert ::
  "('w, 'k, 'p) Crypto \<Rightarrow> string \<Rightarrow> string list \<Rightarrow> Certificate \<Rightarrow> 'w \<Rightarrow> (go_error + Certificate) \<times> 'w" where
  "GenerateSignedCert cr cn alternateDNS ca w =
     (case pem_Decode cr (Cert ca) of
        None \<Rightarrow> (Inl (NewErr ''unable to decode certificate''), w)
      | Some decodedSignerCert \<Rightarrow>
     (case x509_ParseCertificate cr (pbBytes decodedSignerCert) of
        Inl er \<Rightarrow> (Inl (WrapErr er ''error parsing certificate: decodedSignerCert.Bytes: ''), w)
      | Inr signerCert \<Rightarrow>
     (case pem_Decode cr (Key ca) of
        None \<Rightarrow> (Inl (NewErr ''unable to decode key''), w)
      | Some decodedSignerKey \<Rightarrow>
     (case x509_ParsePKCS1PrivateKey cr (pbBytes decodedSignerKey) of
        Inl er \<Rightarrow> (Inl (WrapErr er ''error parsing prive key: decodedSignerKey.Bytes: ''), w)
      | Inr signerKey \<Rightarrow>
     (case generateBaseTemplateCert cr cn alternateDNS w of
        (Inl er, w) \<Rightarrow> (Inl er, w)
      | (Inr template, w) \<Rightarrow>
     (case rsa_GenerateKey cr rsaKeySize w of
        (Inl er, w) \<Rightarrow> (Inl (WrapErr er ''error generating rsa key: ''), w)
      | (Inr priv, w) \<Rightarrow>
     (case getCertAndKey cr template priv signerCert signerKey w of
        (Inl er, w) \<Rightarrow> (Inl er, w)
      | (Inr (c, k), w) \<Rightarrow> (Inr \<lparr>Cert = c, Key = k\<rparr>, w))))))))"

section \<open>Keeping them in the cluster\<close>

definition getSelfSignedCACert ::
  "('w, 'k, 'p) Crypto \<Rightarrow> 'w Env \<Rightarrow> string \<Rightarrow> NamespacedName \<Rightarrow> 'w \<Rightarrow> (go_error + Certificate) \<times> 'w" where
  "getSelfSignedCACert cr clt cn whKey w =
     (let persistSrtKey = getCASecretKey whKey
      in case kGet (dataObjects clt secretKind) persistSrtKey w of
        (Inl er, w) \<Rightarrow>
          if er \<noteq> NotFound then (Inl (WrapErr (ApiError er) ''failed to get CA secret ''), w)
          else (case GenerateSelfSignedCACert cr cn w of
              (Inl er, w) \<Rightarrow> (Inl er, w)
            | (Inr ca, w) \<Rightarrow>
               (case kCreate (dataObjects clt secretKind) (certSecret persistSrtKey ca) w of
                  (Inl er, w) \<Rightarrow> (Inl (WrapErr (ApiError er) ''failed to create CA secret ''), w)
                | (Inr _, w) \<Rightarrow> (Inr ca, w)))
      | (Inr srtIns, w) \<Rightarrow> (Inr (secretCert srtIns), w))"

definition getSignedCert ::
  "('w, 'k, 'p) Crypto \<Rightarrow> 'w Env \<Rightarrow> NamespacedName \<Rightarrow> string list \<Rightarrow> Certificate \<Rightarrow> 'w \<Rightarrow> (go_error + Certificate) \<times> 'w" where
  "getSignedCert cr clt whKey alternateDNS ca w =
     (let persistSrtKey = getSignedCASecretKey whKey
      in case kGet (dataObjects clt secretKind) persistSrtKey w of
        (Inl er, w) \<Rightarrow>
          if er \<noteq> NotFound then (Inl (WrapErr (ApiError er) ''failed to get CA secret ''), w)
          else (case GenerateSignedCert cr (nnName whKey) alternateDNS ca w of
              (Inl er, w) \<Rightarrow> (Inl er, w)
            | (Inr cert, w) \<Rightarrow>
               (case kCreate (dataObjects clt secretKind) (certSecret persistSrtKey cert) w of
                  (Inl er, w) \<Rightarrow> (Inl (WrapErr (ApiError er) ''failed to create CA secret ''), w)
                | (Inr _, w) \<Rightarrow> (Inr cert, w)))
      | (Inr srtIns, w) \<Rightarrow> (Inr (secretCert srtIns), w))"

text \<open>The names the API server may call the webhook by.\<close>

definition alternateDNS :: "string \<Rightarrow> string \<Rightarrow> string list" where
  "alternateDNS svcNs svcName =
     [svcName @ ''.'' @ svcNs, svcName @ ''.'' @ svcNs @ ''.svc'',
      svcName @ ''.'' @ svcNs @ ''.svc.cluster.local'']"

definition servingDir :: "'w FileSystem \<Rightarrow> string \<Rightarrow> string" where
  "servingDir fs certDir =
     (if certDir = [] then filepath_Join [os_TempDir fs, ''k8s-webhook-server'', ''serving-certs''] else certDir)"

definition GenerateWebhookCerts ::
  "('w, 'k, 'p) Crypto \<Rightarrow> 'w FileSystem \<Rightarrow> 'w Env \<Rightarrow> string \<Rightarrow> string \<Rightarrow> string \<Rightarrow> 'w \<Rightarrow> (go_error + bytes) \<times> 'w" where
  "GenerateWebhookCerts cr fs clt certDir webhookServiceNs webhookServiceName w =
     (let certDir = servingDir fs certDir;
          whKey = nskey webhookServiceNs webhookServiceName
      in case getSelfSignedCACert cr clt certName whKey w of
        (Inl er, w) \<Rightarrow> (Inl er, w)
      | (Inr ca, w) \<Rightarrow>
     (case getSignedCert cr clt whKey (alternateDNS webhookServiceNs webhookServiceName) ca w of
        (Inl er, w) \<Rightarrow> (Inl er, w)
      | (Inr cert, w) \<Rightarrow>
     (case os_MkdirAll fs certDir w of
        (Some er, w) \<Rightarrow> (Inl er, w)
      | (None, w) \<Rightarrow>
     (case ioutil_WriteFile fs (filepath_Join [certDir, tlsCrt]) (Cert cert) w of
        (Some er, w) \<Rightarrow> (Inl er, w)
      | (None, w) \<Rightarrow>
     (case ioutil_WriteFile fs (filepath_Join [certDir, tlsKey]) (Key cert) w of
        (Some er, w) \<Rightarrow> (Inl er, w)
      | (None, w) \<Rightarrow> (Inr (Cert ca), w))))))"

text \<open>
  \<open>Attach\<close>: the handler is registered under the validator's path, whatever becomes of the
  certificates. The routes of the server are a map, and a path registered before panics in
  controller-runtime's \<open>Register\<close>, which is a parameter.
\<close>

definition Attach ::
  "('w, 'k, 'p) Crypto \<Rightarrow> 'w FileSystem \<Rightarrow> (string \<Rightarrow> 'h option \<Rightarrow> 'w \<Rightarrow> 'w outcome) \<Rightarrow> 'w Env \<Rightarrow> 'h WireUp \<Rightarrow> 'w \<Rightarrow>
   ((go_error + bytes) \<times> 'w) outcome" where
  "Attach cr fs Register clt wu w = map_outcome_bind (Register (ValidtorPath wu) (wuHandler wu) w)
     (\<lambda>w. Return (GenerateWebhookCerts cr fs clt (CertDir wu) (nnNamespace (WebHookeSvcKey wu)) (nnName (WebHookeSvcKey wu)) w))"

section \<open>What the standard library promises\<close>

text \<open>A certificate that may sign others: \<open>CheckSignatureFrom\<close> refuses any other parent.\<close>

definition may_sign :: "'p X509 \<Rightarrow> bool" where
  "may_sign c \<longleftrightarrow> xBasicConstraintsValid c \<and> xIsCA c \<and> xKeyUsage c AND KeyUsageCertSign \<noteq> 0"

text \<open>Certificates store whole seconds.\<close>

definition to_second :: "int \<Rightarrow> int" where
  "to_second t = t div 1000000000 * 1000000000"

definition issued :: "'p X509 \<Rightarrow> 'p \<Rightarrow> 'p X509 \<Rightarrow> bool" where
  "issued t pub c \<longleftrightarrow> xSerialNumber c = xSerialNumber t \<and> xSubjectCN c = xSubjectCN t \<and>
     xDNSNames c = xDNSNames t \<and> xNotBefore c = to_second (xNotBefore t) \<and> xNotAfter c = to_second (xNotAfter t) \<and>
     xKeyUsage c = xKeyUsage t \<and> xExtKeyUsage c = xExtKeyUsage t \<and>
     xBasicConstraintsValid c = xBasicConstraintsValid t \<and> xIsCA c = xIsCA t \<and> xPublicKey c = Some pub"

definition ia5 :: "string \<Rightarrow> bool" where
  "ia5 s \<longleftrightarrow> list_all (\<lambda>c. (of_char c :: nat) < 128) s"

text \<open>
  \<open>CheckSignatureFrom\<close> takes the DER form of a certificate and of its issuer. The state \<open>st\<close>
  of the cluster is not touched by any of these calls.
\<close>

locale cert_lib =
  fixes cr :: "('w, 'k, 'p) Crypto" and fs :: "'w FileSystem" and st :: "'w \<Rightarrow> 's"
    and files :: "'w \<Rightarrow> string \<rightharpoonup> bytes" and CheckSignatureFrom :: "bytes \<Rightarrow> bytes \<Rightarrow> bool"
  assumes rand_st: "rand_Int cr n w = (ri, w') \<Longrightarrow> st w' = st w"
    and now_st: "time_Now cr w = (t, w') \<Longrightarrow> st w' = st w"
    and rsa_st: "rsa_GenerateKey cr m w = (rk, w') \<Longrightarrow> st w' = st w"
    and create_cert_st: "x509_CreateCertificate cr tm pa pub sk w = (rc, w') \<Longrightarrow> st w' = st w"
    and mkdir_st: "os_MkdirAll fs d w = (oe, w') \<Longrightarrow> st w' = st w"
    and write_st: "ioutil_WriteFile fs f bs w = (oe, w') \<Longrightarrow> st w' = st w"
    and write_ok: "ioutil_WriteFile fs f bs w = (None, w') \<Longrightarrow> files w' = (files w)(f \<mapsto> bs)"
    and pem_roundtrip: "pem_Encode cr b = Inr bs \<Longrightarrow> pem_Decode cr bs = Some b"
    and key_roundtrip: "x509_ParsePKCS1PrivateKey cr (x509_MarshalPKCS1PrivateKey cr sk) = Inr sk"
    and create_parses: "x509_CreateCertificate cr tm pa pub sk w = (Inr der, w') \<Longrightarrow>
       \<exists>c. x509_ParseCertificate cr der = Inr c \<and> issued tm pub c"
    and create_signs: "x509_CreateCertificate cr tm pa pub sk w = (Inr der, w') \<Longrightarrow>
       x509_ParseCertificate cr pder = Inr pc \<Longrightarrow> xSubjectCN pc = xSubjectCN pa \<Longrightarrow>
       xPublicKey pc = Some (PublicKey cr sk) \<Longrightarrow> may_sign pc \<Longrightarrow> CheckSignatureFrom der pder"

section \<open>Usable certificates\<close>

definition parsed_cert :: "('w, 'k, 'p) Crypto \<Rightarrow> Certificate \<Rightarrow> (bytes \<times> 'p X509) option" where
  "parsed_cert cr c =
     (case pem_Decode cr (Cert c) of None \<Rightarrow> None
      | Some b \<Rightarrow> (case x509_ParseCertificate cr (pbBytes b) of Inl _ \<Rightarrow> None | Inr x \<Rightarrow> Some (pbBytes b, x)))"

definition parsed_key :: "('w, 'k, 'p) Crypto \<Rightarrow> Certificate \<Rightarrow> 'k option" where
  "parsed_key cr c =
     (case pem_Decode cr (Key c) of None \<Rightarrow> None
      | Some b \<Rightarrow> (case x509_ParsePKCS1PrivateKey cr (pbBytes b) of Inl _ \<Rightarrow> None | Inr k \<Rightarrow> Some k))"

text \<open>A pair whose key belongs to the certificate.\<close>

definition key_pair :: "('w, 'k, 'p) Crypto \<Rightarrow> Certificate \<Rightarrow> ('p X509 \<Rightarrow> bool) \<Rightarrow> bool" where
  "key_pair cr c P \<longleftrightarrow>
     (case (parsed_cert cr c, parsed_key cr c) of
        (Some (_, x), Some k) \<Rightarrow> xPublicKey x = Some (PublicKey cr k) \<and> P x
      | _ \<Rightarrow> False)"

definition usable_ca :: "('w, 'k, 'p) Crypto \<Rightarrow> Certificate \<Rightarrow> bool" where
  "usable_ca cr ca \<longleftrightarrow> key_pair cr ca may_sign"

text \<open>What a client that trusts \<open>ca\<close> needs in order to accept \<open>c\<close> as the server's certificate.\<close>

definition chains :: "('w, 'k, 'p) Crypto \<Rightarrow> (bytes \<Rightarrow> bytes \<Rightarrow> bool) \<Rightarrow> Certificate \<Rightarrow> Certificate \<Rightarrow> bool" where
  "chains cr check ca c \<longleftrightarrow>
     (case (parsed_cert cr ca, parsed_cert cr c) of
        (Some (ader, _), Some (der, _)) \<Rightarrow> check der ader
      | _ \<Rightarrow> False)"

definition serves :: "('w, 'k, 'p) Crypto \<Rightarrow> (bytes \<Rightarrow> bytes \<Rightarrow> bool) \<Rightarrow> string list \<Rightarrow> Certificate \<Rightarrow> Certificate \<Rightarrow> bool" where
  "serves cr check names ca c \<longleftrightarrow> chains cr check ca c \<and>
     key_pair cr c (\<lambda>x. xDNSNames x = names \<and> ExtKeyUsageServerAuth \<in> set (xExtKeyUsage x))"

text \<open>The Secrets of one webhook service, and what is kept of them.\<close>

abbreviation secrets :: "cluster \<Rightarrow> NamespacedName \<rightharpoonup> DataObject" where
  "secrets \<equiv> data_sel secretKind"

definition certs_inv ::
  "('w, 'k, 'p) Crypto \<Rightarrow> (bytes \<Rightarrow> bytes \<Rightarrow> bool) \<Rightarrow> NamespacedName \<Rightarrow> cluster \<Rightarrow> bool" where
  "certs_inv cr check whKey c \<longleftrightarrow>
     (case secrets c (getCASecretKey whKey) of
        None \<Rightarrow> secrets c (getSignedCASecretKey whKey) = None
      | Some ca \<Rightarrow> usable_ca cr (secretCert ca) \<and>
          pred_option (\<lambda>s. serves cr check (alternateDNS (nnNamespace whKey) (nnName whKey)) (secretCert ca) (secretCert s))
            (secrets c (getSignedCASecretKey whKey)))"

lemma tls_names [simp]: "tlsCrt \<noteq> tlsKey" "tlsKey \<noteq> tlsCrt" "length tlsCrt = length tlsKey"
  "plain_name tlsCrt" "plain_name tlsKey"
  by (simp_all add: tlsCrt_def tlsKey_def plain_name_def)

lemma secretCert_certSecret [simp]: "secretCert (certSecret k c) = c"
  by (simp add: secretCert_def certSecret_def)

lemma certSecret_key [simp]: "key_of_meta (doMeta (certSecret k c)) = k"
  by (simp add: certSecret_def)

lemma secret_keys_differ [simp]:
  "getCASecretKey k \<noteq> getSignedCASecretKey k" "getSignedCASecretKey k \<noteq> getCASecretKey k"
  by (simp_all add: getCASecretKey_def getSignedCASecretKey_def)

section \<open>Generated certificates\<close>

text \<open>The bits of the certificate authority's key usage.\<close>

lemma ca_usage: "(KeyUsageKeyEncipherment OR KeyUsageDigitalSignature OR KeyUsageCertSign) AND KeyUsageCertSign \<noteq> 0"
  by (simp add: KeyUsageKeyEncipherment_def KeyUsageDigitalSignature_def KeyUsageCertSign_def)

context cert_lib
begin

lemma template_st: "generateBaseTemplateCert cr cn dns w = (r, w') \<Longrightarrow> st w' = st w"
  by (auto simp: generateBaseTemplateCert_def split: prod.splits sum.splits dest!: rand_st now_st)

lemma template_result:
  "generateBaseTemplateCert cr cn dns w = (Inr x, w') \<Longrightarrow>
   xSubjectCN x = cn \<and> xDNSNames x = dns \<and> xBasicConstraintsValid x \<and> xPublicKey x = None \<and>
   ExtKeyUsageServerAuth \<in> set (xExtKeyUsage x)"
  by (auto simp: generateBaseTemplateCert_def split: prod.splits sum.splits)

lemma getCertAndKey_st: "getCertAndKey cr tm k pa sk w = (r, w') \<Longrightarrow> st w' = st w"
  by (auto simp: getCertAndKey_def split: prod.splits sum.splits dest!: create_cert_st)

text \<open>A created pair parses again, belongs together and is signed by the signer.\<close>

lemma getCertAndKey_ok:
  assumes "getCertAndKey cr tm k pa sk w = (Inr (Cert c, Key c), w')"
  shows "\<exists>der x. parsed_cert cr c = Some (der, x) \<and> parsed_key cr c = Some k \<and> issued tm (PublicKey cr k) x \<and>
    (\<forall>pder pc. x509_ParseCertificate cr pder = Inr pc \<and> xSubjectCN pc = xSubjectCN pa \<and>
      xPublicKey pc = Some (PublicKey cr sk) \<and> may_sign pc \<longrightarrow> CheckSignatureFrom der pder)"
proof -
  obtain der w1 where d: "x509_CreateCertificate cr tm pa (PublicKey cr k) sk w = (Inr der, w1)"
    and c: "pem_Encode cr \<lparr>pbType = ''CERTIFICATE'', pbBytes = der\<rparr> = Inr (Cert c)"
    and kb: "pem_Encode cr \<lparr>pbType = ''RSA PRIVATE KEY'', pbBytes = x509_MarshalPKCS1PrivateKey cr k\<rparr> = Inr (Key c)"
    using assms by (auto simp: getCertAndKey_def split: prod.splits sum.splits)
  obtain x where x: "x509_ParseCertificate cr der = Inr x" "issued tm (PublicKey cr k) x"
    using create_parses [OF d] by blast
  show ?thesis
    using x create_signs [OF d]
    by (auto simp: parsed_cert_def parsed_key_def pem_roundtrip [OF c] pem_roundtrip [OF kb] key_roundtrip)
qed

lemma GenerateSelfSignedCACert_st: "GenerateSelfSignedCACert cr cn w = (r, w') \<Longrightarrow> st w' = st w"
  by (auto simp: GenerateSelfSignedCACert_def Let_def split: prod.splits sum.splits
      dest!: template_st rsa_st getCertAndKey_st)

lemma GenerateSignedCert_st: "GenerateSignedCert cr cn dns ca w = (r, w') \<Longrightarrow> st w' = st w"
  by (auto simp: GenerateSignedCert_def split: prod.splits sum.splits option.splits
      dest!: template_st rsa_st getCertAndKey_st)

lemma GenerateSelfSignedCACert_ok:
  assumes "GenerateSelfSignedCACert cr cn w = (Inr ca, w')"
  shows "usable_ca cr ca"
proof -
  let ?ku = "KeyUsageKeyEncipherment OR KeyUsageDigitalSignature OR KeyUsageCertSign"
  obtain x w1 k w2 where x: "generateBaseTemplateCert cr cn [] w = (Inr x, w1)"
    and g: "getCertAndKey cr (x\<lparr>xKeyUsage := ?ku, xIsCA := True\<rparr>) k (x\<lparr>xKeyUsage := ?ku, xIsCA := True\<rparr>) k w2
      = (Inr (Cert ca, Key ca), w')"
    using assms by (auto simp: GenerateSelfSignedCACert_def Let_def split: prod.splits sum.splits)
  show ?thesis
    using getCertAndKey_ok [OF g] template_result [OF x] ca_usage
    by (auto simp: usable_ca_def key_pair_def may_sign_def issued_def)
qed

lemma GenerateSignedCert_ok:
  assumes "GenerateSignedCert cr cn dns ca w = (Inr c, w')" and "usable_ca cr ca"
  shows "serves cr CheckSignatureFrom dns ca c"
proof -
  obtain b pc kb sk x w1 k w2 where b: "pem_Decode cr (Cert ca) = Some b" "x509_ParseCertificate cr (pbBytes b) = Inr pc"
    and kb: "pem_Decode cr (Key ca) = Some kb" "x509_ParsePKCS1PrivateKey cr (pbBytes kb) = Inr sk"
    and x: "generateBaseTemplateCert cr cn dns w = (Inr x, w1)"
    and g: "getCertAndKey cr x k pc sk w2 = (Inr (Cert c, Key c), w')"
    using assms(1) by (auto simp: GenerateSignedCert_def split: prod.splits sum.splits option.splits)
  have "xPublicKey pc = Some (PublicKey cr sk)" "may_sign pc"
    using assms(2) b kb by (auto simp: usable_ca_def key_pair_def parsed_cert_def parsed_key_def)
  then show ?thesis
    using getCertAndKey_ok [OF g] template_result [OF x] b
    by (auto simp: serves_def chains_def key_pair_def issued_def parsed_cert_def)
qed

end

section \<open>The whole routine\<close>

lemma servingDir_nonempty [simp]: "servingDir fs d \<noteq> []"
  by (simp add: servingDir_def filepath_Join_nonempty [where x = "''serving-certs''"])

text \<open>The files the webhook server reads hold the pair \<open>c\<close>.\<close>

definition served_pair :: "'w FileSystem \<Rightarrow> string \<Rightarrow> (string \<rightharpoonup> bytes) \<Rightarrow> Certificate \<Rightarrow> bool" where
  "served_pair fs d m c \<longleftrightarrow> m (filepath_Join [servingDir fs d, tlsCrt]) = Some (Cert c) \<and>
     m (filepath_Join [servingDir fs d, tlsKey]) = Some (Key c)"

locale cert_store =
  cert_lib cr fs st files CheckSignatureFrom +
  sec: kind_api "dataObjects clt secretKind" doMeta "(=)" st secrets "data_upd secretKind"
  for cr :: "('w, 'k, 'p) Crypto" and fs :: "'w FileSystem" and st :: "'w \<Rightarrow> cluster"
    and files :: "'w \<Rightarrow> string \<rightharpoonup> bytes" and CheckSignatureFrom :: "bytes \<Rightarrow> bytes \<Rightarrow> bool" and clt :: "'w Env"
begin

lemma secrets_upd [simp]: "secrets (data_upd secretKind f c) = f (secrets c)"
  by (rule sec.sel_upd)

text \<open>Creating the Secret of a certificate stores that certificate, or it was there or nothing happened.\<close>

lemma create_secret:
  assumes "kCreate (dataObjects clt secretKind) (certSecret k c) w = (r, w')"
  shows "st w' = st w \<and> (\<forall>x. r \<noteq> Inr x) \<or>
    secrets (st w) k = None \<and> secrets (st w') = (secrets (st w))(k \<mapsto> certSecret k c)"
  using assms by (cases r) (auto dest!: sec.create_ok sec.create_err)

lemma getSelfSignedCACert_result:
  assumes "getSelfSignedCACert cr clt cn whKey w = (r, w')" and inv: "certs_inv cr CheckSignatureFrom whKey (st w)"
  shows "certs_inv cr CheckSignatureFrom whKey (st w') \<and>
    (\<forall>ca. r = Inr ca \<longrightarrow> map_option secretCert (secrets (st w') (getCASecretKey whKey)) = Some ca)"
proof -
  obtain g w1 where g: "kGet (dataObjects clt secretKind) (getCASecretKey whKey) w = (g, w1)" by fastforce
  note s1 = sec.get_st [OF g]
  consider (found) ob where "g = Inr ob" "r = Inr (secretCert ob)" "w' = w1"
    | (err) er where "g = Inl er" "w' = w1" "\<forall>ca. r \<noteq> Inr ca"
    | (gen) rg w2 where "g = Inl NotFound" "GenerateSelfSignedCACert cr cn w1 = (rg, w2)"
    using assms(1) g by (cases g; cases "GenerateSelfSignedCACert cr cn w1")
      (auto simp: getSelfSignedCACert_def Let_def split: if_splits)
  then show ?thesis
  proof cases
    case found
    then show ?thesis using inv s1 sec.get_ok [of _ w ob w1] g by simp
  next
    case err
    then show ?thesis using inv s1 by simp
  next
    case gen
    have s2: "st w2 = st w" using GenerateSelfSignedCACert_st [OF gen(2)] s1 by simp
    show ?thesis
    proof (cases rg)
      case (Inl er)
      then show ?thesis using assms(1) g gen inv s2 by (auto simp: getSelfSignedCACert_def)
    next
      case (Inr ca)
      obtain c w3 where c: "kCreate (dataObjects clt secretKind) (certSecret (getCASecretKey whKey) ca) w2 = (c, w3)"
        by fastforce
      have r: "w' = w3" "\<And>x. r = Inr x \<Longrightarrow> x = ca \<and> (\<exists>y. c = Inr y)"
        using assms(1) g gen Inr c by (auto simp: getSelfSignedCACert_def split: sum.splits)
      have "secrets (st w) (getCASecretKey whKey) = None" using g gen sec.get_nf by simp
      moreover have "usable_ca cr ca" using GenerateSelfSignedCACert_ok gen Inr by simp
      ultimately show ?thesis
        using create_secret [OF c] r inv s2 by (auto simp: certs_inv_def)
    qed
  qed
qed

lemma getSignedCert_result:
  assumes "getSignedCert cr clt whKey (alternateDNS (nnNamespace whKey) (nnName whKey)) ca w = (r, w')"
    and inv: "certs_inv cr CheckSignatureFrom whKey (st w)"
    and ca: "map_option secretCert (secrets (st w) (getCASecretKey whKey)) = Some ca"
  shows "certs_inv cr CheckSignatureFrom whKey (st w') \<and>
    secrets (st w') (getCASecretKey whKey) = secrets (st w) (getCASecretKey whKey) \<and>
    (\<forall>c. r = Inr c \<longrightarrow> map_option secretCert (secrets (st w') (getSignedCASecretKey whKey)) = Some c)"
proof -
  let ?dns = "alternateDNS (nnNamespace whKey) (nnName whKey)"
  obtain g w1 where g: "kGet (dataObjects clt secretKind) (getSignedCASecretKey whKey) w = (g, w1)" by fastforce
  note s1 = sec.get_st [OF g]
  consider (found) ob where "g = Inr ob" "r = Inr (secretCert ob)" "w' = w1"
    | (err) er where "g = Inl er" "w' = w1" "\<forall>ca. r \<noteq> Inr ca"
    | (gen) rg w2 where "g = Inl NotFound" "GenerateSignedCert cr (nnName whKey) ?dns ca w1 = (rg, w2)"
    using assms(1) g by (cases g; cases "GenerateSignedCert cr (nnName whKey) ?dns ca w1")
      (auto simp: getSignedCert_def Let_def split: if_splits)
  then show ?thesis
  proof cases
    case found
    then show ?thesis using inv s1 sec.get_ok [of _ w ob w1] g by simp
  next
    case err
    then show ?thesis using inv s1 by simp
  next
    case gen
    have s2: "st w2 = st w" using GenerateSignedCert_st [OF gen(2)] s1 by simp
    show ?thesis
    proof (cases rg)
      case (Inl er)
      then show ?thesis using assms(1) g gen inv s2 by (auto simp: getSignedCert_def)
    next
      case (Inr sc)
      obtain c w3 where c: "kCreate (dataObjects clt secretKind) (certSecret (getSignedCASecretKey whKey) sc) w2 = (c, w3)"
        by fastforce
      have r: "w' = w3" "\<And>x. r = Inr x \<Longrightarrow> x = sc \<and> (\<exists>y. c = Inr y)"
        using assms(1) g gen Inr c by (auto simp: getSignedCert_def split: sum.splits)
      have "usable_ca cr ca" using inv ca by (auto simp: certs_inv_def)
      then have "serves cr CheckSignatureFrom ?dns ca sc" using GenerateSignedCert_ok gen Inr by simp
      then show ?thesis
        using create_secret [OF c] r inv ca s2 by (auto simp: certs_inv_def)
    qed
  qed
qed

end

context cert_store
begin

text \<open>What follows the certificates touches only the two files.\<close>

lemma serve_files:
  assumes "os_MkdirAll fs d w = (None, w1)"
    and w2: "ioutil_WriteFile fs (filepath_Join [servingDir fs dir, tlsCrt]) (Cert c) w1 = (None, w2)"
    and w3: "ioutil_WriteFile fs (filepath_Join [servingDir fs dir, tlsKey]) (Key c) w2 = (None, w3)"
  shows "served_pair fs dir (files w3) c \<and> st w3 = st w"
proof -
  have "filepath_Join [servingDir fs dir, tlsCrt] \<noteq> filepath_Join [servingDir fs dir, tlsKey]"
    by (rule filepath_Join_distinct) simp_all
  then show ?thesis
    using write_ok [OF w2] write_ok [OF w3] mkdir_st [OF assms(1)] write_st [OF w2] write_st [OF w3]
    by (simp add: served_pair_def)
qed

lemma certs_result:
  assumes "GenerateWebhookCerts cr fs clt dir ns name w = (r, w')"
    and inv: "certs_inv cr CheckSignatureFrom (nskey ns name) (st w)"
  shows "certs_inv cr CheckSignatureFrom (nskey ns name) (st w') \<and>
    (\<forall>b. r = Inr b \<longrightarrow> (\<exists>ca c.
       secrets (st w') (getCASecretKey (nskey ns name)) = Some ca \<and>
       secrets (st w') (getSignedCASecretKey (nskey ns name)) = Some c \<and>
       b = Cert (secretCert ca) \<and> served_pair fs dir (files w') (secretCert c) \<and>
       serves cr CheckSignatureFrom (alternateDNS ns name) (secretCert ca) (secretCert c)))"
proof -
  let ?k = "nskey ns name"
  obtain r1 w1 where g1: "getSelfSignedCACert cr clt certName ?k w = (r1, w1)" by fastforce
  note a = getSelfSignedCACert_result [OF g1 inv]
  show ?thesis
  proof (cases r1)
    case (Inl er)
    then show ?thesis using assms(1) g1 a by (auto simp: GenerateWebhookCerts_def Let_def)
  next
    case (Inr ca)
    obtain r2 w2 where g2: "getSignedCert cr clt ?k (alternateDNS (nnNamespace ?k) (nnName ?k)) ca w1 = (r2, w2)"
      by fastforce
    have b: "certs_inv cr CheckSignatureFrom ?k (st w2)"
      "map_option secretCert (secrets (st w2) (getCASecretKey ?k)) = Some ca"
      "\<And>c. r2 = Inr c \<Longrightarrow> map_option secretCert (secrets (st w2) (getSignedCASecretKey ?k)) = Some c"
      using getSignedCert_result [OF g2] a Inr by auto
    obtain o1 w3 where m: "os_MkdirAll fs (servingDir fs dir) w2 = (o1, w3)" by fastforce
    obtain c where c: "Inr c = r2 \<or> (\<exists>er. r2 = Inl er)" by (metis sum.exhaust)
    obtain o2 w4 where f1: "ioutil_WriteFile fs (filepath_Join [servingDir fs dir, tlsCrt]) (Cert c) w3 = (o2, w4)" by fastforce
    obtain o3 w5 where f2: "ioutil_WriteFile fs (filepath_Join [servingDir fs dir, tlsKey]) (Key c) w4 = (o3, w5)" by fastforce
    have run: "w' \<in> {w2, w3, w4, w5}"
      "\<And>x. r = Inr x \<Longrightarrow> x = Cert ca \<and> r2 = Inr c \<and> o1 = None \<and> o2 = None \<and> o3 = None \<and> w' = w5"
      using assms(1) g1 g2 Inr m c f1 f2
      by (auto simp: GenerateWebhookCerts_def Let_def split: sum.splits option.splits)
    have same: "st w' = st w2"
      using run(1) mkdir_st [OF m] write_st [OF f1] write_st [OF f2] by auto
    {
      fix x assume x: "r = Inr x"
      have "served_pair fs dir (files w') c"
        using run(2) [OF x] m f1 f2 by (intro serve_files [THEN conjunct1, of _ w2 w3 _ _ w4 w']) auto
      moreover obtain s sc where s: "secrets (st w2) (getCASecretKey ?k) = Some s" "secretCert s = ca"
        "secrets (st w2) (getSignedCASecretKey ?k) = Some sc" "secretCert sc = c"
        using b run(2) [OF x] by (auto simp: map_option_case split: option.splits)
      moreover have "serves cr CheckSignatureFrom (alternateDNS ns name) ca c"
        using b(1) s by (auto simp: certs_inv_def)
      ultimately have "\<exists>ca c. secrets (st w') (getCASecretKey ?k) = Some ca \<and>
         secrets (st w') (getSignedCASecretKey ?k) = Some c \<and> x = Cert (secretCert ca) \<and>
         served_pair fs dir (files w') (secretCert c) \<and>
         serves cr CheckSignatureFrom (alternateDNS ns name) (secretCert ca) (secretCert c)"
        using run(2) [OF x] same by auto
    }
    then show ?thesis using b(1) same by auto
  qed
qed

end

text \<open>The routine writes Secrets only.\<close>

definition secret_step :: "cluster \<Rightarrow> cluster \<Rightarrow> bool" where
  "secret_step c c' \<longleftrightarrow> (\<exists>f. c' = data_upd secretKind f c)"

lemma secret_step_refl [simp]: "secret_step c c"
proof -
  have "data_upd secretKind (\<lambda>m. m) c = c" by (simp add: data_upd_def)
  then show ?thesis unfolding secret_step_def by metis
qed

lemma secret_step_webhooks: "secret_step c c' \<Longrightarrow> clWebhookConfigs c' = clWebhookConfigs c"
  by (auto simp: secret_step_def)

context cert_store
begin

lemma secret_step_trans: "secret_step c1 c2 \<Longrightarrow> secret_step c2 c3 \<Longrightarrow> secret_step c1 c3"
  unfolding secret_step_def by (metis sec.upd_upd)

lemma create_secret_step: "kCreate (dataObjects clt secretKind) ob w = (r, w') \<Longrightarrow> secret_step (st w) (st w')"
  by (drule sec.create_touches) (auto simp: secret_step_def [of "st w"] intro: secret_step_refl [unfolded secret_step_def])

lemma getSelfSignedCACert_step:
  assumes "getSelfSignedCACert cr clt cn whKey w = (r, w')"
  shows "secret_step (st w) (st w')"
  using assms unfolding getSelfSignedCACert_def Let_def
  by (auto split: prod.splits sum.splits if_splits dest!: sec.get_st GenerateSelfSignedCACert_st create_secret_step)

lemma getSignedCert_step:
  assumes "getSignedCert cr clt whKey dns ca w = (r, w')"
  shows "secret_step (st w) (st w')"
  using assms unfolding getSignedCert_def Let_def
  by (auto split: prod.splits sum.splits if_splits dest!: sec.get_st GenerateSignedCert_st create_secret_step)

lemma certs_step:
  assumes "GenerateWebhookCerts cr fs clt dir ns name w = (r, w')"
  shows "secret_step (st w) (st w')"
proof -
  let ?k = "nskey ns name"
  obtain r1 w1 where g1: "getSelfSignedCACert cr clt certName ?k w = (r1, w1)" by fastforce
  obtain r2 w2 where g2: "r1 = Inr ca \<Longrightarrow> getSignedCert cr clt ?k (alternateDNS ns name) ca w1 = (r2, w2)" for ca
    by (metis Inr_inject prod.collapse)
  have "w' = w1 \<or> (\<exists>ca. r1 = Inr ca \<and> st w' = st w2)"
    using assms g1 g2 by (cases r1; cases r2)
      (auto simp: GenerateWebhookCerts_def Let_def split: prod.splits option.splits dest!: mkdir_st write_st)
  then show ?thesis
    using getSelfSignedCACert_step [OF g1] getSignedCert_step [OF g2] secret_step_trans by metis
qed

end

section \<open>Runs without faults\<close>

locale cert_store_calm =
  cert_store cr fs st files CheckSignatureFrom clt +
  sec: kind_api_calm "dataObjects clt secretKind" doMeta "(=)" st secrets "data_upd secretKind" calm any_update
  for cr :: "('w, 'k, 'p) Crypto" and fs :: "'w FileSystem" and st :: "'w \<Rightarrow> cluster"
    and files :: "'w \<Rightarrow> string \<rightharpoonup> bytes" and CheckSignatureFrom :: "bytes \<Rightarrow> bytes \<Rightarrow> bool" and clt :: "'w Env"
    and calm :: "'w \<Rightarrow> bool" +
  assumes rand_calm: "calm w \<Longrightarrow> 0 < n \<Longrightarrow> \<exists>i w'. 0 \<le> i \<and> i < n \<and> calm w' \<and> rand_Int cr n w = (Inr i, w')"
    and now_calm: "time_Now cr w = (t, w') \<Longrightarrow> calm w \<Longrightarrow> calm w'"
    and rsa_calm: "calm w \<Longrightarrow> \<exists>sk w'. calm w' \<and> rsa_GenerateKey cr rsaKeySize w = (Inr sk, w')"
    and create_cert_calm: "calm w \<Longrightarrow> 0 \<le> xSerialNumber tm \<Longrightarrow> ia5 (xSubjectCN tm) \<Longrightarrow> list_all ia5 (xDNSNames tm) \<Longrightarrow>
       xBasicConstraintsValid tm \<Longrightarrow> xPublicKey pa = None \<or> xPublicKey pa = Some (PublicKey cr sk) \<Longrightarrow>
       \<exists>der w'. calm w' \<and> x509_CreateCertificate cr tm pa pub sk w = (Inr der, w')"
    and pem_encodes: "\<exists>bs. pem_Encode cr b = Inr bs"
    and mkdir_calm: "calm w \<Longrightarrow> \<exists>w'. calm w' \<and> os_MkdirAll fs d w = (None, w')"
    and write_calm: "calm w \<Longrightarrow> \<exists>w'. calm w' \<and> ioutil_WriteFile fs f bs w = (None, w')"
begin

lemma template_calm:
  assumes "calm w"
  shows "\<exists>x w'. calm w' \<and> 0 \<le> xSerialNumber x \<and> generateBaseTemplateCert cr cn dns w = (Inr x, w')"
proof -
  obtain i w1 where i: "0 \<le> i" "calm w1" "rand_Int cr (2 ^ 128) w = (Inr i, w1)"
    using rand_calm [OF assms, of "2 ^ 128"] by auto
  obtain t2 w2 t3 w3 where t: "time_Now cr w1 = (t2, w2)" "time_Now cr w2 = (t3, w3)" by fastforce
  have "calm w3" using now_calm t i by blast
  then show ?thesis using i t by (simp add: generateBaseTemplateCert_def)
qed

lemma getCertAndKey_calm:
  assumes "calm w" "0 \<le> xSerialNumber tm" "ia5 (xSubjectCN tm)" "list_all ia5 (xDNSNames tm)"
    "xBasicConstraintsValid tm" "xPublicKey pa = None \<or> xPublicKey pa = Some (PublicKey cr sk)"
  shows "\<exists>c kb w'. calm w' \<and> getCertAndKey cr tm k pa sk w = (Inr (c, kb), w')"
proof -
  obtain der w1 where "calm w1" "x509_CreateCertificate cr tm pa (PublicKey cr k) sk w = (Inr der, w1)"
    using create_cert_calm [OF assms] by blast
  moreover obtain c kb where "pem_Encode cr \<lparr>pbType = ''CERTIFICATE'', pbBytes = der\<rparr> = Inr c"
    "pem_Encode cr \<lparr>pbType = ''RSA PRIVATE KEY'', pbBytes = x509_MarshalPKCS1PrivateKey cr k\<rparr> = Inr kb"
    using pem_encodes by metis
  ultimately show ?thesis by (simp add: getCertAndKey_def)
qed

lemma GenerateSelfSignedCACert_calm:
  assumes "calm w" "ia5 cn"
  shows "\<exists>ca w'. calm w' \<and> GenerateSelfSignedCACert cr cn w = (Inr ca, w')"
proof -
  obtain x w1 where x: "calm w1" "0 \<le> xSerialNumber x" "generateBaseTemplateCert cr cn [] w = (Inr x, w1)"
    using template_calm [OF assms(1)] by blast
  obtain k w2 where k: "calm w2" "rsa_GenerateKey cr rsaKeySize w1 = (Inr k, w2)" using rsa_calm [OF x(1)] by blast
  let ?t = "x\<lparr>xKeyUsage := KeyUsageKeyEncipherment OR KeyUsageDigitalSignature OR KeyUsageCertSign, xIsCA := True\<rparr>"
  obtain c kb w3 where "calm w3" "getCertAndKey cr ?t k ?t k w2 = (Inr (c, kb), w3)"
    using getCertAndKey_calm [OF k(1), of ?t ?t k k] x template_result [OF x(3)] assms(2) by auto
  then show ?thesis using x k by (simp add: GenerateSelfSignedCACert_def)
qed

lemma GenerateSignedCert_calm:
  assumes "calm w" "ia5 cn" "list_all ia5 dns" "usable_ca cr ca"
  shows "\<exists>c w'. calm w' \<and> GenerateSignedCert cr cn dns ca w = (Inr c, w')"
proof -
  obtain b pc kb sk where b: "pem_Decode cr (Cert ca) = Some b" "x509_ParseCertificate cr (pbBytes b) = Inr pc"
    "pem_Decode cr (Key ca) = Some kb" "x509_ParsePKCS1PrivateKey cr (pbBytes kb) = Inr sk"
    and pk: "xPublicKey pc = Some (PublicKey cr sk)"
    using assms(4) by (auto simp: usable_ca_def key_pair_def parsed_cert_def parsed_key_def split: option.splits sum.splits)
  obtain x w1 where x: "calm w1" "0 \<le> xSerialNumber x" "generateBaseTemplateCert cr cn dns w = (Inr x, w1)"
    using template_calm [OF assms(1)] by blast
  obtain k w2 where k: "calm w2" "rsa_GenerateKey cr rsaKeySize w1 = (Inr k, w2)" using rsa_calm [OF x(1)] by blast
  obtain c kb w3 where "calm w3" "getCertAndKey cr x k pc sk w2 = (Inr (c, kb), w3)"
    using getCertAndKey_calm [OF k(1), of x pc sk k] x template_result [OF x(3)] assms(2,3) pk by auto
  then show ?thesis using x k b by (simp add: GenerateSignedCert_def)
qed

lemma getSelfSignedCACert_calm:
  assumes "calm w" "ia5 cn"
  shows "\<exists>ca w'. calm w' \<and> getSelfSignedCACert cr clt cn whKey w = (Inr ca, w')"
proof (cases "secrets (st w) (getCASecretKey whKey)")
  case (Some s)
  then show ?thesis using sec.calm_get [OF assms(1), of "getCASecretKey whKey"] by (auto simp: getSelfSignedCACert_def)
next
  case None
  then obtain w1 where g: "calm w1" "kGet (dataObjects clt secretKind) (getCASecretKey whKey) w = (Inl NotFound, w1)"
    using sec.calm_get [OF assms(1), of "getCASecretKey whKey"] by auto
  obtain ca w2 where ca: "calm w2" "GenerateSelfSignedCACert cr cn w1 = (Inr ca, w2)"
    using GenerateSelfSignedCACert_calm [OF g(1) assms(2)] by blast
  have "st w2 = st w" using GenerateSelfSignedCACert_st [OF ca(2)] sec.get_st [OF g(2)] by simp
  then obtain ob w3 where "calm w3" "kCreate (dataObjects clt secretKind) (certSecret (getCASecretKey whKey) ca) w2 = (Inr ob, w3)"
    using sec.calm_create [OF ca(1), of "certSecret (getCASecretKey whKey) ca"] None by auto
  then show ?thesis using g ca by (simp add: getSelfSignedCACert_def)
qed

lemma getSignedCert_calm:
  assumes "calm w" "ia5 (nnName whKey)" "list_all ia5 dns" "usable_ca cr ca"
  shows "\<exists>c w'. calm w' \<and> getSignedCert cr clt whKey dns ca w = (Inr c, w')"
proof (cases "secrets (st w) (getSignedCASecretKey whKey)")
  case (Some s)
  then show ?thesis using sec.calm_get [OF assms(1), of "getSignedCASecretKey whKey"] by (auto simp: getSignedCert_def)
next
  case None
  then obtain w1 where g: "calm w1" "kGet (dataObjects clt secretKind) (getSignedCASecretKey whKey) w = (Inl NotFound, w1)"
    using sec.calm_get [OF assms(1), of "getSignedCASecretKey whKey"] by auto
  obtain c w2 where c: "calm w2" "GenerateSignedCert cr (nnName whKey) dns ca w1 = (Inr c, w2)"
    using GenerateSignedCert_calm [OF g(1) assms(2-4)] by blast
  have "st w2 = st w" using GenerateSignedCert_st [OF c(2)] sec.get_st [OF g(2)] by simp
  then obtain ob w3 where "calm w3" "kCreate (dataObjects clt secretKind) (certSecret (getSignedCASecretKey whKey) c) w2 = (Inr ob, w3)"
    using sec.calm_create [OF c(1), of "certSecret (getSignedCASecretKey whKey) c"] None by auto
  then show ?thesis using g c by (simp add: getSignedCert_def)
qed

lemma serve_calm:
  assumes "calm w"
  shows "\<exists>w1 w2 w3. calm w3 \<and> os_MkdirAll fs d w = (None, w1) \<and> ioutil_WriteFile fs f b w1 = (None, w2) \<and>
    ioutil_WriteFile fs f' b' w2 = (None, w3)"
  using mkdir_calm [OF assms] write_calm by metis

lemma certs_calm:
  assumes "calm w" "ia5 ns" "ia5 name" and inv: "certs_inv cr CheckSignatureFrom (nskey ns name) (st w)"
  shows "\<exists>b w'. calm w' \<and> GenerateWebhookCerts cr fs clt dir ns name w = (Inr b, w')"
proof -
  let ?k = "nskey ns name"
  have "ia5 certName" by (simp add: ia5_def certName_def)
  then obtain ca w1 where ca: "calm w1" "getSelfSignedCACert cr clt certName ?k w = (Inr ca, w1)"
    using getSelfSignedCACert_calm [OF assms(1)] by blast
  have "usable_ca cr ca"
    using getSelfSignedCACert_result [OF ca(2) inv] by (auto simp: certs_inv_def)
  moreover have "list_all ia5 (alternateDNS ns name)" using assms(2,3) by (simp add: alternateDNS_def ia5_def)
  ultimately obtain c w2 where c: "calm w2" "getSignedCert cr clt ?k (alternateDNS ns name) ca w1 = (Inr c, w2)"
    using getSignedCert_calm [OF ca(1), of ?k "alternateDNS ns name" ca] assms(3) by auto
  show ?thesis
    using ca c serve_calm [OF c(1), of "servingDir fs dir" "filepath_Join [servingDir fs dir, tlsCrt]" "Cert c"
        "filepath_Join [servingDir fs dir, tlsKey]" "Key c"] by (auto simp: GenerateWebhookCerts_def Let_def)
qed

lemma Attach_calm:
  assumes "Register (ValidtorPath wu) (wuHandler wu) w = Return w1" "calm w1"
    and "ia5 (nnNamespace (WebHookeSvcKey wu))" "ia5 (nnName (WebHookeSvcKey wu))"
    and "certs_inv cr CheckSignatureFrom (WebHookeSvcKey wu) (st w1)"
  shows "\<exists>ca c w'. Attach cr fs Register clt wu w = Return (Inr (Cert ca), w') \<and> calm w' \<and> secret_step (st w1) (st w') \<and>
    served_pair fs (CertDir wu) (files w') c \<and>
    serves cr CheckSignatureFrom (alternateDNS (nnNamespace (WebHookeSvcKey wu)) (nnName (WebHookeSvcKey wu))) ca c"
proof -
  let ?ns = "nnNamespace (WebHookeSvcKey wu)" and ?name = "nnName (WebHookeSvcKey wu)"
  have inv: "certs_inv cr CheckSignatureFrom (nskey ?ns ?name) (st w1)" using assms(5) by simp
  obtain b w' where run: "calm w'" "GenerateWebhookCerts cr fs clt (CertDir wu) ?ns ?name w1 = (Inr b, w')"
    using certs_calm [OF assms(2-4) inv] by blast
  show ?thesis
    using certs_result [OF run(2) inv] certs_step [OF run(2)] run assms(1) by (auto simp: Attach_def)
qed

text \<open>What is in the Secrets is used as it is, at whatever time the operator starts.\<close>

lemma certs_reused:
  assumes "calm w" and ca: "secrets (st w) (getCASecretKey (nskey ns name)) = Some ca"
    and c: "secrets (st w) (getSignedCASecretKey (nskey ns name)) = Some c"
  shows "\<exists>w'. calm w' \<and> GenerateWebhookCerts cr fs clt dir ns name w = (Inr (Cert (secretCert ca)), w') \<and>
    st w' = st w \<and> served_pair fs dir (files w') (secretCert c)"
proof -
  let ?k = "nskey ns name"
  obtain w1 where w1: "calm w1" "kGet (dataObjects clt secretKind) (getCASecretKey ?k) w = (Inr ca, w1)"
    using sec.calm_get [OF assms(1), of "getCASecretKey ?k"] ca by auto
  have s1: "st w1 = st w" using sec.get_st [OF w1(2)] .
  obtain w2 where w2: "calm w2" "kGet (dataObjects clt secretKind) (getSignedCASecretKey ?k) w1 = (Inr c, w2)"
    using sec.calm_get [OF w1(1), of "getSignedCASecretKey ?k"] c s1 by auto
  have s2: "st w2 = st w" using sec.get_st [OF w2(2)] s1 by simp
  obtain w3 w4 w5 where f: "calm w5" "os_MkdirAll fs (servingDir fs dir) w2 = (None, w3)"
    "ioutil_WriteFile fs (filepath_Join [servingDir fs dir, tlsCrt]) (Cert (secretCert c)) w3 = (None, w4)"
    "ioutil_WriteFile fs (filepath_Join [servingDir fs dir, tlsKey]) (Key (secretCert c)) w4 = (None, w5)"
    using serve_calm [OF w2(1)] by blast
  show ?thesis
    using w1 w2 f serve_files [OF f(2-4)] s2
    by (simp add: GenerateWebhookCerts_def getSelfSignedCACert_def getSignedCert_def)
qed

text \<open>A lost authority is replaced, while the certificate signed by the old one stays in use.\<close>

lemma certs_lost_ca:
  assumes "calm w" and ca: "secrets (st w) (getCASecretKey (nskey ns name)) = None"
    and c: "secrets (st w) (getSignedCASecretKey (nskey ns name)) = Some c"
  shows "\<exists>ca w'. GenerateWebhookCerts cr fs clt dir ns name w = (Inr (Cert ca), w') \<and>
    secrets (st w') = (secrets (st w))(getCASecretKey (nskey ns name) \<mapsto> certSecret (getCASecretKey (nskey ns name)) ca) \<and>
    served_pair fs dir (files w') (secretCert c)"
proof -
  let ?k = "nskey ns name"
  obtain w1 where w1: "calm w1" "kGet (dataObjects clt secretKind) (getCASecretKey ?k) w = (Inl NotFound, w1)"
    using sec.calm_get [OF assms(1), of "getCASecretKey ?k"] ca by auto
  obtain na w2 where na: "calm w2" "GenerateSelfSignedCACert cr certName w1 = (Inr na, w2)"
    using GenerateSelfSignedCACert_calm [OF w1(1), of certName] by (auto simp: ia5_def certName_def)
  have s2: "st w2 = st w" using GenerateSelfSignedCACert_st [OF na(2)] sec.get_st [OF w1(2)] by simp
  obtain ob w3 where w3: "calm w3" "kCreate (dataObjects clt secretKind) (certSecret (getCASecretKey ?k) na) w2 = (Inr ob, w3)"
    using sec.calm_create [OF na(1), of "certSecret (getCASecretKey ?k) na"] ca s2 by auto
  have s3: "secrets (st w3) = (secrets (st w))(getCASecretKey ?k \<mapsto> certSecret (getCASecretKey ?k) na)"
    using create_secret [OF w3(2)] s2 by auto
  have new: "getSelfSignedCACert cr clt certName ?k w = (Inr na, w3)"
    using w1 na w3 by (simp add: getSelfSignedCACert_def)
  obtain w4 where w4: "calm w4" "kGet (dataObjects clt secretKind) (getSignedCASecretKey ?k) w3 = (Inr c, w4)"
    using sec.calm_get [OF w3(1), of "getSignedCASecretKey ?k"] c s3 by auto
  obtain w5 w6 w7 where f: "calm w7" "os_MkdirAll fs (servingDir fs dir) w4 = (None, w5)"
    "ioutil_WriteFile fs (filepath_Join [servingDir fs dir, tlsCrt]) (Cert (secretCert c)) w5 = (None, w6)"
    "ioutil_WriteFile fs (filepath_Join [servingDir fs dir, tlsKey]) (Key (secretCert c)) w6 = (None, w7)"
    using serve_calm [OF w4(1)] by blast
  show ?thesis
    using new w4 f serve_files [OF f(2-4)] s3 sec.get_st [OF w4(2)]
    by (intro exI [of _ na] exI [of _ w7]) (simp add: GenerateWebhookCerts_def getSignedCert_def)
qed

end

end
