(* ===== verification/Cert_Mem.thy ===== *)
theory Cert_Mem
  imports Webhook_Certs
begin

text \<open>
  An executable standard library for the certificate code, beside the in-memory cluster: keys are
  numbers, a certificate is the escaped list of its fields with the issuer's name and key, and a
  signature is good if it names the key of the issuer. Files are an association list and the clock
  ticks. It satisfies the laws of \<open>cert_store_calm\<close>, so that they are consistent and the
  theorems about the certificates of the webhook, which close this theory, can be run.
\<close>

section \<open>Encodings\<close>

text \<open>A list of strings, each character behind a dot and each string closed by a bang.\<close>

definition enc_str :: "string \<Rightarrow> string" where
  "enc_str s = concat (map (\<lambda>c. [CHR ''.'', c]) s) @ ''!''"

definition enc_strs :: "string list \<Rightarrow> string" where
  "enc_strs ss = concat (map enc_str ss)"

fun dec_strs :: "string \<Rightarrow> string \<Rightarrow> string list option" where
  "dec_strs acc [] = (if acc = [] then Some [] else None)"
| "dec_strs acc (x # r) =
     (if x = CHR ''!'' then map_option (Cons (rev acc)) (dec_strs [] r)
      else case r of [] \<Rightarrow> None | c # r' \<Rightarrow> dec_strs (c # acc) r')"

lemma dec_str: "dec_strs acc (enc_str s @ r) = map_option (Cons (rev acc @ s)) (dec_strs [] r)"
  by (induction s arbitrary: acc) (simp_all add: enc_str_def)

lemma dec_enc_strs [simp]: "dec_strs [] (enc_strs ss) = Some ss"
  by (induction ss) (simp_all add: enc_strs_def dec_str)

text \<open>Integers in binary.\<close>

function bits :: "int \<Rightarrow> string" where
  "bits i = (if i \<le> 0 then [] else (if i mod 2 = 1 then CHR ''1'' else CHR ''0'') # bits (i div 2))"
  by pat_completeness auto
termination by (relation "measure nat") auto

declare bits.simps [simp del]

primrec bits_val :: "string \<Rightarrow> int" where
  "bits_val [] = 0"
| "bits_val (c # cs) = (if c = CHR ''1'' then 1 else 0) + 2 * bits_val cs"

lemma bits_val_bits: "0 \<le> i \<Longrightarrow> bits_val (bits i) = i"
  by (induction i rule: bits.induct) (subst bits.simps, auto, presburger)

definition enc_int :: "int \<Rightarrow> string" where
  "enc_int i = (if i < 0 then CHR ''-'' # bits (- i) else CHR ''+'' # bits i)"

definition dec_int :: "string \<Rightarrow> int" where
  "dec_int s = (case s of [] \<Rightarrow> 0 | c # cs \<Rightarrow> if c = CHR ''-'' then - bits_val cs else bits_val cs)"

lemma dec_enc_int [simp]: "dec_int (enc_int i) = i"
  by (simp add: enc_int_def dec_int_def bits_val_bits)

definition enc_bool :: "bool \<Rightarrow> string" where
  "enc_bool b = (if b then ''t'' else ''f'')"

lemma enc_bool_eq [simp]: "enc_bool b = ''t'' \<longleftrightarrow> b"
  by (simp add: enc_bool_def)

definition enc_usages :: "ExtKeyUsage list \<Rightarrow> string" where
  "enc_usages us = map (\<lambda>u. case u of ExtKeyUsageServerAuth \<Rightarrow> CHR ''s'' | ExtKeyUsageClientAuth \<Rightarrow> CHR ''c'') us"

definition dec_usages :: "string \<Rightarrow> ExtKeyUsage list" where
  "dec_usages s = map (\<lambda>c. if c = CHR ''s'' then ExtKeyUsageServerAuth else ExtKeyUsageClientAuth) s"

lemma dec_enc_usages [simp]: "dec_usages (enc_usages us) = us"
  by (induction us) (auto simp: dec_usages_def enc_usages_def split: ExtKeyUsage.split)

section \<open>Certificates\<close>

definition sym_der :: "int X509 \<Rightarrow> int X509 \<Rightarrow> int \<Rightarrow> int \<Rightarrow> bytes" where
  "sym_der tm pa pub sk = enc_strs
     ([xSubjectCN pa, enc_int sk, xSubjectCN tm, enc_int (xSerialNumber tm), enc_int (xNotBefore tm div 1000000000),
       enc_int (xNotAfter tm div 1000000000), enc_int (uint (xKeyUsage tm)), enc_usages (xExtKeyUsage tm),
       enc_bool (xBasicConstraintsValid tm), enc_bool (xIsCA tm), enc_int pub] @ xDNSNames tm)"

text \<open>The name and the key of the issuer, and the certificate.\<close>

definition sym_fields :: "bytes \<Rightarrow> (string \<times> int \<times> int X509) option" where
  "sym_fields der =
     (case dec_strs [] der of
        Some (icn # ik # cn # sn # nb # na # ku # eu # bc # ca # pub # dns) \<Rightarrow>
          Some (icn, dec_int ik, \<lparr>xSerialNumber = dec_int sn, xSubjectCN = cn, xIPAddresses = [], xDNSNames = dns,
            xNotBefore = dec_int nb * 1000000000, xNotAfter = dec_int na * 1000000000,
            xKeyUsage = word_of_int (dec_int ku), xExtKeyUsage = dec_usages eu,
            xBasicConstraintsValid = (bc = ''t''), xIsCA = (ca = ''t''), xPublicKey = Some (dec_int pub)\<rparr>)
      | _ \<Rightarrow> None)"

lemma sym_fields_der:
  "sym_fields (sym_der tm pa pub sk) = Some (xSubjectCN pa, sk,
     tm\<lparr>xIPAddresses := [], xNotBefore := to_second (xNotBefore tm), xNotAfter := to_second (xNotAfter tm),
        xPublicKey := Some pub\<rparr>)"
  by (simp add: sym_fields_def sym_der_def to_second_def)

definition sym_parse :: "bytes \<Rightarrow> go_error + int X509" where
  "sym_parse der = (case sym_fields der of None \<Rightarrow> Inl (NewErr ''x509: malformed certificate'') | Some (_, _, c) \<Rightarrow> Inr c)"

definition sym_check :: "bytes \<Rightarrow> bytes \<Rightarrow> bool" where
  "sym_check der pder =
     (case (sym_fields der, sym_fields pder) of
        (Some (icn, ik, _), Some (_, _, p)) \<Rightarrow> icn = xSubjectCN p \<and> xPublicKey p = Some ik \<and> may_sign p
      | _ \<Rightarrow> False)"

section \<open>The world\<close>

record sys =
  sysSeed :: int
  sysNow :: int
  sysFiles :: "(string \<times> bytes) list"

definition symCrypto :: "(mem \<times> sys, int, int) Crypto" where
  "symCrypto = \<lparr>
     rand_Int = (\<lambda>n (m, s). (Inr (sysSeed s mod n), (m, s\<lparr>sysSeed := sysSeed s + 1\<rparr>))),
     time_Now = (\<lambda>(m, s). (sysNow s, (m, s\<lparr>sysNow := sysNow s + 1\<rparr>))),
     rsa_GenerateKey = (\<lambda>_ (m, s). (Inr (sysSeed s), (m, s\<lparr>sysSeed := sysSeed s + 1\<rparr>))),
     PublicKey = (\<lambda>k. k),
     x509_CreateCertificate = (\<lambda>tm pa pub sk v. (if xSerialNumber tm < 0
        then Inl (NewErr ''x509: serial number must be positive'') else Inr (sym_der tm pa pub sk), v)),
     x509_ParseCertificate = sym_parse,
     x509_MarshalPKCS1PrivateKey = enc_int,
     x509_ParsePKCS1PrivateKey = (\<lambda>s. Inr (dec_int s)),
     pem_Encode = (\<lambda>b. Inr (enc_strs [pbType b, pbBytes b])),
     pem_Decode = (\<lambda>s. case dec_strs [] s of Some [t, d] \<Rightarrow> Some \<lparr>pbType = t, pbBytes = d\<rparr> | _ \<Rightarrow> None)\<rparr>"

definition memFs :: "(mem \<times> sys) FileSystem" where
  "memFs = \<lparr>os_TempDir = ''/tmp'', os_MkdirAll = (\<lambda>_ v. (None, v)),
     ioutil_WriteFile = (\<lambda>f b (m, s). (None, (m, s\<lparr>sysFiles := (f, b) # sysFiles s\<rparr>)))\<rparr>"

definition certMem :: "(mem \<times> sys) Env" where
  "certMem = part_env fst put_fst memEnv"

abbreviation cert_st :: "mem \<times> sys \<Rightarrow> cluster" where
  "cert_st v \<equiv> mem_cluster (fst v)"

abbreviation cert_files :: "mem \<times> sys \<Rightarrow> string \<rightharpoonup> bytes" where
  "cert_files v \<equiv> map_of (sysFiles (snd v))"

abbreviation cert_calm :: "mem \<times> sys \<Rightarrow> bool" where
  "cert_calm v \<equiv> mem_calm (fst v)"

lemma certMem_kind:
  "kind_api_calm (dataObjects certMem secretKind) doMeta (=) cert_st secrets (data_upd secretKind) cert_calm any_update"
proof -
  have "kind_api_calm (dataObjects memEnv secretKind) doMeta (=) mem_cluster secrets (data_upd secretKind) mem_calm any_update"
    by (rule fake.data_calm)
  then show ?thesis by (simp add: certMem_def part_env_def left.part_kind_calm)
qed

lemma sym_cert_lib: "cert_lib symCrypto memFs cert_st cert_files sym_check"
  by unfold_locales (auto simp: symCrypto_def memFs_def sym_parse_def sym_fields_der sym_check_def issued_def
      split: if_splits prod.splits option.splits)

lemma sym_cert_store: "cert_store symCrypto memFs cert_st cert_files sym_check certMem"
  using certMem_kind by (simp add: cert_store_def sym_cert_lib kind_api_calm_def)

lemma sym_store_calm: "cert_store_calm symCrypto memFs cert_st cert_files sym_check certMem cert_calm"
proof (intro cert_store_calm.intro sym_cert_store certMem_kind cert_store_calm_axioms.intro)
qed (auto simp: symCrypto_def memFs_def)

interpretation sym: cert_store_calm symCrypto memFs cert_st cert_files sym_check certMem cert_calm
  by (rule sym_store_calm)

lemma certMem_api: "kube_api_calm certMem cert_st cert_calm"
  unfolding certMem_def by (rule left.part_kube_calm [OF fake.kube_api_calm_axioms])

section \<open>Certificates of the webhook\<close>

text \<open>Worlds to run in: a new cluster; the cluster after a first start, a year later; and without the authority's Secret.\<close>

definition ex_new :: "mem \<times> sys" where
  "ex_new = (empty_mem, \<lparr>sysSeed = 1, sysNow = 0, sysFiles = []\<rparr>)"

definition ex_started :: "mem \<times> sys" where
  "ex_started = snd (GenerateWebhookCerts symCrypto memFs certMem [] ''ns'' ''wh'' ex_new)"

definition ex_later :: "mem \<times> sys" where
  "ex_later = (fst ex_started, \<lparr>sysSeed = 9, sysNow = 40000000000000000, sysFiles = []\<rparr>)"

definition ex_lost :: "mem \<times> sys" where
  "ex_lost = (mDataObjects_update (filter (\<lambda>x. omName (doMeta (snd x)) \<noteq> ''wh-ca'')) (fst ex_started),
     \<lparr>sysSeed = 9, sysNow = 1000000000, sysFiles = []\<rparr>)"

definition ex_wireup :: "unit WireUp" where
  "ex_wireup = \<lparr>wuHandler = Some (), CertDir = ''/certs'', WebhookName = ''hook'', WebHookPort = 9443,
     WebHookeSvcKey = nskey ''ns'' ''wh'', WebHookServicePort = 443, ValidtorPath = ''/validate'',
     DeployLabel = ''operator'', DeploymentSelector = Map.empty\<rparr>"

lemma ex_new_inv: "certs_inv symCrypto sym_check k (cert_st ex_new)"
  by (simp add: certs_inv_def ex_new_def empty_mem_def data_sel_def mem_cluster_def mem_data_sel_def)

lemma ex_wireup_sel [simp]:
  "CertDir ex_wireup = ''/certs''" "WebHookeSvcKey ex_wireup = nskey ''ns'' ''wh''"
  by (simp_all add: ex_wireup_def)

lemma ex_new_calm: "cert_calm ex_new"
  by (simp add: ex_new_def empty_mem_def mem_calm_def)

text \<open>
  C32. The Secrets of a webhook stay consistent, whatever fails: the authority can sign, and a
  serving certificate is signed by it, belongs to its key and names the service. When the routine
  succeeds, the bytes it returns for the webhook configuration are that authority, and the files
  the server reads are that pair, so that the API server accepts the webhook.
\<close>

theorem webhook_certs_chain:
  assumes "cert_store cr fs st files check clt" and "certs_inv cr check (nskey ns name) (st w)"
  shows "certs_inv cr check (nskey ns name) (st (snd (GenerateWebhookCerts cr fs clt dir ns name w))) \<and>
    (\<forall>b. fst (GenerateWebhookCerts cr fs clt dir ns name w) = Inr b \<longrightarrow>
      (\<exists>ca c. b = Cert ca \<and> usable_ca cr ca \<and>
        served_pair fs dir (files (snd (GenerateWebhookCerts cr fs clt dir ns name w))) c \<and>
        serves cr check (alternateDNS ns name) ca c))"
proof -
  obtain r w' where run: "GenerateWebhookCerts cr fs clt dir ns name w = (r, w')" by fastforce
  note res = cert_store.certs_result [OF assms(1) run assms(2)]
  then show ?thesis using run by (fastforce simp: certs_inv_def)
qed

theorem webhook_certs_chain_witness:
  "certs_inv symCrypto sym_check (nskey ''ns'' ''wh'') (cert_st ex_started) \<and>
   (\<exists>ca c. served_pair memFs [] (cert_files ex_started) c \<and>
     serves symCrypto sym_check (alternateDNS ''ns'' ''wh'') ca c)"
proof -
  obtain b v' where "GenerateWebhookCerts symCrypto memFs certMem [] ''ns'' ''wh'' ex_new = (Inr b, v')"
    using sym.certs_calm [OF ex_new_calm _ _ ex_new_inv, of "''ns''" "''wh''" "[]"] by (auto simp: ia5_def)
  then show ?thesis
    using webhook_certs_chain [OF sym_cert_store ex_new_inv, of "''ns''" "''wh''" "[]"]
    by (auto simp: ex_started_def)
qed

text \<open>
  C33. Without faults, and when the Secrets keep the invariant of C32 and registering succeeds, attaching
  the webhook to the server succeeds: the handler is registered under the validator's path and the
  certificates are there, new or from an earlier start.
\<close>

theorem Attach_succeeds:
  assumes "cert_store_calm cr fs st files check clt calm"
    and "Register (ValidtorPath wu) (wuHandler wu) w = Return w1" and "calm w1"
    and "ia5 (nnNamespace (WebHookeSvcKey wu))" and "ia5 (nnName (WebHookeSvcKey wu))"
    and "certs_inv cr check (WebHookeSvcKey wu) (st w1)"
  shows "\<exists>ca c w'. Attach cr fs Register clt wu w = Return (Inr (Cert ca), w') \<and> calm w' \<and>
    served_pair fs (CertDir wu) (files w') c \<and>
    serves cr check (alternateDNS (nnNamespace (WebHookeSvcKey wu)) (nnName (WebHookeSvcKey wu))) ca c"
  using cert_store_calm.Attach_calm [OF assms(1), of Register wu w w1] assms(2-6) by blast

theorem Attach_succeeds_witness:
  "\<exists>ca c w'. Attach symCrypto memFs (\<lambda>_ _. Return) certMem ex_wireup ex_new = Return (Inr (Cert ca), w') \<and> cert_calm w' \<and>
    served_pair memFs ''/certs'' (cert_files w') c \<and>
    serves symCrypto sym_check (alternateDNS ''ns'' ''wh'') ca c"
  using Attach_succeeds [OF sym_store_calm _ ex_new_calm _ _ ex_new_inv, of "\<lambda>_ _. Return" ex_wireup ex_new]
  by (simp add: ia5_def)

text \<open>
  C34. Every later start finds the same certificates: without faults the routine returns the stored
  authority, leaves the cluster as it is and writes the stored pair to the files. This holds at any
  time: a certificate past its 365 days is served as well.
\<close>

theorem stored_certs_reused:
  assumes "cert_store_calm cr fs st files check clt calm" and "calm w"
    and "secrets (st w) (getCASecretKey (nskey ns name)) = Some ca"
    and "secrets (st w) (getSignedCASecretKey (nskey ns name)) = Some c"
  shows "fst (GenerateWebhookCerts cr fs clt dir ns name w) = Inr (Cert (secretCert ca)) \<and>
    st (snd (GenerateWebhookCerts cr fs clt dir ns name w)) = st w \<and>
    served_pair fs dir (files (snd (GenerateWebhookCerts cr fs clt dir ns name w))) (secretCert c)"
  using cert_store_calm.certs_reused [OF assms, of dir] by auto

theorem stored_certs_reused_witness:
  "\<exists>c der x. served_pair memFs [] (cert_files (snd (GenerateWebhookCerts symCrypto memFs certMem [] ''ns'' ''wh'' ex_later))) c \<and>
     parsed_cert symCrypto c = Some (der, x) \<and> xNotAfter x < sysNow (snd ex_later)"
proof -
  let ?k = "nskey ''ns'' ''wh''"
  have "secrets (cert_st ex_later) (getCASecretKey ?k) \<noteq> None" by code_simp
  then obtain ca where ca: "secrets (cert_st ex_later) (getCASecretKey ?k) = Some ca" by blast
  have "case secrets (cert_st ex_later) (getSignedCASecretKey ?k) of None \<Rightarrow> False
    | Some c \<Rightarrow> (case parsed_cert symCrypto (secretCert c) of None \<Rightarrow> False
        | Some (der, x) \<Rightarrow> xNotAfter x < sysNow (snd ex_later))" by code_simp
  then obtain c der x where c: "secrets (cert_st ex_later) (getSignedCASecretKey ?k) = Some c"
    "parsed_cert symCrypto (secretCert c) = Some (der, x)" "xNotAfter x < sysNow (snd ex_later)"
    by (auto split: option.splits)
  have calm: "cert_calm ex_later" by code_simp
  show ?thesis using stored_certs_reused [OF sym_store_calm calm ca c(1), of "[]"] c by blast
qed

text \<open>
  C35. A Secret of the authority that is lost is replaced by a new authority, but the serving
  certificate in the other Secret stays, although the old authority signed it: the bytes for the
  webhook configuration and the certificate the server presents no longer fit.
\<close>

theorem lost_ca_keeps_old_cert:
  assumes "cert_store_calm cr fs st files check clt calm" and "calm w"
    and "secrets (st w) (getCASecretKey (nskey ns name)) = None"
    and "secrets (st w) (getSignedCASecretKey (nskey ns name)) = Some c"
  shows "\<exists>ca. fst (GenerateWebhookCerts cr fs clt dir ns name w) = Inr (Cert ca) \<and>
    secrets (st (snd (GenerateWebhookCerts cr fs clt dir ns name w))) = (secrets (st w))
      (getCASecretKey (nskey ns name) \<mapsto> certSecret (getCASecretKey (nskey ns name)) ca) \<and>
    served_pair fs dir (files (snd (GenerateWebhookCerts cr fs clt dir ns name w))) (secretCert c)"
proof -
  obtain ca w' where "GenerateWebhookCerts cr fs clt dir ns name w = (Inr (Cert ca), w')"
    "secrets (st w') = (secrets (st w))(getCASecretKey (nskey ns name) \<mapsto> certSecret (getCASecretKey (nskey ns name)) ca)"
    "served_pair fs dir (files w') (secretCert c)"
    using cert_store_calm.certs_lost_ca [OF assms, of dir] by blast
  then show ?thesis by (intro exI [of _ ca]) simp
qed

theorem lost_ca_keeps_old_cert_witness:
  "\<exists>ca c. fst (GenerateWebhookCerts symCrypto memFs certMem [] ''ns'' ''wh'' ex_lost) = Inr (Cert ca) \<and>
     served_pair memFs [] (cert_files (snd (GenerateWebhookCerts symCrypto memFs certMem [] ''ns'' ''wh'' ex_lost))) c \<and>
     \<not> chains symCrypto sym_check ca c"
proof -
  let ?k = "nskey ''ns'' ''wh''"
  let ?run = "GenerateWebhookCerts symCrypto memFs certMem [] ''ns'' ''wh'' ex_lost"
  have lost: "secrets (cert_st ex_lost) (getCASecretKey ?k) = None" and calm: "cert_calm ex_lost"
    by (code_simp, code_simp)
  have "case secrets (cert_st ex_lost) (getSignedCASecretKey ?k) of None \<Rightarrow> False
    | Some c \<Rightarrow> (case secrets (cert_st (snd ?run)) (getCASecretKey ?k) of None \<Rightarrow> False
        | Some s \<Rightarrow> \<not> chains symCrypto sym_check (secretCert s) (secretCert c))" by code_simp
  then obtain c s where c: "secrets (cert_st ex_lost) (getSignedCASecretKey ?k) = Some c"
    and s: "secrets (cert_st (snd ?run)) (getCASecretKey ?k) = Some s"
      "\<not> chains symCrypto sym_check (secretCert s) (secretCert c)"
    by (auto split: option.splits)
  obtain ca where "fst ?run = Inr (Cert ca)"
    "secrets (cert_st (snd ?run)) = (secrets (cert_st ex_lost))(getCASecretKey ?k \<mapsto> certSecret (getCASecretKey ?k) ca)"
    "served_pair memFs [] (cert_files (snd ?run)) (secretCert c)"
    using lost_ca_keeps_old_cert [OF sym_store_calm calm lost c, of "[]"] by blast
  then show ?thesis using s by (intro exI [of _ ca] exI [of _ "secretCert c"]) auto
qed

end
