(* ===== verification/Tls_Config.thy ===== *)
theory Tls_Config
  imports Go_Lib
begin

text \<open>
  \<open>pkg/utils/tlsconfig/tlsconfig.go\<close>: the TLS settings of the process, read once from the
  cluster's \<open>APIServer\<close> resource, with retries, and cached. The poller of apimachinery
  (\<open>wait.PollUntilContextTimeout\<close>), the client, the table of profiles of the OpenShift API
  and the conversions of library-go are parameters; the locale \<open>poller\<close> states what the poller
  documents. The names of profile types and groups are the constants of the OpenShift API, as
  constructors, with one more for any other string.
\<close>

section \<open>Data\<close>

datatype TLSProfileType = TLSProfileOldType | TLSProfileIntermediateType | TLSProfileModernType
  | TLSProfileCustomType | OtherProfileType string

datatype TLSGroup = TLSGroupX25519 | TLSGroupSecP256r1 | TLSGroupSecP384r1 | TLSGroupSecP521r1
  | TLSGroupX25519MLKEM768 | TLSGroupSecP256r1MLKEM768 | TLSGroupSecP384r1MLKEM1024 | OtherGroup string

record TLSProfileSpec =
  psCiphers :: "string list"
  psMinTLSVersion :: string
  psGroups :: "TLSGroup list"

record TLSSecurityProfile =
  tpType :: TLSProfileType
  tpCustom :: "TLSProfileSpec option"

record APIServer =
  asTLSSecurityProfile :: "TLSSecurityProfile option"

text \<open>\<open>tls.CurveID\<close> is a 16-bit number; \<open>None\<close> as curve preferences is \<open>nil\<close>, Go's default.\<close>

type_synonym CurveID = "16 word"

record tlsConfig =
  MinVersion :: "16 word"
  CipherSuites :: "16 word list"
  CurvePreferences :: "CurveID slice"

text \<open>library-go's \<open>crypto\<close> package; the functions named \<open>OrDie\<close> panic.\<close>

record tlsLib =
  TLSProfiles :: "TLSProfileType \<Rightarrow> TLSProfileSpec option"
  TLSVersionOrDie :: "string \<Rightarrow> 16 word outcome"
  OpenSSLToIANACipherSuites :: "string list \<Rightarrow> string list"
  CipherSuitesOrDie :: "string list \<Rightarrow> 16 word list outcome"
  SecureTLSConfig :: "tlsConfig \<Rightarrow> tlsConfig"

section \<open>From a profile to a configuration\<close>

definition curveIDByTLSGroup :: "TLSGroup \<Rightarrow> CurveID option" where
  "curveIDByTLSGroup g = (case g of
      TLSGroupX25519 \<Rightarrow> Some 29
    | TLSGroupSecP256r1 \<Rightarrow> Some 23
    | TLSGroupSecP384r1 \<Rightarrow> Some 24
    | TLSGroupSecP521r1 \<Rightarrow> Some 25
    | TLSGroupX25519MLKEM768 \<Rightarrow> Some 4588
    | TLSGroupSecP256r1MLKEM768 \<Rightarrow> Some 4587
    | TLSGroupSecP384r1MLKEM1024 \<Rightarrow> Some 4589
    | OtherGroup _ \<Rightarrow> None)"

text \<open>The loop, with the two lists as they grow.\<close>

fun curvesLoop :: "TLSGroup list \<Rightarrow> CurveID list \<Rightarrow> TLSGroup list \<Rightarrow> CurveID list \<times> TLSGroup list" where
  "curvesLoop [] curves unrecognized = (curves, unrecognized)"
| "curvesLoop (g # groups) curves unrecognized =
     (case curveIDByTLSGroup g of
        Some i \<Rightarrow> curvesLoop groups (curves @ [i]) unrecognized
      | None \<Rightarrow> curvesLoop groups curves (unrecognized @ [g]))"

definition tlsGroupsToCurveIDs :: "TLSGroup list \<Rightarrow> CurveID list \<times> TLSGroup list" where
  "tlsGroupsToCurveIDs groups = curvesLoop groups [] []"

definition getEffectiveProfileSpec :: "tlsLib \<Rightarrow> TLSSecurityProfile option \<Rightarrow> TLSProfileSpec option" where
  "getEffectiveProfileSpec lib profile =
     (case profile of
        None \<Rightarrow> TLSProfiles lib TLSProfileIntermediateType
      | Some p \<Rightarrow>
          if tpType p = TLSProfileCustomType \<and> tpCustom p \<noteq> None then tpCustom p
          else (case TLSProfiles lib (tpType p) of
              Some spec \<Rightarrow> Some spec
            | None \<Rightarrow> TLSProfiles lib TLSProfileIntermediateType))"

definition profileSpecToTLSConfig :: "tlsLib \<Rightarrow> TLSProfileSpec option \<Rightarrow> tlsConfig outcome" where
  "profileSpecToTLSConfig lib spec =
     (case (if spec = None then TLSProfiles lib TLSProfileIntermediateType else spec) of
        None \<Rightarrow> Panic NilDereference
      | Some spec \<Rightarrow>
          map_outcome_bind (TLSVersionOrDie lib (psMinTLSVersion spec)) (\<lambda>minVersion.
          let ianaCiphers = OpenSSLToIANACipherSuites lib (psCiphers spec)
          in map_outcome_bind (CipherSuitesOrDie lib ianaCiphers) (\<lambda>cipherIDs.
          let config = \<lparr>MinVersion = minVersion, CipherSuites = cipherIDs, CurvePreferences = None\<rparr>;
              (curves, unrecognized) = tlsGroupsToCurveIDs (psGroups spec);
              config = (if curves \<noteq> [] then config\<lparr>CurvePreferences := Some curves\<rparr> else config)
          in Return (SecureTLSConfig lib config))))"

section \<open>Reading the resource\<close>

definition apiserverClusterName :: string where
  "apiserverClusterName = ''cluster''"

text \<open>Durations in nanoseconds.\<close>

definition apiserverGetRetryInterval :: int where
  "apiserverGetRetryInterval = 10 * 1000000000"

definition apiserverGetRetryTimeout :: int where
  "apiserverGetRetryTimeout = 2 * 60 * 1000000000"

definition isPermanentAPIServerError :: "api_err \<Rightarrow> bool" where
  "isPermanentAPIServerError er \<longleftrightarrow> er = NotFound \<or> er = NoMatch"

text \<open>The variables that the closures of the two retried operations share with the code around them.\<close>

record ('w, 'c) fetchVars =
  lastErr :: "api_err option"
  kubeClient :: "'c option"
  apiServer :: APIServer
  fvWorld :: 'w

datatype poll_err = ConditionErr api_err | ContextDone

type_synonym 's condition = "'s \<Rightarrow> (bool \<times> api_err option) \<times> 's"

type_synonym 's poll = "int \<Rightarrow> int \<Rightarrow> bool \<Rightarrow> 's condition \<Rightarrow> 's \<Rightarrow> poll_err option \<times> 's"

definition retryCondition ::
  "(('w, 'c) fetchVars \<Rightarrow> api_err option \<times> ('w, 'c) fetchVars) \<Rightarrow> ('w, 'c) fetchVars condition" where
  "retryCondition op s =
     (case op s of (er, s) \<Rightarrow>
       (let s = s\<lparr>lastErr := er\<rparr>
        in case er of
            None \<Rightarrow> ((True, None), s)
          | Some e \<Rightarrow> if isPermanentAPIServerError e then ((False, Some e), s) else ((False, None), s)))"

definition retryAPIServerOp ::
  "('w, 'c) fetchVars poll \<Rightarrow> (('w, 'c) fetchVars \<Rightarrow> api_err option \<times> ('w, 'c) fetchVars) \<Rightarrow>
   ('w, 'c) fetchVars \<Rightarrow> api_err option \<times> ('w, 'c) fetchVars" where
  "retryAPIServerOp Poll op s =
     (case Poll apiserverGetRetryInterval apiserverGetRetryTimeout True (retryCondition op) (s\<lparr>lastErr := None\<rparr>) of
        (pollErr, s) \<Rightarrow> (if pollErr \<noteq> None then lastErr s else None, s))"

text \<open>\<open>client.New\<close> and the client's \<open>Get\<close> for the \<open>APIServer\<close> kind.\<close>

record ('w, 'c) apiServerClient =
  client_New :: "'w \<Rightarrow> (api_err + 'c) \<times> 'w"
  client_Get :: "'c \<Rightarrow> string \<Rightarrow> 'w \<Rightarrow> (api_err + APIServer) \<times> 'w"

definition newClientOp :: "('w, 'c) apiServerClient \<Rightarrow> ('w, 'c) fetchVars \<Rightarrow> api_err option \<times> ('w, 'c) fetchVars" where
  "newClientOp cl s =
     (case client_New cl (fvWorld s) of
        (Inl er, w) \<Rightarrow> (Some er, s\<lparr>kubeClient := None, fvWorld := w\<rparr>)
      | (Inr c, w) \<Rightarrow> (None, s\<lparr>kubeClient := Some c, fvWorld := w\<rparr>))"

definition getServerOp :: "('w, 'c) apiServerClient \<Rightarrow> 'c \<Rightarrow> ('w, 'c) fetchVars \<Rightarrow> api_err option \<times> ('w, 'c) fetchVars" where
  "getServerOp cl c s =
     (case client_Get cl c apiserverClusterName (fvWorld s) of
        (Inl er, w) \<Rightarrow> (Some er, s\<lparr>fvWorld := w\<rparr>)
      | (Inr a, w) \<Rightarrow> (None, s\<lparr>apiServer := a, fvWorld := w\<rparr>))"

definition fetchTLSConfigFromCluster ::
  "tlsLib \<Rightarrow> ('w, 'c) fetchVars poll \<Rightarrow> ('w, 'c) apiServerClient \<Rightarrow> 'w \<Rightarrow> tlsConfig option outcome \<times> 'w" where
  "fetchTLSConfigFromCluster lib Poll cl w =
     (let s = \<lparr>lastErr = None, kubeClient = None, apiServer = \<lparr>asTLSSecurityProfile = None\<rparr>, fvWorld = w\<rparr>
      in case retryAPIServerOp Poll (newClientOp cl) s of
        (Some er, s) \<Rightarrow> (Return None, fvWorld s)
      | (None, s) \<Rightarrow>
         (case kubeClient s of
            None \<Rightarrow> (Panic NilDereference, fvWorld s)
          | Some c \<Rightarrow>
             (case retryAPIServerOp Poll (getServerOp cl c) s of
                (Some er, s) \<Rightarrow> (Return None, fvWorld s)
              | (None, s) \<Rightarrow>
                 (case getEffectiveProfileSpec lib (asTLSSecurityProfile (apiServer s)) of
                    None \<Rightarrow> (Panic NilDereference, fvWorld s)
                  | Some spec \<Rightarrow>
                      (map_outcome_bind (profileSpecToTLSConfig lib (Some spec)) (\<lambda>c. Return (Some c)), fvWorld s)))))"

section \<open>The cache\<close>

text \<open>The package variables; \<open>sync.Once\<close> counts as done also when its function panicked.\<close>

record tlsVars =
  cachedTLSConfig :: "tlsConfig option"
  initOnce :: bool

definition initial_tls :: tlsVars where
  "initial_tls = \<lparr>cachedTLSConfig = None, initOnce = False\<rparr>"

definition setCached :: "tlsConfig option outcome \<Rightarrow> tlsVars \<Rightarrow> unit outcome \<times> tlsVars" where
  "setCached r v = (case r of Panic p \<Rightarrow> (Panic p, v) | Return c \<Rightarrow> (Return (), v\<lparr>cachedTLSConfig := c\<rparr>))"

definition InitClusterTLSConfig ::
  "tlsLib \<Rightarrow> ('w, 'c) fetchVars poll \<Rightarrow> ('w, 'c) apiServerClient \<Rightarrow> bool \<Rightarrow> bool \<Rightarrow> tlsVars \<Rightarrow> 'w \<Rightarrow> unit outcome \<times> tlsVars \<times> 'w" where
  "InitClusterTLSConfig lib Poll cl cfg_nonnil scheme_nonnil v w =
     (if initOnce v then (Return (), v, w)
      else (case (if cfg_nonnil \<and> scheme_nonnil
                  then (case fetchTLSConfigFromCluster lib Poll cl w of (r, w) \<Rightarrow> (setCached r (v\<lparr>initOnce := True\<rparr>), w))
                  else ((Return (), v\<lparr>initOnce := True\<rparr>), w)) of
          ((Panic p, v), w) \<Rightarrow> (Panic p, v, w)
        | ((Return _, v), w) \<Rightarrow>
            if cachedTLSConfig v = None
            then (case setCached (map_outcome_bind (profileSpecToTLSConfig lib (TLSProfiles lib TLSProfileIntermediateType))
                     (\<lambda>c. Return (Some c))) v of (r, v) \<Rightarrow> (r, v, w))
            else (Return (), v, w)))"

definition GetClusterTLSConfig :: "tlsLib \<Rightarrow> tlsVars \<Rightarrow> tlsConfig outcome" where
  "GetClusterTLSConfig lib v =
     (case cachedTLSConfig v of
        Some c \<Rightarrow> Return c
      | None \<Rightarrow> profileSpecToTLSConfig lib (TLSProfiles lib TLSProfileIntermediateType))"

section \<open>What the poller promises\<close>

text \<open>
  \<open>polled cond env n s r s'\<close>: the condition was tried \<open>n\<close> times, from \<open>s\<close> on; it ended
  with success, with an error of the condition, or because the time was over. Between two tries
  the rest of the world takes a step of \<open>env\<close>.
\<close>

inductive polled for cond :: "'s condition" and env :: "'s \<Rightarrow> 's \<Rightarrow> bool" where
  polled_done: "cond s = ((True, None), s') \<Longrightarrow> polled cond env 1 s None s'"
| polled_fail: "cond s = ((d, Some er), s') \<Longrightarrow> polled cond env 1 s (Some (ConditionErr er)) s'"
| polled_timeout: "cond s = ((False, None), s') \<Longrightarrow> polled cond env 1 s (Some ContextDone) s'"
| polled_again: "cond s = ((False, None), s1) \<Longrightarrow> env s1 s2 \<Longrightarrow> polled cond env n s2 r s' \<Longrightarrow>
    polled cond env (Suc n) s r s'"

text \<open>An immediate first try and one per interval, until the timeout.\<close>

locale poller =
  fixes Poll :: "'s poll" and env :: "'s \<Rightarrow> 's \<Rightarrow> bool"
  assumes poll_runs: "0 < iv \<Longrightarrow> Poll iv lim True cond s = (r, s') \<Longrightarrow>
    \<exists>n \<le> nat (lim div iv) + 1. polled cond env n s r s'"

section \<open>Retrying\<close>

text \<open>A sequence of tries of an operation and their errors.\<close>

inductive tried for op :: "('w, 'c) fetchVars \<Rightarrow> api_err option \<times> ('w, 'c) fetchVars"
    and env :: "('w, 'c) fetchVars \<Rightarrow> ('w, 'c) fetchVars \<Rightarrow> bool" where
  tried_one: "op s = (er, s1) \<Longrightarrow> tried op env [er] s (s1\<lparr>lastErr := er\<rparr>)"
| tried_more: "op s = (er, s1) \<Longrightarrow> env (s1\<lparr>lastErr := er\<rparr>) s2 \<Longrightarrow> tried op env tr s2 s' \<Longrightarrow>
    tried op env (er # tr) s s'"

definition transient :: "api_err option \<Rightarrow> bool" where
  "transient er \<longleftrightarrow> pred_option (\<lambda>e. \<not> isPermanentAPIServerError e) er \<and> er \<noteq> None"

lemma tried_last:
  "tried op env tr s s' \<Longrightarrow> tr \<noteq> [] \<and> (\<exists>s0 s1. op s0 = (last tr, s1) \<and> s' = s1\<lparr>lastErr := last tr\<rparr>)"
  by (induction rule: tried.induct) auto

lemma retryCondition_cases:
  "retryCondition op s = ((d, er), s') \<longleftrightarrow>
   (\<exists>o1 s1. op s = (o1, s1) \<and> s' = s1\<lparr>lastErr := o1\<rparr> \<and> d = (o1 = None) \<and>
      er = (if transient o1 then None else o1))"
  by (cases "op s") (auto simp: retryCondition_def Let_def transient_def split: option.splits if_splits)

lemma polled_tried:
  assumes "polled (retryCondition op) env n s r s'"
  shows "\<exists>tr. tried op env tr s s' \<and> length tr = n \<and> (\<forall>x\<in>set (butlast tr). transient x) \<and>
    lastErr s' = last tr \<and> (r = None \<longleftrightarrow> last tr = None)"
  using assms
proof (induction rule: polled.induct)
  case (polled_again s s1 s2 n r s')
  then obtain o1 s0 tr where "op s = (o1, s0)" "s1 = s0\<lparr>lastErr := o1\<rparr>" "transient o1"
    and tr: "tried op env tr s2 s'" "length tr = n" "\<forall>x\<in>set (butlast tr). transient x"
      "lastErr s' = last tr" "r = None \<longleftrightarrow> last tr = None"
    by (auto simp: retryCondition_cases split: if_splits)
  then have "tried op env (o1 # tr) s s'" using polled_again(2) tried_more by blast
  then show ?case using tr tried_last [OF tr(1)] \<open>transient o1\<close> by (intro exI [of _ "o1 # tr"]) auto
qed (fastforce simp: retryCondition_cases transient_def split: if_splits intro: tried_one)+

context poller
begin

lemma poll_limit:
  "Poll apiserverGetRetryInterval apiserverGetRetryTimeout True cond s = (r, s') \<Longrightarrow>
   \<exists>n \<le> 13. polled cond env n s r s'"
  by (drule poll_runs [rotated]) (simp_all add: apiserverGetRetryInterval_def apiserverGetRetryTimeout_def)

end

lemma retry_trace:
  assumes "poller Poll env" and "retryAPIServerOp Poll op s = (r, s')"
  shows "\<exists>tr. tried op env tr (s\<lparr>lastErr := None\<rparr>) s' \<and> length tr \<le> 13 \<and>
    (\<forall>x\<in>set (butlast tr). transient x) \<and> r = last tr"
proof -
  obtain pe where p: "Poll apiserverGetRetryInterval apiserverGetRetryTimeout True (retryCondition op)
      (s\<lparr>lastErr := None\<rparr>) = (pe, s')" and r: "r = (if pe \<noteq> None then lastErr s' else None)"
    using assms(2) by (auto simp: retryAPIServerOp_def split: prod.splits)
  obtain n where "n \<le> 13" and n: "polled (retryCondition op) env n (s\<lparr>lastErr := None\<rparr>) pe s'"
    using poller.poll_limit [OF assms(1) p] by blast
  then show ?thesis using polled_tried [OF n] r by (auto split: if_splits)
qed

lemma retry_ok:
  assumes "poller Poll env" and "retryAPIServerOp Poll op s = (None, s')"
  shows "\<exists>s0 s1. op s0 = (None, s1) \<and> s' = s1\<lparr>lastErr := None\<rparr>"
  using retry_trace [OF assms] tried_last by metis

section \<open>Groups\<close>

text \<open>The recognised groups in the profile's order, and the others.\<close>

lemma curvesLoop_result:
  "curvesLoop gs cs us =
     (cs @ List.map_filter curveIDByTLSGroup gs, us @ filter (\<lambda>g. curveIDByTLSGroup g = None) gs)"
  by (induction gs cs us rule: curvesLoop.induct) (simp_all add: map_filter_simps split: option.splits)

lemma tlsGroupsToCurveIDs_result:
  "tlsGroupsToCurveIDs gs = (List.map_filter curveIDByTLSGroup gs, filter (\<lambda>g. curveIDByTLSGroup g = None) gs)"
  by (simp add: tlsGroupsToCurveIDs_def curvesLoop_result)

text \<open>The configuration a profile stands for.\<close>

definition profile_config :: "tlsLib \<Rightarrow> TLSProfileSpec \<Rightarrow> tlsConfig \<Rightarrow> bool" where
  "profile_config lib spec c \<longleftrightarrow> (\<exists>ver ids.
     TLSVersionOrDie lib (psMinTLSVersion spec) = Return ver \<and>
     CipherSuitesOrDie lib (OpenSSLToIANACipherSuites lib (psCiphers spec)) = Return ids \<and>
     c = SecureTLSConfig lib \<lparr>MinVersion = ver, CipherSuites = ids,
       CurvePreferences = (let cs = List.map_filter curveIDByTLSGroup (psGroups spec)
         in if cs = [] then None else Some cs)\<rparr>)"

lemma map_outcome_bind_Return:
  "map_outcome_bind x f = Return y \<longleftrightarrow> (\<exists>z. x = Return z \<and> f z = Return y)"
  by (cases x) auto

lemma profileSpecToTLSConfig_result:
  "profileSpecToTLSConfig lib (Some spec) = Return c \<longleftrightarrow> profile_config lib spec c"
  by (auto simp: profileSpecToTLSConfig_def profile_config_def map_outcome_bind_Return
      tlsGroupsToCurveIDs_result Let_def split: if_splits)

section \<open>The cached configuration\<close>

text \<open>
  The profile in force, from the documentation of the resource: without one, or with one that the
  table does not have, the Intermediate profile; the settings of a custom profile, if it has any;
  otherwise the profile of that name.
\<close>

inductive wanted_spec :: "tlsLib \<Rightarrow> TLSSecurityProfile option \<Rightarrow> TLSProfileSpec \<Rightarrow> bool" for lib where
  wanted_default: "TLSProfiles lib TLSProfileIntermediateType = Some spec \<Longrightarrow> wanted_spec lib None spec"
| wanted_custom: "wanted_spec lib (Some \<lparr>tpType = TLSProfileCustomType, tpCustom = Some spec\<rparr>) spec"
| wanted_named: "t \<noteq> TLSProfileCustomType \<or> custom = None \<Longrightarrow> TLSProfiles lib t = Some spec \<Longrightarrow>
    wanted_spec lib (Some \<lparr>tpType = t, tpCustom = custom\<rparr>) spec"
| wanted_unknown: "t \<noteq> TLSProfileCustomType \<or> custom = None \<Longrightarrow> TLSProfiles lib t = None \<Longrightarrow>
    TLSProfiles lib TLSProfileIntermediateType = Some spec \<Longrightarrow>
    wanted_spec lib (Some \<lparr>tpType = t, tpCustom = custom\<rparr>) spec"

lemma effective_wanted:
  assumes "getEffectiveProfileSpec lib p = Some spec"
  shows "wanted_spec lib p spec"
proof (cases p)
  case None
  then show ?thesis using assms by (simp add: getEffectiveProfileSpec_def wanted_default)
next
  case (Some q)
  obtain t custom where q: "q = \<lparr>tpType = t, tpCustom = custom\<rparr>" by (cases q) simp
  show ?thesis
  proof (cases "t = TLSProfileCustomType \<and> custom \<noteq> None")
    case True
    then show ?thesis using assms Some q by (auto simp: getEffectiveProfileSpec_def wanted_custom)
  next
    case False
    then have "t \<noteq> TLSProfileCustomType \<or> custom = None" by simp
    then show ?thesis
      using assms Some q wanted_named wanted_unknown by (auto simp: getEffectiveProfileSpec_def split: option.splits)
  qed
qed

text \<open>
  An operation as it was retried: between one and 13 tries, all but the last with an error worth
  retrying; the outcome is that of the last.
\<close>

definition retried ::
  "(('w, 'c) fetchVars \<Rightarrow> api_err option \<times> ('w, 'c) fetchVars) \<Rightarrow> (('w, 'c) fetchVars \<Rightarrow> ('w, 'c) fetchVars \<Rightarrow> bool) \<Rightarrow>
   ('w, 'c) fetchVars \<Rightarrow> api_err option \<Rightarrow> ('w, 'c) fetchVars \<Rightarrow> bool" where
  "retried op env s er s' \<longleftrightarrow> (\<exists>tr. tried op env tr (s\<lparr>lastErr := None\<rparr>) s' \<and> length tr \<le> 13 \<and>
     (\<forall>x\<in>set (butlast tr). transient x) \<and> er = last tr)"

definition fresh_vars :: "'w \<Rightarrow> ('w, 'c) fetchVars" where
  "fresh_vars w = \<lparr>lastErr = None, kubeClient = None, apiServer = \<lparr>asTLSSecurityProfile = None\<rparr>, fvWorld = w\<rparr>"

text \<open>
  What the cluster says when it is asked from the world \<open>w\<close> on: nothing, when the client cannot be
  made or the resource cannot be read; otherwise the resource that the last \<open>Get\<close> gave.
\<close>

inductive cluster_says ::
  "('w, 'c) apiServerClient \<Rightarrow> (('w, 'c) fetchVars \<Rightarrow> ('w, 'c) fetchVars \<Rightarrow> bool) \<Rightarrow> 'w \<Rightarrow> APIServer option \<Rightarrow> 'w \<Rightarrow> bool"
  for cl env w where
  says_no_client: "retried (newClientOp cl) env (fresh_vars w) (Some er) s \<Longrightarrow> cluster_says cl env w None (fvWorld s)"
| says_no_resource: "retried (newClientOp cl) env (fresh_vars w) None s \<Longrightarrow> kubeClient s = Some c \<Longrightarrow>
    retried (getServerOp cl c) env s (Some er) s2 \<Longrightarrow> cluster_says cl env w None (fvWorld s2)"
| says_resource: "retried (newClientOp cl) env (fresh_vars w) None s \<Longrightarrow> kubeClient s = Some c \<Longrightarrow>
    retried (getServerOp cl c) env s None s2 \<Longrightarrow> client_Get cl c apiserverClusterName u = (Inr a, fvWorld s2) \<Longrightarrow>
    cluster_says cl env w (Some a) (fvWorld s2)"

lemma effective_exists:
  "TLSProfiles lib TLSProfileIntermediateType \<noteq> None \<Longrightarrow> \<exists>spec. getEffectiveProfileSpec lib p = Some spec"
  by (auto simp: getEffectiveProfileSpec_def split: option.splits)

lemma newClientOp_ok: "newClientOp cl s = (None, s') \<Longrightarrow> \<exists>c. kubeClient s' = Some c"
  by (auto simp: newClientOp_def split: prod.splits sum.splits)

lemma getServerOp_ok:
  "getServerOp cl c s = (None, s') \<Longrightarrow> client_Get cl c apiserverClusterName (fvWorld s) = (Inr (apiServer s'), fvWorld s')"
  by (auto simp: getServerOp_def split: prod.splits sum.splits)

lemma retry_retried:
  assumes "poller Poll env" and "retryAPIServerOp Poll op s = (r, s')"
  shows "retried op env s r s'"
  using retry_trace [OF assms] by (simp add: retried_def)

lemma fetch_result:
  assumes P: "poller Poll env" and i: "TLSProfiles lib TLSProfileIntermediateType \<noteq> None"
    and f: "fetchTLSConfigFromCluster lib Poll cl w = (r, w')"
  shows "r = Return None \<and> cluster_says cl env w None w' \<or>
    (\<exists>a spec. cluster_says cl env w (Some a) w' \<and> wanted_spec lib (asTLSSecurityProfile a) spec \<and>
      r = map_outcome_bind (profileSpecToTLSConfig lib (Some spec)) (\<lambda>c. Return (Some c)))"
proof -
  obtain e1 s1 where n: "retryAPIServerOp Poll (newClientOp cl) (fresh_vars w) = (e1, s1)" by fastforce
  note n' = retry_retried [OF P n]
  show ?thesis
  proof (cases e1)
    case (Some er)
    then show ?thesis
      using f n says_no_client [of cl env w er s1] n' by (simp add: fetchTLSConfigFromCluster_def Let_def fresh_vars_def)
  next
    case None
    then obtain c where c: "kubeClient s1 = Some c"
      using retry_ok [OF P, of "newClientOp cl" "fresh_vars w" s1] n by (auto dest: newClientOp_ok)
    obtain e2 s2 where g: "retryAPIServerOp Poll (getServerOp cl c) s1 = (e2, s2)" by fastforce
    note g' = retry_retried [OF P g]
    have n1: "retried (newClientOp cl) env (fresh_vars w) None s1" using n' None by simp
    show ?thesis
    proof (cases e2)
      case (Some er)
      then show ?thesis
        using f n None c g says_no_resource [OF n1 c, of er s2] g'
        by (simp add: fetchTLSConfigFromCluster_def Let_def fresh_vars_def)
    next
      case e2: None
      obtain u where a: "client_Get cl c apiserverClusterName u = (Inr (apiServer s2), fvWorld s2)"
        using retry_ok [OF P, of "getServerOp cl c" s1 s2] g e2 by (auto dest: getServerOp_ok)
      have says: "cluster_says cl env w (Some (apiServer s2)) (fvWorld s2)"
        using says_resource [OF n1 c _ a] g' e2 by simp
      obtain spec where sp: "getEffectiveProfileSpec lib (asTLSSecurityProfile (apiServer s2)) = Some spec"
        using effective_exists [OF i] by blast
      have "w' = fvWorld s2" "r = map_outcome_bind (profileSpecToTLSConfig lib (Some spec)) (\<lambda>c. Return (Some c))"
        using f n None c g e2 sp by (simp_all add: fetchTLSConfigFromCluster_def Let_def fresh_vars_def)
      then show ?thesis using says effective_wanted [OF sp] by blast
    qed
  qed
qed

section \<open>A poller with a script\<close>

text \<open>Tries at once and then once per interval; the world is the list of the server's answers.\<close>

fun pollTimes :: "nat \<Rightarrow> 's condition \<Rightarrow> 's \<Rightarrow> poll_err option \<times> 's" where
  "pollTimes 0 cond s = (Some ContextDone, s)"
| "pollTimes (Suc n) cond s =
     (case cond s of
        ((_, Some er), s) \<Rightarrow> (Some (ConditionErr er), s)
      | ((True, None), s) \<Rightarrow> (None, s)
      | ((False, None), s) \<Rightarrow> if n = 0 then (Some ContextDone, s) else pollTimes n cond s)"

definition memPoll :: "'s poll" where
  "memPoll iv lim imm = pollTimes (nat (lim div iv) + 1)"

lemma pollTimes_polled:
  "0 < n \<Longrightarrow> pollTimes n cond s = (r, s') \<Longrightarrow> \<exists>m \<le> n. polled cond (=) m s r s'"
proof (induction n arbitrary: s)
  case 0
  then show ?case by simp
next
  case (Suc n)
  obtain d er s1 where c: "cond s = ((d, er), s1)" by (metis surj_pair)
  show ?case
  proof (cases "er = None \<and> \<not> d \<and> n \<noteq> 0")
    case True
    then obtain m where "m \<le> n" "polled cond (=) m s1 r s'" using Suc c by auto
    then show ?thesis using c True polled_again [of cond s s1 "(=)" s1 m r s'] by auto
  next
    case False
    then have "polled cond (=) 1 s r s'"
      using Suc(3) c by (cases er; cases d) (auto intro: polled_done polled_fail polled_timeout simp del: One_nat_def)
    then show ?thesis by (intro exI [of _ 1]) simp
  qed
qed

interpretation script: poller memPoll "(=)"
proof
  fix iv lim :: int and cond :: "'a condition" and s r s'
  assume "memPoll iv lim True cond s = (r, s')"
  then show "\<exists>n \<le> nat (lim div iv) + 1. polled cond (=) n s r s'"
    using pollTimes_polled [of "nat (lim div iv) + 1" cond s r s'] by (simp add: memPoll_def)
qed

type_synonym answers = "(api_err + APIServer) list"

definition scripted :: "(answers, unit) apiServerClient" where
  "scripted = \<lparr>client_New = (\<lambda>w. (Inr (), w)),
     client_Get = (\<lambda>_ _ w. case w of [] \<Rightarrow> (Inl (OtherErr ''connection refused''), []) | x # xs \<Rightarrow> (x, xs))\<rparr>"

definition exLib :: tlsLib where
  "exLib = \<lparr>TLSProfiles = (\<lambda>t. if t = TLSProfileIntermediateType
       then Some \<lparr>psCiphers = [], psMinTLSVersion = ''VersionTLS12'', psGroups = []\<rparr> else None),
     TLSVersionOrDie = (\<lambda>s. if s = ''VersionTLS12'' then Return 771 else if s = ''VersionTLS13'' then Return 772
       else Panic (PanicValue s)),
     OpenSSLToIANACipherSuites = id, CipherSuitesOrDie = (\<lambda>_. Return []), SecureTLSConfig = id\<rparr>"

definition exCustom :: APIServer where
  "exCustom = \<lparr>asTLSSecurityProfile = Some \<lparr>tpType = TLSProfileCustomType, tpCustom = Some
     \<lparr>psCiphers = [], psMinTLSVersion = ''VersionTLS13'',
      psGroups = [TLSGroupSecP384r1, OtherGroup ''ffdhe2048'', TLSGroupX25519]\<rparr>\<rparr>\<rparr>"

text \<open>
  C36. Retrying is bounded and honest. The operation is tried at least once and at most 13 times;
  every try but the last failed with an error worth retrying, so that a success or a permanent
  error is never followed by another try; and what is returned is the outcome of the last try.
\<close>

theorem retry_bounded:
  assumes "poller Poll env"
  shows "\<exists>tr. tried op env tr (s\<lparr>lastErr := None\<rparr>) (snd (retryAPIServerOp Poll op s)) \<and>
    1 \<le> length tr \<and> length tr \<le> 13 \<and> (\<forall>x\<in>set (butlast tr). transient x) \<and>
    fst (retryAPIServerOp Poll op s) = last tr"
proof -
  obtain r s' where "retryAPIServerOp Poll op s = (r, s')" by fastforce
  with retry_trace [OF assms this] show ?thesis
    by (auto dest: tried_last simp: Suc_le_eq)
qed

theorem retry_bounded_witness:
  "\<exists>tr s'. tried (getServerOp scripted ()) (=) tr
      \<lparr>lastErr = None, kubeClient = Some (), apiServer = exCustom, fvWorld = [Inl Conflict, Inl NotFound, Inr exCustom]\<rparr> s' \<and>
    length tr \<le> 13 \<and> (\<forall>x\<in>set (butlast tr). transient x) \<and> last tr = Some NotFound"
proof -
  let ?s = "\<lparr>lastErr = None, kubeClient = Some (), apiServer = exCustom, fvWorld = [Inl Conflict, Inl NotFound, Inr exCustom]\<rparr>"
  have "fst (retryAPIServerOp memPoll (getServerOp scripted ()) ?s) = Some NotFound" by code_simp
  then show ?thesis
    using retry_bounded [OF script.poller_axioms, of "getServerOp scripted ()" ?s] by auto
qed

text \<open>
  C37. Initialising the settings asks the cluster, when there is a configuration and a scheme to ask it
  with, and caches a configuration once and for all. If the resource was read, it is the configuration
  of the profile in force there, custom profiles included, with its supported groups in the profile's
  order; if the client could not be made or the resource not be read, and only then, or if nothing
  was asked, it is that of the Intermediate profile. Later calls change nothing and every reader gets
  that configuration. The only way to panic is the conversion of that same profile.
\<close>

theorem cluster_tls_config:
  assumes "poller Poll env" and "TLSProfiles lib TLSProfileIntermediateType = Some mid"
  shows "case InitClusterTLSConfig lib Poll cl cfg_nonnil scheme_nonnil initial_tls w of (r, v, w') \<Rightarrow>
    \<exists>spec.
      (if cfg_nonnil \<and> scheme_nonnil
       then cluster_says cl env w None w' \<and> spec = mid \<or>
         (\<exists>a. cluster_says cl env w (Some a) w' \<and> wanted_spec lib (asTLSSecurityProfile a) spec)
       else spec = mid \<and> w' = w) \<and>
      (case r of
         Return _ \<Rightarrow> (\<exists>c. cachedTLSConfig v = Some c \<and> profile_config lib spec c \<and>
           GetClusterTLSConfig lib v = Return c \<and>
           (\<forall>w2. InitClusterTLSConfig lib Poll cl cfg_nonnil scheme_nonnil v w2 = (Return (), v, w2)))
       | Panic p \<Rightarrow> profileSpecToTLSConfig lib (Some spec) = Panic p)"
proof -
  obtain r1 w1 where f: "fetchTLSConfigFromCluster lib Poll cl w = (r1, w1)" by fastforce
  have i: "TLSProfiles lib TLSProfileIntermediateType \<noteq> None" using assms(2) by simp
  note defs = InitClusterTLSConfig_def initial_tls_def setCached_def GetClusterTLSConfig_def
  show ?thesis
  proof (cases "cfg_nonnil \<and> scheme_nonnil \<and> r1 \<noteq> Return None")
    case True
    then obtain a spec where a: "cluster_says cl env w (Some a) w1" "wanted_spec lib (asTLSSecurityProfile a) spec"
      and r: "r1 = map_outcome_bind (profileSpecToTLSConfig lib (Some spec)) (\<lambda>c. Return (Some c))"
      using fetch_result [OF assms(1) i f] by blast
    show ?thesis
    proof (cases "profileSpecToTLSConfig lib (Some spec)")
      case (Return c)
      then have "InitClusterTLSConfig lib Poll cl cfg_nonnil scheme_nonnil initial_tls w =
          (Return (), \<lparr>cachedTLSConfig = Some c, initOnce = True\<rparr>, w1)"
        using True r by (simp add: defs f)
      then show ?thesis using True a iffD1 [OF profileSpecToTLSConfig_result Return] by (auto simp: defs)
    next
      case (Panic p)
      then have "InitClusterTLSConfig lib Poll cl cfg_nonnil scheme_nonnil initial_tls w =
          (Panic p, \<lparr>cachedTLSConfig = None, initOnce = True\<rparr>, w1)"
        using True r by (simp add: defs f)
      then show ?thesis using True a Panic by auto
    qed
  next
    case False
    then have init: "InitClusterTLSConfig lib Poll cl cfg_nonnil scheme_nonnil initial_tls w =
       (case profileSpecToTLSConfig lib (Some mid) of
          Return c \<Rightarrow> (Return (), \<lparr>cachedTLSConfig = Some c, initOnce = True\<rparr>, if cfg_nonnil \<and> scheme_nonnil then w1 else w)
        | Panic p \<Rightarrow> (Panic p, \<lparr>cachedTLSConfig = None, initOnce = True\<rparr>, if cfg_nonnil \<and> scheme_nonnil then w1 else w))"
      using assms(2) f by (auto simp: defs split: outcome.splits)
    have asked: "cluster_says cl env w None w1" if "cfg_nonnil \<and> scheme_nonnil"
    proof -
      have "r1 = Return None" using False that by simp
      then show ?thesis
        using fetch_result [OF assms(1) i f] by (auto simp: map_outcome_bind_Return eq_commute [of "Return None"])
    qed
    show ?thesis
    proof (cases "profileSpecToTLSConfig lib (Some mid)")
      case (Return c)
      then show ?thesis using init asked iffD1 [OF profileSpecToTLSConfig_result Return] by (auto simp: defs)
    next
      case (Panic p)
      then show ?thesis using init asked by auto
    qed
  qed
qed

text \<open>On the second try the resource is read, and its custom profile is in force.\<close>

theorem cluster_tls_config_witness:
  "\<exists>a spec. cluster_says scripted (=) [Inl (OtherErr ''timeout''), Inr exCustom] (Some a) [] \<and>
     wanted_spec exLib (asTLSSecurityProfile a) spec \<and>
     profile_config exLib spec \<lparr>MinVersion = 772, CipherSuites = [], CurvePreferences = Some [24, 29]\<rparr>"
proof -
  let ?w = "[Inl (OtherErr ''timeout''), Inr exCustom]"
  let ?mid = "\<lparr>psCiphers = [], psMinTLSVersion = ''VersionTLS12'', psGroups = []\<rparr>"
  let ?c = "\<lparr>MinVersion = 772, CipherSuites = [], CurvePreferences = Some [24, 29]\<rparr>"
  have i: "TLSProfiles exLib TLSProfileIntermediateType = Some ?mid" by (simp add: exLib_def)
  have run: "InitClusterTLSConfig exLib memPoll scripted True True initial_tls ?w =
      (Return (), \<lparr>cachedTLSConfig = Some ?c, initOnce = True\<rparr>, [])" by code_simp
  have mid: "\<not> profile_config exLib ?mid ?c" by (simp add: profile_config_def exLib_def)
  show ?thesis
    using cluster_tls_config [OF script.poller_axioms i, where cl = scripted and w = ?w and cfg_nonnil = True and scheme_nonnil = True]
      mid by (auto simp: run)
qed

end
