(* ===== verification/Zap_Flags.thy ===== *)
theory Zap_Flags
  imports Go_Lib
begin

text \<open>
  \<open>pkg/log/zap\<close>: the command-line values of flags.go and the logger configuration of logger.go.
  What the code takes from zap (encoder configurations and encoders, time encoders, the name of a
  level) and from klog (its verbosity flag) is the record \<open>ZapLib\<close>. A flag value is a record;
  its \<open>Set\<close> returns the error and the new value. The contract of a flag value is the locale
  \<open>flag_value\<close>.
\<close>

section \<open>strconv\<close>

definition is_digit :: "char \<Rightarrow> bool" where
  "is_digit c \<longleftrightarrow> 48 \<le> (of_char c :: nat) \<and> (of_char c :: nat) \<le> 57"

definition digits_value :: "string \<Rightarrow> int" where
  "digits_value s = foldl (\<lambda>n c. 10 * n + (of_char c - 48)) 0 s"

text \<open>\<open>strconv.Atoi\<close>: a sign and at least one digit, within the range of \<open>int\<close>.\<close>

definition strconv_Atoi :: "string \<Rightarrow> go_int option" where
  "strconv_Atoi s =
     (let neg = (s \<noteq> [] \<and> hd s = CHR ''-'');
          ds = (if s \<noteq> [] \<and> (hd s = CHR ''-'' \<or> hd s = CHR ''+'') then tl s else s);
          n = (if neg then - digits_value ds else digits_value ds)
      in if ds \<noteq> [] \<and> list_all is_digit ds \<and> - (2 ^ 63) \<le> n \<and> n < 2 ^ 63 then Some (word_of_int n) else None)"

fun itoa_nat :: "nat \<Rightarrow> string" where
  "itoa_nat n = (if n < 10 then [char_of (48 + n)] else itoa_nat (n div 10) @ [char_of (48 + n mod 10)])"

declare itoa_nat.simps [simp del]

definition strconv_Itoa :: "go_int \<Rightarrow> string" where
  "strconv_Itoa x = (if sint x < 0 then CHR ''-'' # itoa_nat (nat (- sint x)) else itoa_nat (nat (sint x)))"

text \<open>\<open>strconv.ParseBool\<close>; the value is false when there is an error.\<close>

definition strconv_ParseBool :: "string \<Rightarrow> bool \<times> go_error option" where
  "strconv_ParseBool s =
     (if s \<in> {''1'', ''t'', ''T'', ''TRUE'', ''true'', ''True''} then (True, None)
      else if s \<in> {''0'', ''f'', ''F'', ''FALSE'', ''false'', ''False''} then (False, None)
      else (False, Some (NewErr ''invalid syntax'')))"

definition strconv_FormatBool :: "bool \<Rightarrow> string" where
  "strconv_FormatBool b = (if b then ''true'' else ''false'')"

definition quoted :: "string \<Rightarrow> string" where
  "quoted s = [CHR 0x22] @ s @ [CHR 0x22]"

section \<open>Flag values\<close>

record ('cfg, 'enc, 'te, 'k) ZapLib =
  NewProductionEncoderConfig :: 'cfg
  NewDevelopmentEncoderConfig :: 'cfg
  NewJSONEncoder :: "'cfg \<Rightarrow> 'enc"
  NewConsoleEncoder :: "'cfg \<Rightarrow> 'enc"
  SetEncodeTime :: "'te \<Rightarrow> 'cfg \<Rightarrow> 'cfg"
  UnmarshalText :: "string \<Rightarrow> 'te \<Rightarrow> go_error option \<times> 'te"
  KubeAwareEncoder :: "'enc \<Rightarrow> bool \<Rightarrow> 'enc"
  LevelString :: "int8 \<Rightarrow> string"
  KlogSetV :: "string \<Rightarrow> 'k \<Rightarrow> go_error option \<times> 'k"

text \<open>The two constructors of encoders, as values.\<close>

datatype encoder_ctor = CtorJSON | CtorConsole

definition newJSONEncoder :: "('cfg, 'enc, 'te, 'k) ZapLib \<Rightarrow> ('cfg \<Rightarrow> 'cfg) list \<Rightarrow> 'enc" where
  "newJSONEncoder z ecfs = NewJSONEncoder z (fold (\<lambda>f c. f c) ecfs (NewProductionEncoderConfig z))"

definition newConsoleEncoder :: "('cfg, 'enc, 'te, 'k) ZapLib \<Rightarrow> ('cfg \<Rightarrow> 'cfg) list \<Rightarrow> 'enc" where
  "newConsoleEncoder z ecfs = NewConsoleEncoder z (fold (\<lambda>f c. f c) ecfs (NewDevelopmentEncoderConfig z))"

record encoderValue =
  evSet :: bool
  evNewEncoder :: "encoder_ctor option"
  evStr :: string

definition encoderValue_Set :: "string \<Rightarrow> encoderValue \<Rightarrow> go_error option \<times> encoderValue" where
  "encoderValue_Set e v =
     (let v = v\<lparr>evSet := True\<rparr>
      in if e = ''json'' then (None, v\<lparr>evNewEncoder := Some CtorJSON, evStr := e\<rparr>)
         else if e = ''console'' then (None, v\<lparr>evNewEncoder := Some CtorConsole, evStr := e\<rparr>)
         else (Some (NewErr (''unknown encoder '' @ quoted e)), v))"

definition intLogLevel :: "string \<Rightarrow> go_error + go_int" where
  "intLogLevel l =
     (let lower = strings_ToLower l
      in if lower = ''debug'' then Inr (-1)
         else if lower = ''info'' then Inr 0
         else if lower = ''error'' then Inr 2
         else case strconv_Atoi lower of
             None \<Rightarrow> Inl (NewErr (''invalid log level '' @ quoted l))
           | Some i \<Rightarrow> if 0 < sint i then Inr (-1 * i) else Inl (NewErr (''invalid log level '' @ quoted l)))"

definition validateInt8 :: "go_int \<Rightarrow> int8" where
  "validateInt8 number =
     (if 127 < sint number then 127
      else if sint number < -128 then word_of_int (-128)
      else ucast number)"

record levelValue =
  lvSet :: bool
  lvLevel :: int8

text \<open>A level beyond debug raises the verbosity of klog as well.\<close>

definition levelValue_Set ::
  "('cfg, 'enc, 'te, 'k) ZapLib \<Rightarrow> string \<Rightarrow> levelValue \<times> 'k \<Rightarrow> go_error option \<times> levelValue \<times> 'k" where
  "levelValue_Set z l vk =
     (case vk of (v, k) \<Rightarrow>
       (let v = v\<lparr>lvSet := True\<rparr>
        in case intLogLevel l of
            Inl er \<Rightarrow> (Some er, v, k)
          | Inr lvl \<Rightarrow>
             (let v = v\<lparr>lvLevel := validateInt8 lvl\<rparr>
              in if sint lvl < -3
                 then (case KlogSetV z (strconv_Itoa (-1 * lvl)) k of (er, k) \<Rightarrow> (er, v, k))
                 else (None, v, k))))"

definition stackLevelValue_Set :: "string \<Rightarrow> levelValue \<Rightarrow> go_error option \<times> levelValue" where
  "stackLevelValue_Set l v =
     (let v = v\<lparr>lvSet := True\<rparr>
      in case intLogLevel l of
          Inl er \<Rightarrow> (Some er, v)
        | Inr lvl \<Rightarrow> (None, v\<lparr>lvLevel := validateInt8 lvl\<rparr>))"

definition stackLevelValue_String :: "('cfg, 'enc, 'te, 'k) ZapLib \<Rightarrow> levelValue \<Rightarrow> string" where
  "stackLevelValue_String z v = (if lvSet v then LevelString z (lvLevel v) else ''error'')"

record sampleValue =
  svSet :: bool
  svSample :: bool

definition sampleValue_Set :: "string \<Rightarrow> sampleValue \<Rightarrow> go_error option \<times> sampleValue" where
  "sampleValue_Set s v = (case strconv_ParseBool s of (b, er) \<Rightarrow> (er, v\<lparr>svSet := True, svSample := b\<rparr>))"

definition sampleValue_String :: "sampleValue \<Rightarrow> string" where
  "sampleValue_String v = strconv_FormatBool (svSample v)"

record 'te timeEncodingValue =
  tvSet :: bool
  tvTimeEncoder :: 'te
  tvStr :: string

text \<open>The switch: unknown formats become \<open>epoch\<close>.\<close>

definition knownTimeEncoding :: "string \<Rightarrow> string" where
  "knownTimeEncoding s = (if s \<in> {''iso8601'', ''ISO8601'', ''millis'', ''nanos''} then s else ''epoch'')"

definition timeEncodingValue_Set ::
  "('cfg, 'enc, 'te, 'k) ZapLib \<Rightarrow> string \<Rightarrow> 'te timeEncodingValue \<Rightarrow> go_error option \<times> 'te timeEncodingValue" where
  "timeEncodingValue_Set z s v =
     (let s = knownTimeEncoding s;
          v = v\<lparr>tvSet := True, tvStr := s\<rparr>
      in case UnmarshalText z s (tvTimeEncoder v) of (er, te) \<Rightarrow> (er, v\<lparr>tvTimeEncoder := te\<rparr>))"

definition withTimeEncoding :: "('cfg, 'enc, 'te, 'k) ZapLib \<Rightarrow> 'te \<Rightarrow> 'cfg \<Rightarrow> 'cfg" where
  "withTimeEncoding z te ec = SetEncodeTime z te ec"

text \<open>The other methods of \<open>pflag.Value\<close>: \<open>String\<close>, \<open>Type\<close> and \<open>IsBoolFlag\<close>.\<close>

definition encoderValue_String :: "encoderValue \<Rightarrow> string" where
  "encoderValue_String v = evStr v"

definition encoderValue_Type :: "encoderValue \<Rightarrow> string" where
  "encoderValue_Type v = ''encoder''"

definition levelValue_String :: "('cfg, 'enc, 'te, 'k) ZapLib \<Rightarrow> levelValue \<Rightarrow> string" where
  "levelValue_String z v = LevelString z (lvLevel v)"

definition levelValue_Type :: "levelValue \<Rightarrow> string" where
  "levelValue_Type v = ''level''"

definition stackLevelValue_Type :: "levelValue \<Rightarrow> string" where
  "stackLevelValue_Type v = ''level''"

definition sampleValue_IsBoolFlag :: "sampleValue \<Rightarrow> bool" where
  "sampleValue_IsBoolFlag v = True"

definition sampleValue_Type :: "sampleValue \<Rightarrow> string" where
  "sampleValue_Type v = ''sample''"

definition timeEncodingValue_String :: "'te timeEncodingValue \<Rightarrow> string" where
  "timeEncodingValue_String v = tvStr v"

definition timeEncodingValue_IsBoolFlag :: "'te timeEncodingValue \<Rightarrow> bool" where
  "timeEncodingValue_IsBoolFlag v = False"

definition timeEncodingValue_Type :: "'te timeEncodingValue \<Rightarrow> string" where
  "timeEncodingValue_Type v = ''timeEncoding''"

section \<open>The configuration\<close>

text \<open>The variables of the package.\<close>

record 'te ZapFlags =
  development :: bool
  encoderVal :: encoderValue
  levelVal :: levelValue
  sampleVal :: sampleValue
  timeEncodingVal :: "'te timeEncodingValue"
  stacktraceLevel :: levelValue

text \<open>
  \<open>init\<close>: the flag set is the list of the registered flags, each with the variable it sets, the
  default that \<open>BoolVar\<close> assigns (the others keep their zero values) and its help text.
\<close>

datatype zap_var = VarDevelopment bool | VarEncoder | VarLevel | VarSample | VarTimeEncoding | VarStackLevel

definition zapFlagSet :: "(string \<times> zap_var \<times> string) list" where
  "zapFlagSet =
     [(''zap-devel'', VarDevelopment False, ''Enable zap development mode'' @
        '' (changes defaults to console encoder, debug log level, disables sampling and stacktrace from '' @
        [CHR 0x27] @ ''warning'' @ [CHR 0x27] @ '' level)''),
      (''zap-encoder'', VarEncoder, ''Zap log encoding ('' @ [CHR 0x27] @ ''json'' @ [CHR 0x27] @ '' or '' @
        [CHR 0x27] @ ''console'' @ [CHR 0x27] @ '')''),
      (''zap-level'', VarLevel, ''Zap log level (one of '' @ [CHR 0x27] @ ''debug'' @ [CHR 0x27] @ '', '' @
        [CHR 0x27] @ ''info'' @ [CHR 0x27] @ '', '' @ [CHR 0x27] @ ''error'' @ [CHR 0x27] @
        '' or any integer value > 0)''),
      (''zap-sample'', VarSample,
        ''Enable zap log sampling. Sampling will be disabled for integer log levels > 1''),
      (''zap-time-encoding'', VarTimeEncoding, ''Sets the zap time format ('' @ [CHR 0x27] @ ''epoch'' @
        [CHR 0x27] @ '', '' @ [CHR 0x27] @ ''millis'' @ [CHR 0x27] @ '', '' @ [CHR 0x27] @ ''nano'' @ [CHR 0x27] @
        '', or '' @ [CHR 0x27] @ ''iso8601'' @ [CHR 0x27] @ '')''),
      (''zap-stacktrace-level'', VarStackLevel,
        ''Set the minimum log level that triggers stacktrace generation'')]"

definition FlagSet :: "(string \<times> zap_var \<times> string) list" where
  "FlagSet = zapFlagSet"

text \<open>The variables when the program starts; \<open>te\<close> is the nil time encoder.\<close>

definition zapFlags_init :: "'te \<Rightarrow> 'te ZapFlags" where
  "zapFlags_init te = \<lparr>development = False, encoderVal = \<lparr>evSet = False, evNewEncoder = None, evStr = []\<rparr>,
     levelVal = \<lparr>lvSet = False, lvLevel = 0\<rparr>, sampleVal = \<lparr>svSet = False, svSample = False\<rparr>,
     timeEncodingVal = \<lparr>tvSet = False, tvTimeEncoder = te, tvStr = []\<rparr>,
     stacktraceLevel = \<lparr>lvSet = False, lvLevel = 0\<rparr>\<rparr>"

text \<open>
  How pflag uses the registration: the flag of the given name gets the given value through the
  method \<open>Set\<close> of its variable, and parsing ends at the first error. The value that pflag makes of
  the boolean variable belongs to pflag: \<open>pb\<close> is its parser.
\<close>

definition setVar ::
  "('cfg, 'enc, 'te, 'k) ZapLib \<Rightarrow> (string \<Rightarrow> bool \<times> go_error option) \<Rightarrow> zap_var \<Rightarrow> string \<Rightarrow> 'te ZapFlags \<times> 'k \<Rightarrow> go_error option \<times> 'te ZapFlags \<times> 'k" where
  "setVar z pb x s flk =
     (case flk of (fl, k) \<Rightarrow>
       (case x of
          VarDevelopment b \<Rightarrow> (case pb s of (b, er) \<Rightarrow> (er, fl\<lparr>development := b\<rparr>, k))
        | VarEncoder \<Rightarrow> (case encoderValue_Set s (encoderVal fl) of (er, v) \<Rightarrow> (er, fl\<lparr>encoderVal := v\<rparr>, k))
        | VarLevel \<Rightarrow> (case levelValue_Set z s (levelVal fl, k) of (er, v, k) \<Rightarrow> (er, fl\<lparr>levelVal := v\<rparr>, k))
        | VarSample \<Rightarrow> (case sampleValue_Set s (sampleVal fl) of (er, v) \<Rightarrow> (er, fl\<lparr>sampleVal := v\<rparr>, k))
        | VarTimeEncoding \<Rightarrow>
            (case timeEncodingValue_Set z s (timeEncodingVal fl) of (er, v) \<Rightarrow> (er, fl\<lparr>timeEncodingVal := v\<rparr>, k))
        | VarStackLevel \<Rightarrow>
            (case stackLevelValue_Set s (stacktraceLevel fl) of (er, v) \<Rightarrow> (er, fl\<lparr>stacktraceLevel := v\<rparr>, k))))"

fun parseArgs ::
  "('cfg, 'enc, 'te, 'k) ZapLib \<Rightarrow> (string \<Rightarrow> bool \<times> go_error option) \<Rightarrow> (string \<times> string) list \<Rightarrow> 'te ZapFlags \<times> 'k \<Rightarrow> go_error option \<times> 'te ZapFlags \<times> 'k" where
  "parseArgs z pb [] flk = (None, flk)"
| "parseArgs z pb ((name, s) # args) flk =
     (case map_of FlagSet name of
        None \<Rightarrow> (Some (NewErr (''unknown flag: --'' @ name)), flk)
      | Some (x, usage) \<Rightarrow>
          (case setVar z pb x s flk of
             (Some er, flk) \<Rightarrow> (Some er, flk)
           | (None, flk) \<Rightarrow> parseArgs z pb args flk))"

datatype zap_option =
    OptDevelopment
  | OptAddStacktrace int8
  | OptAddCaller
  | OptSampler int nat nat
  | OptAddCallerSkip nat
  | OptErrorOutput

record 'enc zconfig =
  zcEncoder :: 'enc
  zcLevel :: int8
  zcOpts :: "zap_option list"
  zcStackTraceLevel :: int8
  zcSample :: bool

text \<open>zapcore's level constants.\<close>

definition DebugLevel :: int8 where "DebugLevel = -1"

definition InfoLevel :: int8 where "InfoLevel = 0"

definition WarnLevel :: int8 where "WarnLevel = 1"

definition ErrorLevel :: int8 where "ErrorLevel = 2"

text \<open>Calling a nil encoder constructor panics.\<close>

definition getConfig :: "('cfg, 'enc, 'te, 'k) ZapLib \<Rightarrow> 'te ZapFlags \<Rightarrow> 'enc zconfig outcome" where
  "getConfig z fl =
     (let newEncoder = (if development fl then Some CtorConsole else Some CtorJSON);
          level = (if development fl then DebugLevel else InfoLevel);
          opts = (if development fl then [OptDevelopment] else []);
          sample = \<not> development fl;
          stackTraceLevel = (if development fl then WarnLevel else ErrorLevel);
          stackTraceLevel = (if lvSet (stacktraceLevel fl) then lvLevel (stacktraceLevel fl) else stackTraceLevel);
          opts = opts @ [OptAddStacktrace stackTraceLevel];
          newEncoder = (if evSet (encoderVal fl) then evNewEncoder (encoderVal fl) else newEncoder);
          ecfs = (if tvSet (timeEncodingVal fl) then [withTimeEncoding z (tvTimeEncoder (timeEncodingVal fl))] else [])
      in case newEncoder of
          None \<Rightarrow> Panic NilDereference
        | Some ctor \<Rightarrow>
           (let encoder = (case ctor of CtorJSON \<Rightarrow> newJSONEncoder z ecfs | CtorConsole \<Rightarrow> newConsoleEncoder z ecfs);
                level = (if lvSet (levelVal fl) then lvLevel (levelVal fl) else level);
                sample = (if svSet (sampleVal fl) then svSample (sampleVal fl) else sample);
                sample = (if sint level < -1 then False else sample)
            in Return \<lparr>zcEncoder = encoder, zcLevel = level, zcOpts = opts @ [OptAddCaller],
                 zcStackTraceLevel = stackTraceLevel, zcSample = sample\<rparr>))"

text \<open>The logger zap is asked for: its encoder, its level and its options. One second is in nanoseconds.\<close>

record 'enc zlogger =
  zlEncoder :: 'enc
  zlLevel :: int8
  zlOpts :: "zap_option list"

definition createLogger :: "('cfg, 'enc, 'te, 'k) ZapLib \<Rightarrow> 'enc zconfig \<Rightarrow> 'enc zlogger" where
  "createLogger z conf =
     (let encoder = KubeAwareEncoder z (zcEncoder conf) (sint (zcLevel conf) < 0);
          opts = (if zcSample conf then zcOpts conf @ [OptSampler 1000000000 100 100] else zcOpts conf);
          opts = opts @ [OptAddCallerSkip 1, OptErrorOutput]
      in \<lparr>zlEncoder = encoder, zlLevel = zcLevel conf, zlOpts = opts\<rparr>)"

definition LoggerTo :: "('cfg, 'enc, 'te, 'k) ZapLib \<Rightarrow> 'te ZapFlags \<Rightarrow> 'enc zlogger outcome" where
  "LoggerTo z fl = map_outcome_bind (getConfig z fl) (\<lambda>conf. Return (createLogger z conf))"

text \<open>The destination, standard error, is not part of the logger here.\<close>

definition Logger :: "('cfg, 'enc, 'te, 'k) ZapLib \<Rightarrow> 'te ZapFlags \<Rightarrow> 'enc zlogger outcome" where
  "Logger z fl = LoggerTo z fl"

section \<open>Levels\<close>

interpretation level8: saturating validateInt8
proof
  fix x :: go_int
  have small: "sint (word_of_int (-128) :: int8) = -128" by (simp add: signed_of_int)
  show "sint (validateInt8 x) = max (- (2 ^ (LENGTH(8) - 1))) (min (2 ^ (LENGTH(8) - 1) - 1) (sint x))"
    using sint_ucast_exact [where 'b = 8 and 'a = 64, of x] small by (auto simp: validateInt8_def)
qed

lemma digit_char:
  assumes "n < 10"
  shows "is_digit (char_of (48 + n))" and "(of_char (char_of (48 + n)) :: int) = 48 + int n"
    and "char_of (48 + n) \<noteq> CHR ''-''" "char_of (48 + n) \<noteq> CHR ''+''" "ascii_lower (char_of (48 + n)) = char_of (48 + n)"
    and "char_of (48 + n) \<noteq> CHR 0xC4" "char_of (48 + n) \<noteq> CHR 0xE2"
proof -
  have b: "(of_char (char_of (48 + n)) :: nat) = 48 + n" using assms by simp
  show "is_digit (char_of (48 + n))" using assms b by (simp add: is_digit_def)
  have "(of_char (char_of (48 + n)) :: int) = int (of_char (char_of (48 + n)))" by (simp only: of_nat_of_char)
  then show "(of_char (char_of (48 + n)) :: int) = 48 + int n" using b by simp
  show "ascii_lower (char_of (48 + n)) = char_of (48 + n)" using assms b by (simp add: ascii_lower_def is_upper_def)
  have "(of_char c :: nat) \<noteq> 48 + n \<Longrightarrow> char_of (48 + n) \<noteq> c" for c using b by auto
  then show "char_of (48 + n) \<noteq> CHR ''-''" "char_of (48 + n) \<noteq> CHR ''+''" "char_of (48 + n) \<noteq> CHR 0xC4" "char_of (48 + n) \<noteq> CHR 0xE2"
    using assms by simp_all
qed

lemma digits_value_snoc: "digits_value (s @ [c]) = 10 * digits_value s + (of_char c - 48)"
  by (simp add: digits_value_def)

lemma itoa_nat_ne [simp]: "itoa_nat n \<noteq> []"
  by (subst itoa_nat.simps) simp

lemma itoa_nat_digits:
  "digits_value (itoa_nat n) = int n" "list_all is_digit (itoa_nat n)"
  "hd (itoa_nat n) \<noteq> CHR ''-''" "hd (itoa_nat n) \<noteq> CHR ''+''"
proof (induction n rule: itoa_nat.induct)
  case (1 n)
  have last: "n mod 10 < 10" by simp
  { case 1
    show ?case
    proof (cases "n < 10")
      case True
      then show ?thesis using digit_char(2) [OF True] by (subst itoa_nat.simps) (simp add: digits_value_def)
    next
      case False
      then show ?thesis using "1.IH"(1) [OF False] digit_char(2) [OF last]
        by (subst itoa_nat.simps) (simp add: digits_value_snoc zmod_int zdiv_int)
    qed
  next
    case 2
    show ?case using "1.IH"(2) digit_char(1) [OF last] digit_char(1) [of n]
      by (subst itoa_nat.simps) simp
  next
    case 3
    show ?case using "1.IH"(3) digit_char(3) [of n] by (subst itoa_nat.simps) simp
  next
    case 4
    show ?case using "1.IH"(4) digit_char(4) [of n] by (subst itoa_nat.simps) simp
  }
qed

lemma Atoi_Itoa: "strconv_Atoi (strconv_Itoa x) = Some x"
proof -
  have "- (2 ^ 63) \<le> sint x" "sint x < 2 ^ 63" using sint_range_size [of x] by (simp_all add: word_size)
  then show ?thesis
    using itoa_nat_digits by (auto simp: strconv_Atoi_def strconv_Itoa_def Let_def)
qed

lemma ToLower_digits: "list_all is_digit s \<Longrightarrow> strings_ToLower s = s"
proof (induction s)
  case (Cons c s)
  have "c \<noteq> CHR 0xC4" "c \<noteq> CHR 0xE2" using Cons.prems by (auto simp: is_digit_def)
  moreover have "ascii_lower c = c" using Cons.prems by (auto simp: is_digit_def ascii_lower_def is_upper_def)
  ultimately show ?case using Cons by simp
qed simp

lemma sint_negate: "0 < sint i \<Longrightarrow> sint (-1 * i :: go_int) = - sint i"
proof -
  assume pos: "0 < sint i"
  have "sint (- i) = signed_take_bit 63 (- sint i)" by (simp add: sint_word_minus)
  also have "\<dots> = - sint i"
    using pos sint_range_size [of i] by (intro signed_take_bit_int_eq_self) (simp_all add: word_size)
  finally show ?thesis by simp
qed

text \<open>The accepted levels are error, info, debug and everything more verbose.\<close>

lemma intLogLevel_range:
  assumes "intLogLevel l = Inr lvl"
  shows "sint lvl = 2 \<or> - (2 ^ 63) < sint lvl \<and> sint lvl \<le> 0"
proof -
  have r: "sint i < 2 ^ 63" for i :: go_int using sint_range_size [of i] by (simp add: word_size)
  from assms consider "lvl = -1" | "lvl = 0" | "lvl = 2" | i where "lvl = -1 * i" "0 < sint i"
    by (auto simp: intLogLevel_def Let_def split: if_splits option.splits)
  then show ?thesis
  proof cases
    case 4
    then show ?thesis using sint_negate [of i] r [of i] by simp
  qed simp_all
qed

lemma intLogLevel_number:
  assumes "0 < sint n"
  shows "intLogLevel (strconv_Itoa n) = Inr (-1 * n)"
proof -
  have d: "list_all is_digit (strconv_Itoa n)" using itoa_nat_digits(2) assms by (simp add: strconv_Itoa_def)
  then have "strconv_Itoa n \<noteq> ''debug''" "strconv_Itoa n \<noteq> ''info''" "strconv_Itoa n \<noteq> ''error''"
    by (auto simp: is_digit_def)
  then show ?thesis using assms Atoi_Itoa [of n] ToLower_digits [OF d] by (simp add: intLogLevel_def Let_def)
qed

lemma levelValue_Set_number:
  assumes n: "0 < sint n"
  shows "levelValue_Set z (strconv_Itoa n) (v, k) =
     (let v' = v\<lparr>lvSet := True, lvLevel := validateInt8 (-1 * n)\<rparr>
      in if 3 < sint n then (case KlogSetV z (strconv_Itoa n) k of (er, k') \<Rightarrow> (er, v', k')) else (None, v', k))"
  using intLogLevel_number [OF n] sint_negate [OF n] by (simp add: levelValue_Set_def Let_def)

lemma validateInt8_number: "0 < sint n \<Longrightarrow> sint (validateInt8 (-1 * n)) = max (-128) (- sint n)"
  using level8.conv_clamps [of "-1 * n"] sint_negate [of n] by simp

section \<open>Values print what they accept\<close>

text \<open>
  The contract of a flag value: what it prints after it was set successfully is accepted again and
  changes nothing.
\<close>

locale flag_value =
  fixes Set :: "string \<Rightarrow> 'v \<Rightarrow> go_error option \<times> 'v" and Str :: "'v \<Rightarrow> string"
  assumes roundtrip: "Set s v = (None, v') \<Longrightarrow> Set (Str v') v' = (None, v')"
begin

text \<open>A value that was set once can be printed and set any number of times.\<close>

primrec reset :: "nat \<Rightarrow> 'v \<Rightarrow> 'v" where
  "reset 0 v = v"
| "reset (Suc n) v = snd (Set (Str (reset n v)) (reset n v))"

lemma reset_stable: "Set s v = (None, v') \<Longrightarrow> reset n v' = v'"
  by (induction n) (simp_all add: roundtrip)

end

interpretation encoder_flag: flag_value encoderValue_Set evStr
  by unfold_locales (auto simp: encoderValue_Set_def Let_def split: if_splits)

lemma ParseBool_FormatBool: "strconv_ParseBool (strconv_FormatBool b) = (b, None)"
  by (cases b) (simp_all add: strconv_ParseBool_def strconv_FormatBool_def)

interpretation sample_flag: flag_value sampleValue_Set sampleValue_String
  by unfold_locales (auto simp: sampleValue_Set_def sampleValue_String_def ParseBool_FormatBool split: prod.splits)

text \<open>For the time encoding, provided that unmarshalling does not depend on the old encoder.\<close>

definition unmarshal_fresh :: "('cfg, 'enc, 'te, 'k) ZapLib \<Rightarrow> bool" where
  "unmarshal_fresh z \<longleftrightarrow> (\<forall>s te te'. UnmarshalText z s te = UnmarshalText z s te')"

lemma time_flag_value:
  assumes "unmarshal_fresh z"
  shows "flag_value (timeEncodingValue_Set z) tvStr"
proof
  fix s :: string and v v' :: "'c timeEncodingValue"
  assume set: "timeEncodingValue_Set z s v = (None, v')"
  let ?t = "knownTimeEncoding s"
  have t: "knownTimeEncoding ?t = ?t" by (simp add: knownTimeEncoding_def)
  obtain te where te: "UnmarshalText z ?t (tvTimeEncoder v) = (None, te)" "v' = v\<lparr>tvSet := True, tvStr := ?t, tvTimeEncoder := te\<rparr>"
    using set by (auto simp: timeEncodingValue_Set_def Let_def split: prod.splits)
  then have "UnmarshalText z ?t (tvTimeEncoder v') = (None, te)"
    using assms unfolding unmarshal_fresh_def by metis
  then show "timeEncodingValue_Set z (tvStr v') v' = (None, v')"
    using te(2) by (simp add: timeEncodingValue_Set_def Let_def t)
qed

text \<open>
  A level prints as zap names it: the three that have a word on the command line, and a number in
  \<open>Level(...)\<close> below debug.
\<close>

definition zap_level_names :: "('cfg, 'enc, 'te, 'k) ZapLib \<Rightarrow> bool" where
  "zap_level_names z \<longleftrightarrow> LevelString z (-1) = ''debug'' \<and> LevelString z 0 = ''info'' \<and> LevelString z 2 = ''error'' \<and>
     (\<forall>l. sint l < -1 \<longrightarrow> LevelString z l = ''Level('' @ strconv_Itoa (scast l) @ '')'')"

lemma intLogLevel_words: "intLogLevel ''debug'' = Inr (-1)" "intLogLevel ''info'' = Inr 0" "intLogLevel ''error'' = Inr 2"
  by code_simp+

lemma intLogLevel_printed: "intLogLevel (''Level('' @ s) = Inl (NewErr (''invalid log level '' @ quoted (''Level('' @ s)))"
proof -
  have "ascii_lower CHR ''L'' = CHR ''l''" by code_simp
  then obtain t where t: "strings_ToLower (''Level('' @ s) = ''level('' @ t" by (simp add: ascii_lower_def is_upper_def)
  have "strconv_Atoi (''level('' @ t) = None" by (simp add: strconv_Atoi_def is_digit_def)
  then show ?thesis unfolding intLogLevel_def Let_def t by simp
qed

text \<open>The levels that a command line can set, as they are stored.\<close>

lemma stored_level:
  assumes "intLogLevel s = Inr lvl"
  shows "validateInt8 lvl \<in> {-1, 0, 2} \<or> sint (validateInt8 lvl) < -1"
proof -
  have c: "sint (validateInt8 lvl) = max (-128) (min 127 (sint lvl))" using level8.conv_clamps [of lvl] by simp
  have eq: "validateInt8 lvl = x" if "sint (validateInt8 lvl) = sint x" for x using that by (rule signed_word_eqI)
  from intLogLevel_range [OF assms] consider "sint lvl = 2" | "sint lvl = 0" | "sint lvl = -1" | "sint lvl < -1" by linarith
  then show ?thesis
  proof cases
    case 1 then show ?thesis using c eq [of 2] by simp
  next
    case 2 then show ?thesis using c eq [of 0] by simp
  next
    case 3 then show ?thesis using c eq [of "-1"] by simp
  next
    case 4 then show ?thesis using c by simp
  qed
qed

text \<open>So a stored level is printed as a word that stands for it, or as what no level flag accepts.\<close>

lemma printed_level:
  assumes "zap_level_names z" and "intLogLevel s = Inr lvl"
  shows "(\<exists>lvl'. intLogLevel (LevelString z (validateInt8 lvl)) = Inr lvl' \<and> validateInt8 lvl' = validateInt8 lvl \<and>
      - 3 \<le> sint lvl') \<and> -1 \<le> sint (validateInt8 lvl) \<or>
    (\<exists>er. intLogLevel (LevelString z (validateInt8 lvl)) = Inl er) \<and> sint (validateInt8 lvl) < -1"
proof -
  note z = assms(1) [unfolded zap_level_names_def]
  have small: "validateInt8 (-1) = -1" "validateInt8 0 = 0" "validateInt8 2 = 2" by code_simp+
  from stored_level [OF assms(2)] consider "validateInt8 lvl = -1" | "validateInt8 lvl = 0" | "validateInt8 lvl = 2"
    | "sint (validateInt8 lvl) < -1" by blast
  then show ?thesis
  proof cases
    case 1 then show ?thesis
      using z intLogLevel_words(1) by (intro disjI1 conjI exI [of _ "-1"]) (simp_all add: small)
  next
    case 2 then show ?thesis
      using z intLogLevel_words(2) by (intro disjI1 conjI exI [of _ 0]) (simp_all add: small)
  next
    case 3 then show ?thesis
      using z intLogLevel_words(3) by (intro disjI1 conjI exI [of _ 2]) (simp_all add: small)
  next
    case 4 then show ?thesis using z intLogLevel_printed by simp
  qed
qed

lemma level_printed:
  assumes "zap_level_names z" and "levelValue_Set z s (v, k) = (None, v', k')"
  shows "if -1 \<le> sint (lvLevel v') then levelValue_Set z (levelValue_String z v') (v', k2) = (None, v', k2)
    else fst (levelValue_Set z (levelValue_String z v') (v', k2)) \<noteq> None"
proof -
  obtain lvl where lvl: "intLogLevel s = Inr lvl" and v': "lvSet v'" "lvLevel v' = validateInt8 lvl"
    using assms(2) by (auto simp: levelValue_Set_def Let_def split: sum.splits if_splits prod.splits)
  from v' have same: "v'\<lparr>lvSet := True, lvLevel := validateInt8 lvl\<rparr> = v'" by (cases v') simp
  from printed_level [OF assms(1) lvl] show ?thesis
    using same v' by (auto simp: levelValue_Set_def levelValue_String_def Let_def)
qed

lemma stack_level_printed:
  assumes "zap_level_names z" and "stackLevelValue_Set s v = (None, v')"
  shows "if -1 \<le> sint (lvLevel v') then stackLevelValue_Set (stackLevelValue_String z v') v' = (None, v')
    else fst (stackLevelValue_Set (stackLevelValue_String z v') v') \<noteq> None"
proof -
  obtain lvl where lvl: "intLogLevel s = Inr lvl" and v': "lvSet v'" "lvLevel v' = validateInt8 lvl"
    using assms(2) by (auto simp: stackLevelValue_Set_def Let_def split: sum.splits)
  from v' have same: "v'\<lparr>lvSet := True, lvLevel := validateInt8 lvl\<rparr> = v'" by (cases v') simp
  from printed_level [OF assms(1) lvl] show ?thesis
    using same v' by (auto simp: stackLevelValue_Set_def stackLevelValue_String_def Let_def)
qed

section \<open>From the command line to the configuration\<close>

text \<open>The flags after parsing a command line: every value that was given was accepted.\<close>

inductive parsed :: "('cfg, 'enc, 'te, 'k) ZapLib \<Rightarrow> 'te ZapFlags \<Rightarrow> bool" for z where
  parsed_none: "\<not> evSet (encoderVal fl) \<Longrightarrow> \<not> lvSet (levelVal fl) \<Longrightarrow> \<not> svSet (sampleVal fl) \<Longrightarrow>
     \<not> tvSet (timeEncodingVal fl) \<Longrightarrow> \<not> lvSet (stacktraceLevel fl) \<Longrightarrow> parsed z fl"
| parsed_devel: "parsed z fl \<Longrightarrow> parsed z (fl\<lparr>development := b\<rparr>)"
| parsed_encoder: "parsed z fl \<Longrightarrow> encoderValue_Set s (encoderVal fl) = (None, v) \<Longrightarrow> parsed z (fl\<lparr>encoderVal := v\<rparr>)"
| parsed_level: "parsed z fl \<Longrightarrow> levelValue_Set z s (levelVal fl, k) = (None, v, k') \<Longrightarrow> parsed z (fl\<lparr>levelVal := v\<rparr>)"
| parsed_sample: "parsed z fl \<Longrightarrow> sampleValue_Set s (sampleVal fl) = (None, v) \<Longrightarrow> parsed z (fl\<lparr>sampleVal := v\<rparr>)"
| parsed_time: "parsed z fl \<Longrightarrow> timeEncodingValue_Set z s (timeEncodingVal fl) = (None, v) \<Longrightarrow>
     parsed z (fl\<lparr>timeEncodingVal := v\<rparr>)"
| parsed_stack: "parsed z fl \<Longrightarrow> stackLevelValue_Set s (stacktraceLevel fl) = (None, v) \<Longrightarrow>
     parsed z (fl\<lparr>stacktraceLevel := v\<rparr>)"

lemma accepted_level:
  "levelValue_Set z s (v0, k) = (None, v, k') \<Longrightarrow> lvSet v \<and> sint (lvLevel v) \<le> 2"
  "stackLevelValue_Set s v0 = (None, v) \<Longrightarrow> lvSet v \<and> sint (lvLevel v) \<le> 2"
  using intLogLevel_range [of s] level8.conv_clamps
  by (auto simp: levelValue_Set_def stackLevelValue_Set_def Let_def split: sum.splits if_splits prod.splits)

text \<open>An encoder that was chosen exists, and no level that was chosen is above error.\<close>

definition flags_ok :: "'te ZapFlags \<Rightarrow> bool" where
  "flags_ok fl \<longleftrightarrow> (evSet (encoderVal fl) \<longrightarrow> evNewEncoder (encoderVal fl) \<noteq> None) \<and>
     (lvSet (levelVal fl) \<longrightarrow> sint (lvLevel (levelVal fl)) \<le> 2) \<and>
     (lvSet (stacktraceLevel fl) \<longrightarrow> sint (lvLevel (stacktraceLevel fl)) \<le> 2)"

lemma parsed_flags_ok: "parsed z fl \<Longrightarrow> flags_ok fl"
proof (induction rule: parsed.induct)
  case (parsed_encoder fl s v)
  then show ?case by (auto simp: flags_ok_def encoderValue_Set_def Let_def split: if_splits)
next
  case (parsed_level fl s k v k')
  then show ?case using accepted_level(1) [OF parsed_level(2)] by (simp add: flags_ok_def)
next
  case (parsed_stack fl s v)
  then show ?case using accepted_level(2) [OF parsed_stack(2)] by (simp add: flags_ok_def)
qed (simp_all add: flags_ok_def)

text \<open>What the configuration guarantees: sampling only where zap's sampler can index the level.\<close>

definition config_ok :: "'enc zconfig \<Rightarrow> bool" where
  "config_ok c \<longleftrightarrow> sint (zcLevel c) \<le> 2 \<and> sint (zcStackTraceLevel c) \<le> 2 \<and> (zcSample c \<longrightarrow> -1 \<le> sint (zcLevel c))"

lemma getConfig_result:
  assumes "flags_ok fl"
  shows "\<exists>c. getConfig z fl = Return c \<and> config_ok c"
proof -
  have "sint DebugLevel = -1" "sint InfoLevel = 0" "sint WarnLevel = 1" "sint ErrorLevel = 2"
    by (simp_all add: DebugLevel_def InfoLevel_def WarnLevel_def ErrorLevel_def)
  then show ?thesis
    using assms by (auto simp: getConfig_def flags_ok_def config_ok_def Let_def)
qed

lemma getConfig_no_sampler: "getConfig z fl = Return c \<Longrightarrow> OptSampler t a b \<notin> set (zcOpts c)"
  by (auto simp: getConfig_def Let_def split: option.splits if_splits)

text \<open>A logger with a sampler has only levels that the sampler can index.\<close>

definition logger_ok :: "'enc zlogger \<Rightarrow> bool" where
  "logger_ok lg \<longleftrightarrow> sint (zlLevel lg) \<le> 2 \<and>
     (\<forall>t a b. OptSampler t a b \<in> set (zlOpts lg) \<longrightarrow> -1 \<le> sint (zlLevel lg))"

lemma Logger_result:
  assumes "flags_ok fl"
  shows "\<exists>lg. Logger z fl = Return lg \<and> logger_ok lg"
proof -
  obtain c where c: "getConfig z fl = Return c" "config_ok c" using getConfig_result [OF assms] by blast
  then have "logger_ok (createLogger z c)"
    using getConfig_no_sampler [OF c(1)]
    by (auto simp: createLogger_def config_ok_def logger_ok_def Let_def split: if_splits)
  then show ?thesis using c(1) by (simp add: Logger_def LoggerTo_def)
qed

text \<open>What parsing leaves is reached by accepted values only.\<close>

lemma setVar_parsed:
  assumes "setVar z pb x s (fl, k) = (None, fl', k')" and "parsed z fl"
  shows "parsed z fl'"
  using assms
  by (cases x) (auto simp: setVar_def split: prod.splits intro: parsed.intros)

lemma parseArgs_parsed:
  "parseArgs z pb args (fl, k) = (None, fl', k') \<Longrightarrow> parsed z fl \<Longrightarrow> parsed z fl'"
proof (induction z pb args "(fl, k)" arbitrary: fl k rule: parseArgs.induct)
  case (2 z pb name s args)
  then show ?case
    by (fastforce split: option.splits prod.splits intro: setVar_parsed)
qed simp

lemma parsed_init: "parsed z (zapFlags_init te)"
  by (rule parsed_none) (simp_all add: zapFlags_init_def)

section \<open>Properties\<close>

text \<open>A library with trivial encoders, for the examples.\<close>

definition ex_zap :: "(string, string, string, string) ZapLib" where
  "ex_zap = \<lparr>NewProductionEncoderConfig = ''production'', NewDevelopmentEncoderConfig = ''development'',
     NewJSONEncoder = (\<lambda>c. ''json:'' @ c), NewConsoleEncoder = (\<lambda>c. ''console:'' @ c),
     SetEncodeTime = (\<lambda>te c. c @ ''+'' @ te), UnmarshalText = (\<lambda>s _. (None, s)), KubeAwareEncoder = (\<lambda>enc b. enc),
     LevelString = (\<lambda>l. if l = -1 then ''debug'' else if l = 0 then ''info'' else if l = 2 then ''error''
       else ''Level('' @ strconv_Itoa (scast l) @ '')''), KlogSetV = (\<lambda>s _. (None, s))\<rparr>"

definition ex_flags :: "string ZapFlags" where
  "ex_flags = \<lparr>development = False, encoderVal = \<lparr>evSet = False, evNewEncoder = None, evStr = []\<rparr>,
     levelVal = \<lparr>lvSet = False, lvLevel = 0\<rparr>, sampleVal = \<lparr>svSet = False, svSample = False\<rparr>,
     timeEncodingVal = \<lparr>tvSet = False, tvTimeEncoder = [], tvStr = []\<rparr>, stacktraceLevel = \<lparr>lvSet = False, lvLevel = 0\<rparr>\<rparr>"

text \<open>
  C17. Whatever command line is parsed without an error from the initial values of the variables,
  the logger can be built: no encoder is called that is nil, the level is not above error, and a
  sampler is installed only for levels it can index.
\<close>

theorem Logger_safe:
  assumes "parseArgs z pb args (zapFlags_init te, k) = (None, fl, k')"
  shows "\<exists>lg. Logger z fl = Return lg \<and> logger_ok lg"
  by (rule Logger_result [OF parsed_flags_ok [OF parseArgs_parsed [OF assms parsed_init]]])

theorem Logger_safe_witness:
  "let r = parseArgs ex_zap strconv_ParseBool [(''zap-level'', ''7''), (''zap-sample'', ''true''), (''zap-encoder'', ''console'')] (zapFlags_init [], [])
   in fst r = None \<and> snd (snd r) = ''7'' \<and> (\<exists>lg. Logger ex_zap (fst (snd r)) = Return lg \<and> logger_ok lg)"
proof -
  let ?r = "parseArgs ex_zap strconv_ParseBool [(''zap-level'', ''7''), (''zap-sample'', ''true''), (''zap-encoder'', ''console'')] (zapFlags_init [], [])"
  have r: "fst ?r = None" "snd (snd ?r) = ''7''" by code_simp+
  then have "?r = (None, fst (snd ?r), snd (snd ?r))" by (simp only: prod_eq_iff fst_conv snd_conv)
  from Logger_safe [OF this] r show ?thesis unfolding Let_def by (intro conjI)
qed

text \<open>
  C18. A positive number \<open>n\<close> given as log level stands for zap level \<open>-n\<close>, cut off at the
  least 8-bit value; beyond 3 the same number becomes the verbosity of klog.
\<close>

theorem numeric_log_level:
  assumes "0 < sint n"
  shows "\<exists>v'. lvSet v' \<and> sint (lvLevel v') = max (-128) (- sint n) \<and>
    levelValue_Set z (strconv_Itoa n) (v, k) =
      (if 3 < sint n then (case KlogSetV z (strconv_Itoa n) k of (er, k') \<Rightarrow> (er, v', k')) else (None, v', k))"
  using levelValue_Set_number [OF assms, of z v k] validateInt8_number [OF assms]
  by (intro exI [of _ "v\<lparr>lvSet := True, lvLevel := validateInt8 (-1 * n)\<rparr>"]) (simp add: Let_def)

theorem numeric_log_level_witness:
  "\<exists>v'. sint (lvLevel v') = -128 \<and> levelValue_Set ex_zap (strconv_Itoa 300) (\<lparr>lvSet = False, lvLevel = 0\<rparr>, []) = (None, v', strconv_Itoa 300)"
  using numeric_log_level [of 300 ex_zap "\<lparr>lvSet = False, lvLevel = 0\<rparr>" "[]"] by (auto simp: ex_zap_def)

text \<open>
  C26. What an encoder, sample or time encoding value prints after it was set successfully is accepted
  by it again and changes nothing. What a log level or stack trace level prints is accepted again
  exactly when the level is debug or above, and then changes nothing; the levels below debug, which
  every number from 2 on stands for, print as \<open>Level(-n)\<close>, and the flag that printed it rejects it.
  So a printed command line reproduces the flags only when no such level is among them.
\<close>

theorem flag_values_roundtrip:
  assumes "encoderValue_Set s1 v1 = (None, v1')" and "sampleValue_Set s2 v2 = (None, v2')"
    and "timeEncodingValue_Set z s3 v3 = (None, v3')" and "unmarshal_fresh z"
    and "levelValue_Set z s4 (v4, k) = (None, v4', k')" and "stackLevelValue_Set s5 v5 = (None, v5')" and "zap_level_names z"
  shows "encoderValue_Set (encoderValue_String v1') v1' = (None, v1') \<and>
    sampleValue_Set (sampleValue_String v2') v2' = (None, v2') \<and>
    timeEncodingValue_Set z (timeEncodingValue_String v3') v3' = (None, v3') \<and>
    (if -1 \<le> sint (lvLevel v4') then levelValue_Set z (levelValue_String z v4') (v4', k2) = (None, v4', k2)
     else fst (levelValue_Set z (levelValue_String z v4') (v4', k2)) \<noteq> None) \<and>
    (if -1 \<le> sint (lvLevel v5') then stackLevelValue_Set (stackLevelValue_String z v5') v5' = (None, v5')
     else fst (stackLevelValue_Set (stackLevelValue_String z v5') v5') \<noteq> None)"
proof (intro conjI)
  show "encoderValue_Set (encoderValue_String v1') v1' = (None, v1')"
    using encoder_flag.roundtrip [OF assms(1)] by (simp add: encoderValue_String_def)
  show "sampleValue_Set (sampleValue_String v2') v2' = (None, v2')" by (rule sample_flag.roundtrip [OF assms(2)])
  show "timeEncodingValue_Set z (timeEncodingValue_String v3') v3' = (None, v3')"
    using flag_value.roundtrip [OF time_flag_value [OF assms(4)] assms(3)] by (simp add: timeEncodingValue_String_def)
  show "if -1 \<le> sint (lvLevel v4') then levelValue_Set z (levelValue_String z v4') (v4', k2) = (None, v4', k2)
     else fst (levelValue_Set z (levelValue_String z v4') (v4', k2)) \<noteq> None"
    by (rule level_printed [OF assms(7,5)])
  show "if -1 \<le> sint (lvLevel v5') then stackLevelValue_Set (stackLevelValue_String z v5') v5' = (None, v5')
     else fst (stackLevelValue_Set (stackLevelValue_String z v5') v5') \<noteq> None"
    by (rule stack_level_printed [OF assms(7,6)])
qed

theorem flag_values_roundtrip_witness:
  "\<exists>v1 v2 v3 v4 v5. encoderValue_Set (encoderValue_String v1) v1 = (None, v1) \<and> sampleValue_Set (sampleValue_String v2) v2 = (None, v2) \<and>
     timeEncodingValue_Set ex_zap (timeEncodingValue_String v3) v3 = (None, v3) \<and> evStr v1 = ''json'' \<and> svSample v2 \<and> tvStr v3 = ''epoch'' \<and>
     levelValue_String ex_zap v4 = ''Level(-7)'' \<and> fst (levelValue_Set ex_zap ''Level(-7)'' (v4, ''7'')) \<noteq> None \<and>
     stackLevelValue_Set ''debug'' v5 = (None, v5)"
proof -
  let ?v1 = "\<lparr>evSet = True, evNewEncoder = Some CtorJSON, evStr = ''json''\<rparr>" and ?v2 = "\<lparr>svSet = True, svSample = True\<rparr>"
    and ?v3 = "\<lparr>tvSet = True, tvTimeEncoder = ''epoch'', tvStr = ''epoch''\<rparr>"
    and ?v4 = "\<lparr>lvSet = True, lvLevel = -7\<rparr>" and ?v5 = "\<lparr>lvSet = True, lvLevel = -1\<rparr>"
  have e: "encoderValue_Set ''json'' (encoderVal ex_flags) = (None, ?v1)" by code_simp
  have s: "sampleValue_Set ''T'' (sampleVal ex_flags) = (None, ?v2)" by code_simp
  have t: "timeEncodingValue_Set ex_zap ''nano'' (timeEncodingVal ex_flags) = (None, ?v3)" by code_simp
  have u: "unmarshal_fresh ex_zap" by (simp add: unmarshal_fresh_def ex_zap_def)
  have l: "levelValue_Set ex_zap ''7'' (levelVal ex_flags, []) = (None, ?v4, ''7'')" by code_simp
  have p: "levelValue_String ex_zap ?v4 = ''Level(-7)''" by code_simp
  have st: "stackLevelValue_Set ''1'' (stacktraceLevel ex_flags) = (None, ?v5)" by code_simp
  have d: "stackLevelValue_String ex_zap ?v5 = ''debug''" by code_simp
  have n: "zap_level_names ex_zap" by (auto simp: zap_level_names_def ex_zap_def)
  note T = flag_values_roundtrip [OF e s t u l st n, of "''7''", unfolded p d]
  show ?thesis
    by (rule exI [of _ ?v1], rule exI [of _ ?v2], rule exI [of _ ?v3], rule exI [of _ ?v4], rule exI [of _ ?v5])
      (use T p in simp)
qed

end
