(* ===== verification/Object_Store.thy ===== *)
theory Object_Store
  imports Channel_Types
begin

text \<open>
  \<open>pkg/utils/aws_client.go\<close>: the handler of an S3-compatible object store. The AWS SDK is the
  record \<open>S3Lib\<close>, over an abstract state \<open>'s\<close> of the store; the contract the handler
  relies on is the locale \<open>s3_api\<close>, satisfied by the in-memory store \<open>memS3\<close>. A method on
  a handler whose client is nil panics.
\<close>

section \<open>The SDK\<close>

record AwsEndpoint =
  aeURL :: string
  HostnameImmutable :: bool

record AwsCredentials =
  credAccessKeyID :: string
  credSecretAccessKey :: string

text \<open>
  \<open>ListObjects\<close> gives the keys and whether the listing is truncated, \<open>GetObject\<close> the metadata and a
  body, whose reading may fail.
\<close>

record ('c, 'cfg, 's) S3Lib =
  LoadDefaultConfig :: "(string \<Rightarrow> string \<Rightarrow> go_error + AwsEndpoint) \<Rightarrow> go_error + 'cfg"
  NewFromConfig :: "'cfg \<Rightarrow> string \<Rightarrow> AwsCredentials \<Rightarrow> 'c option"
  s3CreateBucket :: "'c \<Rightarrow> string \<Rightarrow> 's \<Rightarrow> go_error option \<times> 's"
  s3HeadBucket :: "'c \<Rightarrow> string \<Rightarrow> 's \<Rightarrow> go_error option \<times> 's"
  s3ListObjects :: "'c \<Rightarrow> string \<Rightarrow> 's \<Rightarrow> (go_error + string list \<times> bool) \<times> 's"
  s3GetObject :: "'c \<Rightarrow> string \<Rightarrow> string \<Rightarrow> 's \<Rightarrow> (go_error + str_map \<times> (go_error + bytes)) \<times> 's"
  s3PutObject :: "'c \<Rightarrow> string \<Rightarrow> string \<Rightarrow> bytes \<Rightarrow> 's \<Rightarrow> go_error option \<times> 's"
  s3DeleteObject :: "'c \<Rightarrow> string \<Rightarrow> string \<Rightarrow> 's \<Rightarrow> go_error option \<times> 's"

section \<open>The handler\<close>

definition DployableMateGenerateNameKey :: string where
  "DployableMateGenerateNameKey = ''Generatename''"

definition DeployableMetaVersionKey :: string where
  "DeployableMetaVersionKey = ''Deployableversion''"

record DeployableObject =
  dName :: string
  dGenerateName :: string
  dVersion :: string
  dContent :: bytes

definition empty_object :: DeployableObject where
  "empty_object = \<lparr>dName = [], dGenerateName = [], dVersion = [], dContent = []\<rparr>"

definition isEmpty :: "DeployableObject \<Rightarrow> bool" where
  "isEmpty d = (dName d = [] \<and> dGenerateName d = [] \<and> length (dContent d) = 0)"

record 'c AWSHandler =
  awsClient :: "'c option"

text \<open>\<open>credentialProvider.Retrieve\<close>.\<close>

definition Retrieve :: "AwsCredentials \<Rightarrow> AwsCredentials" where
  "Retrieve v = \<lparr>credAccessKeyID = credAccessKeyID v, credSecretAccessKey = credSecretAccessKey v\<rparr>"

definition isAwsS3ObjectBucket :: "string \<Rightarrow> bool" where
  "isAwsS3ObjectBucket endpoint =
     (if strings_Contains (strings_ToLower endpoint) (strings_ToLower ''s3://'') then True
      else if strings_Contains (strings_ToLower endpoint) (strings_ToLower ''s3'') \<and>
              strings_Contains (strings_ToLower endpoint) (strings_ToLower ''aws'') then True
      else False)"

text \<open>The error stands for the value \<open>aws.EndpointNotFoundError\<close>.\<close>

definition customResolver :: "string \<Rightarrow> string \<Rightarrow> string \<Rightarrow> go_error + AwsEndpoint" where
  "customResolver endpoint service region =
     (if region = ''minio'' then Inr \<lparr>aeURL = endpoint, HostnameImmutable = True\<rparr>
      else Inl (NewErr ''endpoint not found''))"

text \<open>A nil client is reported by the \<open>err\<close> of the configuration, which is nil by then.\<close>

definition InitObjectStoreConnection ::
  "('c, 'cfg, 's) S3Lib \<Rightarrow> string \<Rightarrow> string \<Rightarrow> string \<Rightarrow> string \<Rightarrow> 'c AWSHandler \<Rightarrow> go_error option \<times> 'c AWSHandler" where
  "InitObjectStoreConnection z endpoint accessKeyID secretAccessKey region h =
     (let objectRegion = (if isAwsS3ObjectBucket endpoint then region else ''minio'')
      in case LoadDefaultConfig z (customResolver endpoint) of
          Inl er \<Rightarrow> (Some er, h)
        | Inr cfg \<Rightarrow>
           (let objCredential = \<lparr>credAccessKeyID = accessKeyID, credSecretAccessKey = secretAccessKey\<rparr>
            in (None, h\<lparr>awsClient := NewFromConfig z cfg objectRegion (Retrieve objCredential)\<rparr>)))"

definition with_client :: "'c AWSHandler \<Rightarrow> ('c \<Rightarrow> 's \<Rightarrow> 'r \<times> 's) \<Rightarrow> 's \<Rightarrow> 'r outcome \<times> 's" where
  "with_client h f s = (case awsClient h of None \<Rightarrow> (Panic NilDereference, s) | Some c \<Rightarrow> (case f c s of (r, s) \<Rightarrow> (Return r, s)))"

definition aws_Create :: "('c, 'cfg, 's) S3Lib \<Rightarrow> 'c AWSHandler \<Rightarrow> string \<Rightarrow> 's \<Rightarrow> go_error option outcome \<times> 's" where
  "aws_Create z h bucket = with_client h (\<lambda>c. s3CreateBucket z c bucket)"

definition aws_Exists :: "('c, 'cfg, 's) S3Lib \<Rightarrow> 'c AWSHandler \<Rightarrow> string \<Rightarrow> 's \<Rightarrow> go_error option outcome \<times> 's" where
  "aws_Exists z h bucket = with_client h (\<lambda>c. s3HeadBucket z c bucket)"

definition aws_List :: "('c, 'cfg, 's) S3Lib \<Rightarrow> 'c AWSHandler \<Rightarrow> string \<Rightarrow> 's \<Rightarrow> (go_error + string list) outcome \<times> 's" where
  "aws_List z h bucket = with_client h (\<lambda>c s.
     case s3ListObjects z c bucket s of
       (Inl er, s) \<Rightarrow> (Inl er, s)
     | (Inr (keys, isTruncated), s) \<Rightarrow> (Inr keys, s))"

text \<open>A missing entry of the metadata reads as the empty string.\<close>

definition meta_str :: "str_map \<Rightarrow> string \<Rightarrow> string" where
  "meta_str m k = (case m k of None \<Rightarrow> [] | Some v \<Rightarrow> v)"

definition aws_Get ::
  "('c, 'cfg, 's) S3Lib \<Rightarrow> 'c AWSHandler \<Rightarrow> string \<Rightarrow> string \<Rightarrow> 's \<Rightarrow> (go_error + DeployableObject) outcome \<times> 's" where
  "aws_Get z h bucket name = with_client h (\<lambda>c s.
     case s3GetObject z c bucket name s of
       (Inl er, s) \<Rightarrow> (Inl er, s)
     | (Inr (metadata, body), s) \<Rightarrow>
         (let generateName = meta_str metadata DployableMateGenerateNameKey;
              version = meta_str metadata DeployableMetaVersionKey
          in case body of
              Inl er \<Rightarrow> (Inl er, s)
            | Inr body \<Rightarrow>
                if length body = 0 then (Inr empty_object, s)
                else (Inr \<lparr>dName = name, dGenerateName = generateName, dVersion = version, dContent = body\<rparr>, s)))"

definition aws_Put :: "('c, 'cfg, 's) S3Lib \<Rightarrow> 'c AWSHandler \<Rightarrow> string \<Rightarrow> DeployableObject \<Rightarrow> 's \<Rightarrow> go_error option outcome \<times> 's" where
  "aws_Put z h bucket dplObj s =
     (if isEmpty dplObj then (Return None, s)
      else with_client h (\<lambda>c. s3PutObject z c bucket (dName dplObj) (dContent dplObj)) s)"

definition aws_Delete :: "('c, 'cfg, 's) S3Lib \<Rightarrow> 'c AWSHandler \<Rightarrow> string \<Rightarrow> string \<Rightarrow> 's \<Rightarrow> go_error option outcome \<times> 's" where
  "aws_Delete z h bucket name = with_client h (\<lambda>c. s3DeleteObject z c bucket name)"

section \<open>What the store promises\<close>

text \<open>
  Buckets of objects; an object is its body and the metadata given at its creation, which the
  handler never gives. A call that fails may have taken effect or not, but never in part. A listing has
  at most 1000 keys, and all of them unless it says that it is truncated.
\<close>

type_synonym buckets = "string \<rightharpoonup> (string \<rightharpoonup> str_map \<times> bytes)"

locale s3_api =
  fixes z :: "('c, 'cfg, 's) S3Lib" and bk :: "'s \<Rightarrow> buckets"
  assumes head: "s3HeadBucket z c b s = (r, s') \<Longrightarrow> bk s' = bk s \<and> (r = None \<longrightarrow> b \<in> dom (bk s))"
    and list_ok: "s3ListObjects z c b s = (Inr (ks, truncated), s') \<Longrightarrow>
       \<exists>m. bk s b = Some m \<and> set ks \<subseteq> dom m \<and> length ks \<le> 1000 \<and> (\<not> truncated \<longrightarrow> set ks = dom m)"
    and list_st: "s3ListObjects z c b s = (l, s') \<Longrightarrow> bk s' = bk s"
    and get_ok: "s3GetObject z c b k s = (Inr (m, Inr body), s') \<Longrightarrow> \<exists>os. bk s b = Some os \<and> os k = Some (m, body)"
    and get_st: "s3GetObject z c b k s = (g, s') \<Longrightarrow> bk s' = bk s"
    and put_ok: "s3PutObject z c b k body s = (None, s') \<Longrightarrow>
       \<exists>os. bk s b = Some os \<and> bk s' = (bk s)(b \<mapsto> os(k \<mapsto> (Map.empty, body)))"
    and put_err: "s3PutObject z c b k body s = (Some er, s') \<Longrightarrow>
       bk s' = bk s \<or> (\<exists>os. bk s b = Some os \<and> bk s' = (bk s)(b \<mapsto> os(k \<mapsto> (Map.empty, body))))"
    and delete_ok: "s3DeleteObject z c b k s = (None, s') \<Longrightarrow>
       \<exists>os. bk s b = Some os \<and> bk s' = (bk s)(b \<mapsto> os(k := None))"
    and delete_err: "s3DeleteObject z c b k s = (Some er, s') \<Longrightarrow>
       bk s' = bk s \<or> (\<exists>os. bk s b = Some os \<and> bk s' = (bk s)(b \<mapsto> os(k := None)))"
begin

text \<open>An object read back after it was written has its name and content, and nothing else.\<close>

lemma put_get:
  assumes put: "aws_Put z h b d s = (Return None, s1)" and get: "aws_Get z h2 b (dName d) s1 = (Return (Inr d'), s2)"
    and content: "dContent d \<noteq> []"
  shows "d' = d\<lparr>dGenerateName := [], dVersion := []\<rparr>"
proof -
  obtain c where p: "s3PutObject z c b (dName d) (dContent d) s = (None, s1)"
    using put content by (auto simp: aws_Put_def isEmpty_def with_client_def split: option.splits prod.splits)
  then obtain os where os: "bk s b = Some os" "bk s1 = (bk s)(b \<mapsto> os(dName d \<mapsto> (Map.empty, dContent d)))" using put_ok by blast
  obtain c2 m body where g: "s3GetObject z c2 b (dName d) s1 = (Inr (m, Inr body), s2)"
    and d': "d' = (if body = [] then empty_object
      else \<lparr>dName = dName d, dGenerateName = meta_str m DployableMateGenerateNameKey,
            dVersion = meta_str m DeployableMetaVersionKey, dContent = body\<rparr>)"
    using get by (auto simp: aws_Get_def with_client_def Let_def split: option.splits prod.splits sum.splits if_splits)
  have "m = Map.empty" "body = dContent d" using get_ok [OF g] os by auto
  then show ?thesis using d' content by (simp add: meta_str_def)
qed

text \<open>A deleted object is not found again; others stay.\<close>

lemma delete_get:
  assumes del: "aws_Delete z h b k s = (Return None, s1)" and get: "aws_Get z h2 b j s1 = (Return (Inr d), s2)"
    and "d \<noteq> empty_object"
  shows "j \<noteq> k" and "\<exists>os m body. bk s b = Some os \<and> os j = Some (m, body) \<and> dContent d = body \<and> dName d = j"
proof -
  obtain c where "s3DeleteObject z c b k s = (None, s1)"
    using del by (auto simp: aws_Delete_def with_client_def split: option.splits prod.splits)
  then obtain os where os: "bk s b = Some os" "bk s1 = (bk s)(b \<mapsto> os(k := None))" using delete_ok by blast
  obtain c2 m body where g: "s3GetObject z c2 b j s1 = (Inr (m, Inr body), s2)" and d: "dName d = j" "dContent d = body"
    using get assms(3) by (auto simp: aws_Get_def with_client_def Let_def split: option.splits prod.splits sum.splits if_splits)
  from get_ok [OF g] os have "j \<noteq> k" "os j = Some (m, body)" by (auto split: if_splits)
  with os d show "j \<noteq> k" and "\<exists>os m body. bk s b = Some os \<and> os j = Some (m, body) \<and> dContent d = body \<and> dName d = j"
    by auto
qed

end

section \<open>The interface\<close>

text \<open>
  The Go interface \<open>ObjectStore\<close>. Its values are pointers to handlers: \<open>'h\<close> is an
  address, \<open>'s\<close> the state that the methods work on.
\<close>

record ('h, 's) ObjectStore =
  hoInit :: "'h \<Rightarrow> string \<Rightarrow> string \<Rightarrow> string \<Rightarrow> string \<Rightarrow> 's \<Rightarrow> go_error option outcome \<times> 's"
  hoExists :: "'h \<Rightarrow> string \<Rightarrow> 's \<Rightarrow> go_error option outcome \<times> 's"
  hoCreate :: "'h \<Rightarrow> string \<Rightarrow> 's \<Rightarrow> go_error option outcome \<times> 's"
  hoList :: "'h \<Rightarrow> string \<Rightarrow> 's \<Rightarrow> (go_error + string list) outcome \<times> 's"
  hoPut :: "'h \<Rightarrow> string \<Rightarrow> DeployableObject \<Rightarrow> 's \<Rightarrow> go_error option outcome \<times> 's"
  hoDelete :: "'h \<Rightarrow> string \<Rightarrow> string \<Rightarrow> 's \<Rightarrow> go_error option outcome \<times> 's"
  hoGet :: "'h \<Rightarrow> string \<Rightarrow> string \<Rightarrow> 's \<Rightarrow> (go_error + DeployableObject) outcome \<times> 's"

text \<open>\<open>var _ ObjectStore = &AWSHandler{}\<close>: addresses are positions in the list of allocated handlers.\<close>

record ('c, 's) StoreHeap =
  shHandlers :: "'c AWSHandler list"
  shStore :: 's

definition at_handler :: "('c AWSHandler \<Rightarrow> 's \<Rightarrow> 'r outcome \<times> 's) \<Rightarrow> nat \<Rightarrow> ('c, 's) StoreHeap \<Rightarrow> 'r outcome \<times> ('c, 's) StoreHeap" where
  "at_handler f a sh =
     (if a < length (shHandlers sh)
      then (case f (shHandlers sh ! a) (shStore sh) of (r, s) \<Rightarrow> (r, sh\<lparr>shStore := s\<rparr>))
      else (Panic NilDereference, sh))"

definition awsStore :: "('c, 'cfg, 's) S3Lib \<Rightarrow> (nat, ('c, 's) StoreHeap) ObjectStore" where
  "awsStore z = \<lparr>
     hoInit = (\<lambda>a endpoint i k r sh.
        if a < length (shHandlers sh)
        then (case InitObjectStoreConnection z endpoint i k r (shHandlers sh ! a) of
                (er, h) \<Rightarrow> (Return er, sh\<lparr>shHandlers := (shHandlers sh)[a := h]\<rparr>))
        else (Panic NilDereference, sh)),
     hoExists = (\<lambda>a bucket. at_handler (\<lambda>h. aws_Exists z h bucket) a),
     hoCreate = (\<lambda>a bucket. at_handler (\<lambda>h. aws_Create z h bucket) a),
     hoList = (\<lambda>a bucket. at_handler (\<lambda>h. aws_List z h bucket) a),
     hoPut = (\<lambda>a bucket d. at_handler (\<lambda>h. aws_Put z h bucket d) a),
     hoDelete = (\<lambda>a bucket name. at_handler (\<lambda>h. aws_Delete z h bucket name) a),
     hoGet = (\<lambda>a bucket name. at_handler (\<lambda>h. aws_Get z h bucket name) a)\<rparr>"

text \<open>
  The type of the fake object store in \<open>pkg/utils/fakeObjectStore.go\<close>: buckets, and in a bucket
  objects by their name. It has no methods; here it is the abstract state of every object store.
\<close>

record FakeObjectStore =
  Clt :: "string \<rightharpoonup> (string \<rightharpoonup> DeployableObject)"

text \<open>What remains of an object that is put into a bucket: its name and its content.\<close>

definition stored :: "DeployableObject \<Rightarrow> DeployableObject" where
  "stored d = (if dContent d = [] then empty_object else d\<lparr>dGenerateName := [], dVersion := []\<rparr>)"

datatype store_op = PutOp DeployableObject | DeleteOp string

definition store_step :: "('h, 's) ObjectStore \<Rightarrow> string \<Rightarrow> 'h \<Rightarrow> store_op \<Rightarrow> 's \<Rightarrow> go_error option outcome \<times> 's" where
  "store_step os b h op = (case op of PutOp d \<Rightarrow> hoPut os h b d | DeleteOp n \<Rightarrow> hoDelete os h b n)"

text \<open>Any handlers, one operation after the other, whatever each of them returns.\<close>

primrec store_run ::
  "('h, 's) ObjectStore \<Rightarrow> string \<Rightarrow> ('h \<times> store_op) list \<Rightarrow> 's \<Rightarrow> (store_op \<times> go_error option outcome) list \<times> 's" where
  "store_run os b [] s = ([], s)"
| "store_run os b (x # xs) s =
     (case store_step os b (fst x) (snd x) s of (r, s) \<Rightarrow>
        (case store_run os b xs s of (rs, s) \<Rightarrow> ((snd x, r) # rs, s)))"

text \<open>
  What an operation does to an abstract bucket. One that returned nil has taken effect, one that failed
  may have, so that there are several buckets that a run can end with.
\<close>

definition op_effect :: "store_op \<Rightarrow> (string \<rightharpoonup> DeployableObject) \<Rightarrow> (string \<rightharpoonup> DeployableObject)" where
  "op_effect op m = (case op of
      PutOp d \<Rightarrow> if isEmpty d then m else m(dName d \<mapsto> stored d)
    | DeleteOp n \<Rightarrow> m(n := None))"

primrec may_become ::
  "(store_op \<times> go_error option outcome) list \<Rightarrow> (string \<rightharpoonup> DeployableObject) \<Rightarrow> (string \<rightharpoonup> DeployableObject) set" where
  "may_become [] m = {m}"
| "may_become (x # xs) m =
     (if snd x = Return None then may_become xs (op_effect (fst x) m)
      else may_become xs m \<union> may_become xs (op_effect (fst x) m))"

lemma may_become_all_ok:
  "\<forall>x\<in>set rs. snd x = Return None \<Longrightarrow> may_become rs m = {fold op_effect (map fst rs) m}"
  by (induction rs arbitrary: m) simp_all

locale object_store =
  fixes os :: "('h, 's) ObjectStore" and view :: "'s \<Rightarrow> FakeObjectStore"
  assumes put_ok: "hoPut os h b d s = (Return None, s') \<Longrightarrow> \<not> isEmpty d \<Longrightarrow>
       \<exists>m. Clt (view s) b = Some m \<and> Clt (view s') = (Clt (view s))(b \<mapsto> m(dName d \<mapsto> stored d))"
    and put_empty: "hoPut os h b d s = (r, s') \<Longrightarrow> isEmpty d \<Longrightarrow> Clt (view s') = Clt (view s)"
    and put_err: "hoPut os h b d s = (r, s') \<Longrightarrow> \<not> isEmpty d \<Longrightarrow> r \<noteq> Return None \<Longrightarrow>
       Clt (view s') = Clt (view s) \<or>
       (\<exists>m. Clt (view s) b = Some m \<and> Clt (view s') = (Clt (view s))(b \<mapsto> m(dName d \<mapsto> stored d)))"
    and delete_ok: "hoDelete os h b n s = (Return None, s') \<Longrightarrow>
       \<exists>m. Clt (view s) b = Some m \<and> Clt (view s') = (Clt (view s))(b \<mapsto> m(n := None))"
    and delete_err: "hoDelete os h b n s = (r, s') \<Longrightarrow> r \<noteq> Return None \<Longrightarrow>
       Clt (view s') = Clt (view s) \<or>
       (\<exists>m. Clt (view s) b = Some m \<and> Clt (view s') = (Clt (view s))(b \<mapsto> m(n := None)))"
    and list_ok: "hoList os h b s = (Return (Inr ks), s') \<Longrightarrow> \<exists>m. Clt (view s) b = Some m \<and> set ks \<subseteq> dom m"
    and get_ok: "hoGet os h b n s = (Return (Inr d), s') \<Longrightarrow> \<exists>m. Clt (view s) b = Some m \<and> m n = Some d"
begin

lemma step_bucket:
  assumes "store_step os b h op s = (r, s')" and m: "Clt (view s) b = Some m"
  shows "Clt (view s') = (Clt (view s))(b \<mapsto> op_effect op m) \<or> r \<noteq> Return None \<and> Clt (view s') = Clt (view s)"
proof (cases op)
  case (PutOp d)
  then have run: "hoPut os h b d s = (r, s')" using assms(1) by (simp add: store_step_def)
  show ?thesis
  proof (cases "isEmpty d")
    case True
    then show ?thesis using put_empty [OF run] m PutOp by (auto simp: op_effect_def)
  next
    case False
    then show ?thesis
      using put_ok [of h b d s s'] put_err [OF run] run m PutOp by (cases "r = Return None") (auto simp: op_effect_def)
  qed
next
  case (DeleteOp n)
  then have run: "hoDelete os h b n s = (r, s')" using assms(1) by (simp add: store_step_def)
  show ?thesis
    using delete_ok [of h b n s s'] delete_err [OF run] run m DeleteOp by (cases "r = Return None") (auto simp: op_effect_def)
qed

lemma run_bucket:
  assumes "store_run os b xs s = (rs, s')" and "Clt (view s) b = Some m"
  shows "\<exists>m'\<in>may_become rs m. Clt (view s') = (Clt (view s))(b \<mapsto> m')"
  using assms
proof (induction xs arbitrary: s m rs)
  case Nil
  then show ?case by (auto simp: fun_eq_iff)
next
  case (Cons x xs)
  obtain r s1 where step: "store_step os b (fst x) (snd x) s = (r, s1)" by fastforce
  obtain rs1 where rest: "store_run os b xs s1 = (rs1, s')" and rs: "rs = (snd x, r) # rs1"
    using Cons.prems(1) step by (auto split: prod.splits)
  from step_bucket [OF step Cons.prems(2)] show ?case
  proof (elim disjE conjE)
    assume eq: "Clt (view s1) = (Clt (view s))(b \<mapsto> op_effect (snd x) m)"
    have "Clt (view s1) b = Some (op_effect (snd x) m)" by (simp add: eq)
    from Cons.IH [OF rest this] obtain m' where m': "m' \<in> may_become rs1 (op_effect (snd x) m)"
        "Clt (view s') = (Clt (view s1))(b \<mapsto> m')" by blast
    then have "Clt (view s') = (Clt (view s))(b \<mapsto> m')" by (simp add: eq)
    with m'(1) show ?thesis by (intro bexI [of _ m']) (simp_all add: rs)
  next
    assume r: "r \<noteq> Return None" and eq: "Clt (view s1) = Clt (view s)"
    from Cons.IH [OF rest, of m] Cons.prems(2) show ?thesis by (auto simp: eq rs r)
  qed
qed

end

text \<open>The objects of a bucket, as \<open>Get\<close> returns them.\<close>

definition object_of :: "string \<Rightarrow> str_map \<times> bytes \<Rightarrow> DeployableObject" where
  "object_of n x = (if snd x = [] then empty_object
     else \<lparr>dName = n, dGenerateName = meta_str (fst x) DployableMateGenerateNameKey,
           dVersion = meta_str (fst x) DeployableMetaVersionKey, dContent = snd x\<rparr>)"

definition objects_of :: "buckets \<Rightarrow> FakeObjectStore" where
  "objects_of bk = \<lparr>Clt = (\<lambda>b. map_option (\<lambda>os n. map_option (object_of n) (os n)) (bk b))\<rparr>"

lemma object_of_stored: "\<not> isEmpty d \<Longrightarrow> object_of (dName d) (Map.empty, dContent d) = stored d"
  by (simp add: object_of_def stored_def meta_str_def)

lemma objects_of_upd:
  "Clt (objects_of (bk(b \<mapsto> os))) = (Clt (objects_of bk))(b \<mapsto> \<lambda>n. map_option (object_of n) (os n))"
  by (simp add: objects_of_def fun_eq_iff)

text \<open>An AWS handler over a store that keeps its promises is an object store.\<close>

sublocale s3_api \<subseteq> aws: object_store "awsStore z" "\<lambda>sh. objects_of (bk (shStore sh))"
proof (unfold_locales, goal_cases)
  case (1 h b d s s')
  then obtain c t where t: "s3PutObject z c b (dName d) (dContent d) (shStore s) = (None, t)" "shStore s' = t"
    by (auto simp: awsStore_def at_handler_def aws_Put_def with_client_def split: if_splits option.splits prod.splits)
  from put_ok [OF t(1)] t(2) 1(2) show ?case
    by (auto simp: objects_of_upd object_of_stored [symmetric]) (auto simp: objects_of_def fun_eq_iff)
next
  case (2 h b d s r s')
  then show ?case
    by (auto simp: awsStore_def at_handler_def aws_Put_def split: if_splits prod.splits)
next
  case (3 h b d s r s')
  then have "s' = s \<or> (\<exists>c t er. s3PutObject z c b (dName d) (dContent d) (shStore s) = (Some er, t) \<and> shStore s' = t)"
    by (auto simp: awsStore_def at_handler_def aws_Put_def with_client_def split: if_splits option.splits prod.splits)
  then show ?case
  proof (elim disjE exE conjE)
    fix c t er
    assume t: "s3PutObject z c b (dName d) (dContent d) (shStore s) = (Some er, t)" "shStore s' = t"
    from put_err [OF t(1)] show ?thesis
    proof (elim disjE exE conjE)
      assume "bk t = bk (shStore s)"
      then show ?thesis using t(2) by simp
    next
      fix os assume os: "bk (shStore s) b = Some os" "bk t = (bk (shStore s))(b \<mapsto> os(dName d \<mapsto> (Map.empty, dContent d)))"
      let ?m = "\<lambda>n. map_option (object_of n) (os n)"
      have "Clt (objects_of (bk (shStore s))) b = Some ?m" by (simp add: objects_of_def os(1))
      moreover have "(\<lambda>n. map_option (object_of n) ((os(dName d \<mapsto> (Map.empty, dContent d))) n)) = ?m(dName d \<mapsto> stored d)"
        using object_of_stored [OF 3(2)] by (auto simp: fun_eq_iff)
      ultimately show ?thesis
        by (intro disjI2 exI [of _ ?m]) (simp add: t(2) os(2) objects_of_upd)
    qed
  qed simp
next
  case (4 h b n s s')
  then obtain c t where t: "s3DeleteObject z c b n (shStore s) = (None, t)" "shStore s' = t"
    by (auto simp: awsStore_def at_handler_def aws_Delete_def with_client_def split: if_splits option.splits prod.splits)
  from delete_ok [OF t(1)] t(2) show ?case
    by (auto simp: objects_of_upd) (auto simp: objects_of_def fun_eq_iff)
next
  case (5 h b n s r s')
  then have "s' = s \<or> (\<exists>c t er. s3DeleteObject z c b n (shStore s) = (Some er, t) \<and> shStore s' = t)"
    by (auto simp: awsStore_def at_handler_def aws_Delete_def with_client_def split: if_splits option.splits prod.splits)
  then show ?case
  proof (elim disjE exE conjE)
    fix c t er
    assume t: "s3DeleteObject z c b n (shStore s) = (Some er, t)" "shStore s' = t"
    from delete_err [OF t(1)] show ?thesis
    proof (elim disjE exE conjE)
      assume "bk t = bk (shStore s)"
      then show ?thesis using t(2) by simp
    next
      fix os assume os: "bk (shStore s) b = Some os" "bk t = (bk (shStore s))(b \<mapsto> os(n := None))"
      let ?m = "\<lambda>n. map_option (object_of n) (os n)"
      have "Clt (objects_of (bk (shStore s))) b = Some ?m" by (simp add: objects_of_def os(1))
      moreover have "(\<lambda>j. map_option (object_of j) ((os(n := None)) j)) = ?m(n := None)" by (auto simp: fun_eq_iff)
      ultimately show ?thesis
        by (intro disjI2 exI [of _ ?m]) (simp add: t(2) os(2) objects_of_upd)
    qed
  qed simp
next
  case (6 h b s ks s')
  then obtain c tr t where l: "s3ListObjects z c b (shStore s) = (Inr (ks, tr), t)"
    by (auto simp: awsStore_def at_handler_def aws_List_def with_client_def split: if_splits option.splits prod.splits sum.splits)
  from list_ok [OF l] show ?case by (auto simp: objects_of_def dom_def)
next
  case (7 h b n s d s')
  then obtain c t m body where "s3GetObject z c b n (shStore s) = (Inr (m, Inr body), t)" "d = object_of n (m, body)"
    by (auto simp: awsStore_def at_handler_def aws_Get_def with_client_def object_of_def Let_def
        split: if_splits option.splits prod.splits sum.splits)
  with get_ok show ?case by (fastforce simp: objects_of_def)
qed

context s3_api
begin

lemmas object_store_aws = aws.object_store_axioms

text \<open>The handler returns one page of the listing.\<close>

lemma List_page:
  assumes "hoList (awsStore z) h b sh = (Return (Inr ks), sh')" and m: "Clt (objects_of (bk (shStore sh))) b = Some m"
  shows "\<exists>c truncated. s3ListObjects z c b (shStore sh) = (Inr (ks, truncated), shStore sh') \<and>
    set ks \<subseteq> dom m \<and> length ks \<le> 1000 \<and> (\<not> truncated \<longrightarrow> set ks = dom m)"
proof -
  obtain c truncated where l: "s3ListObjects z c b (shStore sh) = (Inr (ks, truncated), shStore sh')"
    using assms(1)
    by (auto simp: awsStore_def at_handler_def aws_List_def with_client_def split: if_splits option.splits prod.splits sum.splits)
  obtain os where os: "bk (shStore sh) b = Some os" "dom m = dom os" using m by (auto simp: objects_of_def dom_def)
  then show ?thesis using list_ok [OF l] l by auto
qed

end

section \<open>An in-memory store\<close>

definition memS3 :: "(unit, unit, (string \<times> (string \<times> bytes) list) list) S3Lib" where
  "memS3 = \<lparr>
     LoadDefaultConfig = (\<lambda>_. Inr ()), NewFromConfig = (\<lambda>_ _ _. Some ()),
     s3CreateBucket = (\<lambda>_ b s. if map_of s b = None then (None, (b, []) # s) else (Some (NewErr ''bucket exists''), s)),
     s3HeadBucket = (\<lambda>_ b s. (if map_of s b = None then Some (NewErr ''no bucket'') else None, s)),
     s3ListObjects = (\<lambda>_ b s. (case map_of s b of None \<Rightarrow> Inl (NewErr ''no bucket'')
        | Some os \<Rightarrow> (let ks = remdups (map fst os) in Inr (take 1000 ks, 1000 < length ks)), s)),
     s3GetObject = (\<lambda>_ b k s. (case map_of s b of None \<Rightarrow> Inl (NewErr ''no bucket'')
        | Some os \<Rightarrow> (case map_of os k of None \<Rightarrow> Inl (NewErr ''no key'') | Some body \<Rightarrow> Inr (Map.empty, Inr body)), s)),
     s3PutObject = (\<lambda>_ b k body s. case map_of s b of None \<Rightarrow> (Some (NewErr ''no bucket''), s)
        | Some os \<Rightarrow> (None, (b, (k, body) # os) # s)),
     s3DeleteObject = (\<lambda>_ b k s. case map_of s b of None \<Rightarrow> (Some (NewErr ''no bucket''), s)
        | Some os \<Rightarrow> (None, (b, filter (\<lambda>x. fst x \<noteq> k) os) # s))\<rparr>"

definition memS3_buckets :: "(string \<times> (string \<times> bytes) list) list \<Rightarrow> buckets" where
  "memS3_buckets s b = map_option (\<lambda>os k. map_option (Pair Map.empty) (map_of os k)) (map_of s b)"

lemma map_of_filter_key: "map_of (filter (\<lambda>x. fst x \<noteq> k) os) j = (if j = k then None else map_of os j)"
  by (induction os) auto

interpretation memS3: s3_api memS3 memS3_buckets
proof (unfold_locales, goal_cases)
  case (2 c b s ks truncated s')
  then obtain os where os: "map_of s b = Some os" "ks = take 1000 (remdups (map fst os))"
      "truncated = (1000 < length (remdups (map fst os)))"
    by (auto simp: memS3_def Let_def split: option.splits)
  have d: "dom (map_of os) = set (remdups (map fst os))" by (simp add: dom_map_of_conv_image_fst)
  have sub: "set ks \<subseteq> dom (map_of os)" unfolding d os(2) by (rule set_take_subset)
  have all: "\<not> truncated \<Longrightarrow> set ks = dom (map_of os)" unfolding d os(2,3) by simp
  have len: "length ks \<le> 1000" by (simp add: os(2))
  obtain m where "memS3_buckets s b = Some m" and "dom m = dom (map_of os)"
    by (simp add: memS3_buckets_def os(1) dom_def)
  with sub all len show ?case by (intro exI [of _ m]) simp
next
  case (8 c b k s s')
  then show ?case by (auto simp: memS3_def memS3_buckets_def map_of_filter_key fun_eq_iff split: option.splits)
qed (auto simp: memS3_def memS3_buckets_def fun_eq_iff dom_def split: option.splits)

interpretation memStore: object_store "awsStore memS3" "\<lambda>sh. objects_of (memS3_buckets (shStore sh))"
  by unfold_locales

section \<open>Properties\<close>

text \<open>
  C19. A bucket is a map from names to contents. Put and delete objects in it through any AWS handlers,
  in any order, whatever the single calls return: afterwards the bucket holds what these calls make of a
  plain map, where one that returned nil has taken effect and one that failed may have (so that the map
  is determined when all returned nil); other buckets are the same. An object that is read back has its
  name and content; the generate name and version that were put are lost, since \<open>Put\<close> does not send the
  metadata that \<open>Get\<close> reads. \<open>List\<close> returns one page of the store's listing, which it does not follow
  up: at most 1000 names, all in the map, and all of the map only if the store did not truncate it.
\<close>

theorem bucket_is_map:
  assumes "s3_api z bk" and "store_run (awsStore z) b xs sh = (rs, sh')" and "Clt (objects_of (bk (shStore sh))) b = Some m"
  shows "\<exists>m'\<in>may_become rs m. Clt (objects_of (bk (shStore sh'))) b = Some m' \<and>
    ((\<forall>x\<in>set rs. snd x = Return None) \<longrightarrow> m' = fold op_effect (map fst rs) m) \<and>
    (\<forall>b'. b' \<noteq> b \<longrightarrow> Clt (objects_of (bk (shStore sh'))) b' = Clt (objects_of (bk (shStore sh))) b') \<and>
    (\<forall>h n d t. hoGet (awsStore z) h b n sh' = (Return (Inr d), t) \<longrightarrow> m' n = Some d) \<and>
    (\<forall>h ks t. hoList (awsStore z) h b sh' = (Return (Inr ks), t) \<longrightarrow>
      (1000 < card (dom m') \<longrightarrow> set ks \<noteq> dom m') \<and>
      (\<exists>c truncated. s3ListObjects z c b (shStore sh') = (Inr (ks, truncated), shStore t) \<and>
        set ks \<subseteq> dom m' \<and> length ks \<le> 1000 \<and> (\<not> truncated \<longrightarrow> set ks = dom m')))"
proof -
  have os: "object_store (awsStore z) (\<lambda>sh. objects_of (bk (shStore sh)))"
    by (rule s3_api.object_store_aws [OF assms(1)])
  obtain m' where m': "m' \<in> may_become rs m"
      "Clt (objects_of (bk (shStore sh'))) = (Clt (objects_of (bk (shStore sh))))(b \<mapsto> m')"
    using object_store.run_bucket [OF os assms(2,3)] by blast
  then have here: "Clt (objects_of (bk (shStore sh'))) b = Some m'" by simp
  show ?thesis
  proof (intro bexI [OF _ m'(1)] conjI allI impI)
    show "Clt (objects_of (bk (shStore sh'))) b = Some m'" by (rule here)
    show "m' = fold op_effect (map fst rs) m" if "\<forall>x\<in>set rs. snd x = Return None"
      using m'(1) may_become_all_ok [OF that, of m] by simp
    show "Clt (objects_of (bk (shStore sh'))) b' = Clt (objects_of (bk (shStore sh))) b'" if "b' \<noteq> b" for b'
      using that by (simp add: m'(2))
    show "m' n = Some d" if "hoGet (awsStore z) h b n sh' = (Return (Inr d), t)" for h n d t
      using object_store.get_ok [OF os that] here by simp
    fix h ks t
    assume l: "hoList (awsStore z) h b sh' = (Return (Inr ks), t)"
    note page = s3_api.List_page [OF assms(1) l here]
    then show "\<exists>c truncated. s3ListObjects z c b (shStore sh') = (Inr (ks, truncated), shStore t) \<and>
        set ks \<subseteq> dom m' \<and> length ks \<le> 1000 \<and> (\<not> truncated \<longrightarrow> set ks = dom m')" .
    show "set ks \<noteq> dom m'" if "1000 < card (dom m')"
      using that page card_length [of ks] by auto
  qed
qed

text \<open>Two handlers, a put that is overwritten, a deletion, and a handler that has no client yet.\<close>

definition ex_object :: "string \<Rightarrow> bytes \<Rightarrow> DeployableObject" where
  "ex_object n body = \<lparr>dName = n, dGenerateName = ''gen'', dVersion = ''1'', dContent = body\<rparr>"

definition ex_stores :: "(unit, (string \<times> (string \<times> bytes) list) list) StoreHeap" where
  "ex_stores = \<lparr>shHandlers = [\<lparr>awsClient = Some ()\<rparr>, \<lparr>awsClient = Some ()\<rparr>, \<lparr>awsClient = None\<rparr>], shStore = [(''b'', [])]\<rparr>"

definition ex_ops :: "(nat \<times> store_op) list" where
  "ex_ops = [(0, PutOp (ex_object ''o'' ''old'')), (1, PutOp (ex_object ''p'' ''x'')), (1, PutOp (ex_object ''o'' ''new'')),
     (2, DeleteOp ''o''), (0, DeleteOp ''p'')]"

theorem bucket_is_map_witness:
  "\<exists>rs sh'. store_run (awsStore memS3) ''b'' ex_ops ex_stores = (rs, sh') \<and>
     Clt (objects_of (memS3_buckets (shStore sh'))) ''b'' \<in>
       {Some [''o'' \<mapsto> \<lparr>dName = ''o'', dGenerateName = [], dVersion = [], dContent = ''new''\<rparr>], Some Map.empty}"
proof -
  let ?rs = "zip (map snd ex_ops) [Return None, Return None, Return None, Panic NilDereference, Return None]"
  obtain rs sh' where run: "store_run (awsStore memS3) ''b'' ex_ops ex_stores = (rs, sh')" by fastforce
  have "fst (store_run (awsStore memS3) ''b'' ex_ops ex_stores) = ?rs" by code_simp
  then have rs: "rs = ?rs" by (simp add: run)
  have m: "Clt (objects_of (memS3_buckets (shStore ex_stores))) ''b'' = Some Map.empty"
    by (simp add: objects_of_def memS3_buckets_def ex_stores_def fun_eq_iff)
  have "may_become ?rs Map.empty \<subseteq>
      {[''o'' \<mapsto> \<lparr>dName = ''o'', dGenerateName = [], dVersion = [], dContent = ''new''\<rparr>], Map.empty}"
    by (simp add: ex_ops_def ex_object_def op_effect_def isEmpty_def stored_def fun_eq_iff)
  with bucket_is_map [OF memS3.s3_api_axioms run m] run rs show ?thesis by auto
qed

text \<open>
  An object with content that was put into a bucket is read back with its name and its content;
  its generate name and version are lost, since \<open>Put\<close> does not send the metadata that \<open>Get\<close>
  reads.
\<close>

lemma object_roundtrip:
  assumes "s3_api z bk" and "aws_Put z h b d s = (Return None, s1)" and "aws_Get z h2 b (dName d) s1 = (Return (Inr d'), s2)"
    and "dContent d \<noteq> []"
  shows "d' = d\<lparr>dGenerateName := [], dVersion := []\<rparr>"
  by (rule s3_api.put_get [OF assms])

lemma object_roundtrip_witness:
  "fst (aws_Get memS3 \<lparr>awsClient = Some ()\<rparr> ''b'' ''o'' (snd (aws_Put memS3 \<lparr>awsClient = Some ()\<rparr> ''b''
     \<lparr>dName = ''o'', dGenerateName = ''gen'', dVersion = ''1'', dContent = ''data''\<rparr> [(''b'', [])]))) =
   Return (Inr \<lparr>dName = ''o'', dGenerateName = [], dVersion = [], dContent = ''data''\<rparr>)"
proof -
  let ?d = "\<lparr>dName = ''o'', dGenerateName = ''gen'', dVersion = ''1'', dContent = ''data''\<rparr>"
  let ?h = "\<lparr>awsClient = Some ()\<rparr>" and ?s1 = "[(''b'', [(''o'', ''data'')]), (''b'', [])]"
  have put: "aws_Put memS3 ?h ''b'' ?d [(''b'', [])] = (Return None, ?s1)" by code_simp
  obtain d' where get: "aws_Get memS3 ?h ''b'' (dName ?d) ?s1 = (Return (Inr d'), ?s1)"
    by (simp add: aws_Get_def with_client_def memS3_def)
  from object_roundtrip [OF memS3.s3_api_axioms put get] get show ?thesis by (simp add: put)
qed

text \<open>
  After a deletion the object is not found any more, and every object that is found was in the
  bucket before, under its own name and with its content.
\<close>

theorem object_deleted:
  assumes "s3_api z bk" and "aws_Delete z h b k s = (Return None, s1)" and "aws_Get z h2 b j s1 = (Return (Inr d), s2)"
    and "d \<noteq> empty_object"
  shows "j \<noteq> k \<and> (\<exists>os m body. bk s b = Some os \<and> os j = Some (m, body) \<and> dContent d = body \<and> dName d = j)"
  using s3_api.delete_get [OF assms] by blast

theorem object_deleted_witness:
  "\<exists>os m d s1 s2. aws_Delete memS3 \<lparr>awsClient = Some ()\<rparr> ''b'' ''o'' [(''b'', [(''o'', ''data''), (''p'', ''more'')])] = (Return None, s1) \<and>
     aws_Get memS3 \<lparr>awsClient = Some ()\<rparr> ''b'' ''p'' s1 = (Return (Inr d), s2) \<and>
     memS3_buckets [(''b'', [(''o'', ''data''), (''p'', ''more'')])] ''b'' = Some os \<and> os ''p'' = Some (m, dContent d)"
proof -
  let ?h = "\<lparr>awsClient = Some ()\<rparr>" and ?s = "[(''b'', [(''o'', ''data''), (''p'', ''more'')])]"
  let ?s1 = "(''b'', [(''p'', ''more'')]) # ?s" and ?d = "\<lparr>dName = ''p'', dGenerateName = [], dVersion = [], dContent = ''more''\<rparr>"
  have del: "aws_Delete memS3 ?h ''b'' ''o'' ?s = (Return None, ?s1)" by code_simp
  have get: "aws_Get memS3 ?h ''b'' ''p'' ?s1 = (Return (Inr ?d), ?s1)" by code_simp
  from object_deleted [OF memS3.s3_api_axioms del get] obtain os m where
    "memS3_buckets ?s ''b'' = Some os" "os ''p'' = Some (m, dContent ?d)" by (auto simp: empty_object_def)
  with del get show ?thesis by blast
qed

end
