(* ===== verification/Channel_Descriptor.thy ===== *)
theory Channel_Descriptor
  imports Referred_Objects Object_Store
begin

text \<open>
  \<open>pkg/utils/channel_descriptor.go\<close>: the registry of connected channels. Object store handlers
  are pointers: a handler is an address into a heap, and connecting a channel changes the handler
  at its address. \<open>HandlerOps\<close> adds the allocation of a new \<open>AWSHandler\<close> to the methods of the
  interface \<open>ObjectStore\<close>; \<open>awsOps\<close> is the instance for AWS handlers.
  The mutex is held around single accesses to the map only.
\<close>

section \<open>The registry\<close>

record 'h ChannelDescription =
  cdChannel :: Channel
  cdBucket :: string
  cdObjectStore :: "'h option"

record 'h ChannelDescriptor =
  channelUnitRegistry :: "string \<rightharpoonup> 'h ChannelDescription"

definition CreateObjectStorageChannelDescriptor :: "'h ChannelDescriptor" where
  "CreateObjectStorageChannelDescriptor = \<lparr>channelUnitRegistry = Map.empty\<rparr>"

definition desc_Get :: "'h ChannelDescriptor \<Rightarrow> string \<Rightarrow> 'h ChannelDescription option" where
  "desc_Get desc chname = channelUnitRegistry desc chname"

definition desc_Put :: "'h ChannelDescriptor \<Rightarrow> string \<Rightarrow> 'h ChannelDescription \<Rightarrow> 'h ChannelDescriptor" where
  "desc_Put desc chname chdesc = desc\<lparr>channelUnitRegistry := (channelUnitRegistry desc)(chname \<mapsto> chdesc)\<rparr>"

text \<open>The contract of the registry.\<close>

locale registry =
  fixes lookup :: "'d \<Rightarrow> string \<Rightarrow> 'v option" and insert :: "'d \<Rightarrow> string \<Rightarrow> 'v \<Rightarrow> 'd" and empty :: 'd
  assumes lookup_empty: "lookup empty n = None"
    and lookup_insert: "lookup (insert d n v) m = (if m = n then Some v else lookup d m)"
begin

text \<open>The last entry for a name wins, whatever was put in between under other names.\<close>

lemma lookup_inserts:
  "lookup (fold (\<lambda>(n, v) d. insert d n v) ps d) m =
     (case map_of (rev ps) m of None \<Rightarrow> lookup d m | Some v \<Rightarrow> Some v)"
  by (induction ps arbitrary: d) (auto simp: lookup_insert map_add_def split: option.splits)

end

interpretation desc: registry desc_Get desc_Put CreateObjectStorageChannelDescriptor
  by unfold_locales (simp_all add: desc_Get_def desc_Put_def CreateObjectStorageChannelDescriptor_def)

section \<open>Paths\<close>

definition parseBucketAndEndpoint :: "string \<Rightarrow> (string \<times> string) outcome" where
  "parseBucketAndEndpoint pathName =
     (if pathName = [] then Return ([], [])
      else map_outcome_bind
        (if strings_HasSuffix pathName ''/'' then slice_expr pathName 0 (int (length pathName) - 1) else Return pathName)
        (\<lambda>pathName. let loc = strings_LastIndex pathName CHR ''/''
         in map_outcome_bind (slice_expr pathName 0 loc) (\<lambda>endpoint.
            map_outcome_bind (slice_expr pathName (loc + 1) (int (length pathName))) (\<lambda>bucket.
            Return (endpoint, bucket)))))"

section \<open>Connecting a channel\<close>

definition getCredentialFromKube ::
  "'w Env \<Rightarrow> ObjectReference option \<Rightarrow> string \<Rightarrow> 'w \<Rightarrow> (go_error + string \<times> string \<times> string) \<times> 'w" where
  "getCredentialFromKube e secretRef defaultNs w =
     (case secretRef of
        None \<Rightarrow> (Inl (NewErr ''failed to get access info to objectstore due to missing referred secret''), w)
      | Some secretRef \<Rightarrow>
         (let secns = (if refNamespace secretRef = [] then defaultNs else refNamespace secretRef)
          in case kGet (dataObjects e srtGvk) (nskey secns (refName secretRef)) w of
              (Inl er, w) \<Rightarrow> (Inl (WrapErr (ApiError er) ''unable to get secret''), w)
            | (Inr secret, w) \<Rightarrow> (Inr (ParseSecretInfo (Some secret)), w)))"

record ('h, 's) HandlerOps = "('h, 's) ObjectStore" +
  hoNewAWS :: "'s \<Rightarrow> 'h \<times> 's"

text \<open>The registry is changed only by the last statement, when both calls on the store succeeded.\<close>

definition updateChannelRegistry ::
  "('h, 's) HandlerOps \<Rightarrow> Channel \<Rightarrow> string \<Rightarrow> string \<Rightarrow> string \<Rightarrow> 'h \<Rightarrow> 'h ChannelDescriptor \<Rightarrow> 's \<Rightarrow>
   go_error option outcome \<times> 'h ChannelDescriptor \<times> 's" where
  "updateChannelRegistry ho chn accessKeyID secretAccessKey region objStoreHandler desc s =
     (case parseBucketAndEndpoint (Pathname (chSpec chn)) of
        Panic p \<Rightarrow> (Panic p, desc, s)
      | Return (endpoint, bucket) \<Rightarrow>
         (case hoInit ho objStoreHandler endpoint accessKeyID secretAccessKey region s of
            (Panic p, s) \<Rightarrow> (Panic p, desc, s)
          | (Return (Some er), s) \<Rightarrow> (Return (Some er), desc, s)
          | (Return None, s) \<Rightarrow>
             (case hoExists ho objStoreHandler bucket s of
                (Panic p, s) \<Rightarrow> (Panic p, desc, s)
              | (Return (Some er), s) \<Rightarrow> (Return (Some er), desc, s)
              | (Return None, s) \<Rightarrow>
                  (Return None, desc_Put desc (chName chn)
                     \<lparr>cdChannel = chn, cdBucket = bucket, cdObjectStore = Some objStoreHandler\<rparr>, s))))"

text \<open>The handler: the injected one, else the one of the registry, else a new AWS handler.\<close>

definition pickHandler ::
  "('h, 's) HandlerOps \<Rightarrow> 'h option list \<Rightarrow> 'h ChannelDescription option \<Rightarrow> 's \<Rightarrow> 'h \<times> 's" where
  "pickHandler ho objStoreHandler chUnit s =
     (if length objStoreHandler \<noteq> 0 \<and> objStoreHandler ! 0 \<noteq> None then (the (objStoreHandler ! 0), s)
      else case Option.bind chUnit cdObjectStore of
          Some h \<Rightarrow> (h, s)
        | None \<Rightarrow> hoNewAWS ho s)"

definition ConnectWithResourceHost ::
  "'w Env \<Rightarrow> ('h, 's) HandlerOps \<Rightarrow> Channel \<Rightarrow> 'h option list \<Rightarrow> 'h ChannelDescriptor \<Rightarrow> 's \<Rightarrow> 'w \<Rightarrow>
   go_error option outcome \<times> 'h ChannelDescriptor \<times> 's \<times> 'w" where
  "ConnectWithResourceHost e ho chn objStoreHandler desc s w =
     (case pickHandler ho objStoreHandler (desc_Get desc (chName chn)) s of
        (storageHandler, s) \<Rightarrow>
         (case (case SecretRef (chSpec chn) of
                  None \<Rightarrow> (Inr ([], [], []), w)
                | Some ref \<Rightarrow> getCredentialFromKube e (Some ref) (chNamespace chn) w) of
            (Inl er, w) \<Rightarrow> (Return (Some er), desc, s, w)
          | (Inr (accessID, secretAccessKey, region), w) \<Rightarrow>
             (case updateChannelRegistry ho chn accessID secretAccessKey region storageHandler desc s of
                (r, desc, s) \<Rightarrow> (r, desc, s, w))))"

section \<open>Handlers on a heap\<close>

definition awsOps :: "('c, 'cfg, 's) S3Lib \<Rightarrow> (nat, ('c, 's) StoreHeap) HandlerOps" where
  "awsOps z = ObjectStore.extend (awsStore z) (HandlerOps.fields
     (\<lambda>sh. (length (shHandlers sh), sh\<lparr>shHandlers := shHandlers sh @ [\<lparr>awsClient = None\<rparr>]\<rparr>)))"

lemma awsOps_sel [simp]:
  "hoInit (awsOps z) = hoInit (awsStore z)" "hoExists (awsOps z) = hoExists (awsStore z)"
  "hoNewAWS (awsOps z) sh = (length (shHandlers sh), sh\<lparr>shHandlers := shHandlers sh @ [\<lparr>awsClient = None\<rparr>]\<rparr>)"
  by (simp_all add: awsOps_def ObjectStore.defs HandlerOps.defs)

section \<open>How a path is split\<close>

lemma slice_prefix: "slice_expr (u @ v) 0 (int (length u)) = Return u"
  by (simp add: slice_expr_def)

lemma slice_rest: "slice_expr (u @ c # v) (int (length u) + 1) (int (length (u @ c # v))) = Return v"
  by (simp add: slice_expr_def nat_add_distrib)

text \<open>The part after an optional trailing slash was cut off.\<close>

definition trimmed :: "string \<Rightarrow> string" where
  "trimmed p = (if strings_HasSuffix p ''/'' then butlast p else p)"

lemma trim_slice:
  "(if strings_HasSuffix p ''/'' then slice_expr p 0 (int (length p) - 1) else Return p) = Return (trimmed p)"
proof (cases "strings_HasSuffix p ''/''")
  case True
  then obtain u where "p = u @ ''/''" by (auto simp: strings_HasSuffix_iff)
  then show ?thesis using True slice_prefix [of u "''/''"] by (simp add: trimmed_def)
qed (simp add: trimmed_def)

lemma parse_split:
  assumes "p \<noteq> []" and "trimmed p = ep @ ''/'' @ b" and "CHR ''/'' \<notin> set b"
  shows "parseBucketAndEndpoint p = Return (ep, b)"
  using assms slice_prefix [of ep "''/'' @ b"] slice_rest [of ep "CHR ''/''" b]
  by (simp add: parseBucketAndEndpoint_def trim_slice strings_LastIndex_append Let_def)

lemma parse_panic:
  assumes "p \<noteq> []" and "CHR ''/'' \<notin> set (trimmed p)"
  shows "parseBucketAndEndpoint p = Panic SliceBounds"
  using assms by (simp add: parseBucketAndEndpoint_def trim_slice strings_LastIndex_absent slice_expr_def Let_def)

lemma trimmed_simps:
  "CHR ''/'' \<notin> set b \<Longrightarrow> b \<noteq> [] \<Longrightarrow> trimmed (u @ b) = u @ b"
  "trimmed (u @ ''/'') = u"
proof -
  show "trimmed (u @ ''/'') = u" by (simp add: trimmed_def strings_HasSuffix_iff)
  assume b: "CHR ''/'' \<notin> set b" "b \<noteq> []"
  then have "last (u @ b) \<noteq> CHR ''/''" by (metis last_appendR last_in_set)
  then have "\<not> strings_HasSuffix (u @ b) ''/''" by (metis strings_HasSuffix_iff last_snoc)
  then show "trimmed (u @ b) = u @ b" by (simp add: trimmed_def)
qed

lemma parse_complete: "parseBucketAndEndpoint p = Return (ep, b) \<Longrightarrow> p \<noteq> [] \<Longrightarrow> trimmed p = ep @ ''/'' @ b \<and> CHR ''/'' \<notin> set b"
proof -
  assume run: "parseBucketAndEndpoint p = Return (ep, b)" and p: "p \<noteq> []"
  then have "CHR ''/'' \<in> set (trimmed p)" using parse_panic by fastforce
  then obtain u v where uv: "trimmed p = u @ CHR ''/'' # v" "CHR ''/'' \<notin> set v" by (metis split_list_last)
  with parse_split [OF p, of u v] run show ?thesis by simp
qed

section \<open>What connecting does to the registry\<close>

lemma updateRegistry_result:
  assumes "updateChannelRegistry ho ch i k rg h desc s = (r, desc', s')"
  shows "r \<noteq> Return None \<Longrightarrow> desc' = desc"
    and "r = Return None \<Longrightarrow> \<exists>ep b s1. parseBucketAndEndpoint (Pathname (chSpec ch)) = Return (ep, b) \<and>
      hoInit ho h ep i k rg s = (Return None, s1) \<and> hoExists ho h b s1 = (Return None, s') \<and>
      desc' = desc_Put desc (chName ch) \<lparr>cdChannel = ch, cdBucket = b, cdObjectStore = Some h\<rparr>"
  using assms unfolding updateChannelRegistry_def
  by (auto split: outcome.splits prod.splits option.splits)

text \<open>The credentials a successful connection used.\<close>

definition credentials_of :: "'w Env \<Rightarrow> Channel \<Rightarrow> 'w \<Rightarrow> (go_error + string \<times> string \<times> string) \<times> 'w" where
  "credentials_of e ch w = (case SecretRef (chSpec ch) of
     None \<Rightarrow> (Inr ([], [], []), w) | Some ref \<Rightarrow> getCredentialFromKube e (Some ref) (chNamespace ch) w)"

lemma Connect_result:
  assumes run: "ConnectWithResourceHost e ho ch hs desc s w = (r, desc', s', w')"
  shows "r \<noteq> Return None \<Longrightarrow> desc' = desc"
    and "r = Return None \<Longrightarrow> \<exists>h s1 i k rg s2 ep b. pickHandler ho hs (desc_Get desc (chName ch)) s = (h, s1) \<and>
      credentials_of e ch w = (Inr (i, k, rg), w') \<and> parseBucketAndEndpoint (Pathname (chSpec ch)) = Return (ep, b) \<and>
      hoInit ho h ep i k rg s1 = (Return None, s2) \<and> hoExists ho h b s2 = (Return None, s') \<and>
      desc' = desc_Put desc (chName ch) \<lparr>cdChannel = ch, cdBucket = b, cdObjectStore = Some h\<rparr>"
proof -
  obtain h s1 where h: "pickHandler ho hs (desc_Get desc (chName ch)) s = (h, s1)" by fastforce
  obtain c w1 where c: "credentials_of e ch w = (c, w1)" by fastforce
  have run': "(case c of Inl er \<Rightarrow> (Return (Some er), desc, s1, w1)
      | Inr (i, k, rg) \<Rightarrow> (case updateChannelRegistry ho ch i k rg h desc s1 of (r, desc, s) \<Rightarrow> (r, desc, s, w1))) = (r, desc', s', w')"
    using run h c unfolding ConnectWithResourceHost_def credentials_of_def by simp
  show "r \<noteq> Return None \<Longrightarrow> desc' = desc"
    using run' by (auto split: sum.splits prod.splits dest: updateRegistry_result(1))
  assume ok: "r = Return None"
  obtain i k rg where cr: "c = Inr (i, k, rg)" using run' ok by (cases c) (auto split: prod.splits)
  with run' have "updateChannelRegistry ho ch i k rg h desc s1 = (r, desc', s')" "w' = w1"
    by (auto split: prod.splits)
  from updateRegistry_result(2) [OF this(1) ok] this(2) h c cr
  show "\<exists>h s1 i k rg s2 ep b. pickHandler ho hs (desc_Get desc (chName ch)) s = (h, s1) \<and>
      credentials_of e ch w = (Inr (i, k, rg), w') \<and> parseBucketAndEndpoint (Pathname (chSpec ch)) = Return (ep, b) \<and>
      hoInit ho h ep i k rg s1 = (Return None, s2) \<and> hoExists ho h b s2 = (Return None, s') \<and>
      desc' = desc_Put desc (chName ch) \<lparr>cdChannel = ch, cdBucket = b, cdObjectStore = Some h\<rparr>" by blast
qed

section \<open>When a connection succeeds\<close>

definition handler_of :: "'h ChannelDescriptor \<Rightarrow> string \<Rightarrow> 'h option" where
  "handler_of desc n = Option.bind (desc_Get desc n) cdObjectStore"

text \<open>The handler that is wanted: an injected one comes first, then the one of the registry, then a new one.\<close>

fun wanted_handler :: "'h option list \<Rightarrow> 'h option \<Rightarrow> ('s \<Rightarrow> 'h \<times> 's) \<Rightarrow> 's \<Rightarrow> 'h \<times> 's" where
  "wanted_handler (Some h # _) _ new s = (h, s)"
| "wanted_handler _ (Some h) new s = (h, s)"
| "wanted_handler _ None new s = new s"

lemma pickHandler_wanted:
  "pickHandler ho hs (desc_Get desc n) s = wanted_handler hs (handler_of desc n) (hoNewAWS ho) s"
  by (cases hs; cases "hd hs"; cases "handler_of desc n") (auto simp: pickHandler_def handler_of_def)

text \<open>A path stands for an endpoint and a bucket; the empty one for two empty strings.\<close>

definition path_parts :: "string \<Rightarrow> string \<Rightarrow> string \<Rightarrow> bool" where
  "path_parts p ep b \<longleftrightarrow> (if p = [] then ep = [] \<and> b = [] else trimmed p = ep @ ''/'' @ b \<and> CHR ''/'' \<notin> set b)"

lemma parse_parts: "parseBucketAndEndpoint p = Return (ep, b) \<longleftrightarrow> path_parts p ep b"
proof (cases "p = []")
  case True
  then show ?thesis by (auto simp: path_parts_def parseBucketAndEndpoint_def)
next
  case False
  then show ?thesis using parse_split [OF False, of ep b] parse_complete [of p ep b] by (auto simp: path_parts_def)
qed

text \<open>The credentials in a secret: the first of the known keys that is set.\<close>

definition first_set :: "DataObject \<Rightarrow> string list \<Rightarrow> string" where
  "first_set d ks = (case filter (\<lambda>v. v \<noteq> []) (map (data_str d) ks) of [] \<Rightarrow> [] | v # _ \<Rightarrow> v)"

definition secret_login :: "'w Env \<Rightarrow> Channel \<Rightarrow> 'w \<Rightarrow> string \<times> string \<times> string \<Rightarrow> 'w \<Rightarrow> bool" where
  "secret_login e ch w login w' \<longleftrightarrow>
     (case SecretRef (chSpec ch) of
        None \<Rightarrow> login = ([], [], []) \<and> w' = w
      | Some ref \<Rightarrow> \<exists>d. kGet (dataObjects e srtGvk)
            (nskey (if refNamespace ref = [] then chNamespace ch else refNamespace ref) (refName ref)) w = (Inr d, w') \<and>
          login = (first_set d [''AccessKeyID'', ''username'', ''user''],
            first_set d [''SecretAccessKey'', ''password'', ''accessToken''], first_set d [''Region'']))"

lemma ParseSecretInfo_first:
  "ParseSecretInfo (Some d) = (first_set d [''AccessKeyID'', ''username'', ''user''],
     first_set d [''SecretAccessKey'', ''password'', ''accessToken''], first_set d [''Region''])"
  by (simp add: ParseSecretInfo_def first_set_def Let_def SecretMapKeyAccessKeyID_def USERNAME_def
      SecretMapKeySecretAccessKey_def PASSWORD_def SecretMapKeyRegion_def)

lemma credentials_login: "credentials_of e ch w = (Inr login, w') \<longleftrightarrow> secret_login e ch w login w'"
  by (cases "SecretRef (chSpec ch)")
    (auto simp: credentials_of_def secret_login_def getCredentialFromKube_def Let_def ParseSecretInfo_first
      split: prod.splits sum.splits)

text \<open>Every step of a connection succeeds, in this order.\<close>

definition connects ::
  "'w Env \<Rightarrow> ('h, 's) HandlerOps \<Rightarrow> Channel \<Rightarrow> 'h option list \<Rightarrow> 'h ChannelDescriptor \<Rightarrow> 's \<Rightarrow> 'w \<Rightarrow>
   'h \<Rightarrow> string \<Rightarrow> 's \<Rightarrow> 'w \<Rightarrow> bool" where
  "connects e ho ch hs desc s w h b s' w' \<longleftrightarrow> (\<exists>s1 s2 ep i k rg.
     wanted_handler hs (handler_of desc (chName ch)) (hoNewAWS ho) s = (h, s1) \<and>
     secret_login e ch w (i, k, rg) w' \<and> path_parts (Pathname (chSpec ch)) ep b \<and>
     hoInit ho h ep i k rg s1 = (Return None, s2) \<and> hoExists ho h b s2 = (Return None, s'))"

lemma Connect_connects:
  assumes run: "ConnectWithResourceHost e ho ch hs desc s w = (r, desc', s', w')"
  shows "r \<noteq> Return None \<Longrightarrow> desc' = desc"
    and "r = Return None \<Longrightarrow> \<exists>h b. connects e ho ch hs desc s w h b s' w' \<and>
      desc' = desc_Put desc (chName ch) \<lparr>cdChannel = ch, cdBucket = b, cdObjectStore = Some h\<rparr>"
    and "connects e ho ch hs desc s w h b t u \<Longrightarrow> r = Return None \<and> s' = t \<and> w' = u \<and>
      desc' = desc_Put desc (chName ch) \<lparr>cdChannel = ch, cdBucket = b, cdObjectStore = Some h\<rparr>"
proof -
  show "r \<noteq> Return None \<Longrightarrow> desc' = desc" by (rule Connect_result(1) [OF run])
  show "\<exists>h b. connects e ho ch hs desc s w h b s' w' \<and>
      desc' = desc_Put desc (chName ch) \<lparr>cdChannel = ch, cdBucket = b, cdObjectStore = Some h\<rparr>" if "r = Return None"
    using Connect_result(2) [OF run that] unfolding pickHandler_wanted credentials_login parse_parts connects_def by blast
  assume "connects e ho ch hs desc s w h b t u"
  then obtain s1 s2 ep i k rg where
    "pickHandler ho hs (desc_Get desc (chName ch)) s = (h, s1)" "credentials_of e ch w = (Inr (i, k, rg), u)"
    "parseBucketAndEndpoint (Pathname (chSpec ch)) = Return (ep, b)"
    "hoInit ho h ep i k rg s1 = (Return None, s2)" "hoExists ho h b s2 = (Return None, t)"
    unfolding connects_def credentials_login [symmetric] parse_parts [symmetric] pickHandler_wanted [symmetric] by blast
  then show "r = Return None \<and> s' = t \<and> w' = u \<and>
      desc' = desc_Put desc (chName ch) \<lparr>cdChannel = ch, cdBucket = b, cdObjectStore = Some h\<rparr>"
    using run by (auto simp: ConnectWithResourceHost_def credentials_of_def updateChannelRegistry_def)
qed

section \<open>Handlers do not interfere\<close>

text \<open>A connection works on its own handler only.\<close>

definition heap_step :: "nat \<Rightarrow> ('c, 's) StoreHeap \<Rightarrow> ('c, 's) StoreHeap \<Rightarrow> bool" where
  "heap_step a sh sh' \<longleftrightarrow> length (shHandlers sh') = length (shHandlers sh) \<and>
     (\<forall>j. j \<noteq> a \<longrightarrow> shHandlers sh' ! j = shHandlers sh ! j)"

lemma heap_step_refl [simp]: "heap_step a sh sh"
  by (simp add: heap_step_def)

lemma heap_step_trans: "heap_step a s1 s2 \<Longrightarrow> heap_step a s2 s3 \<Longrightarrow> heap_step a s1 s3"
  by (simp add: heap_step_def)

lemma aws_heap_step:
  "hoInit (awsOps z) a ep i k r sh = (x, sh') \<Longrightarrow> heap_step a sh sh'"
  "hoExists (awsOps z) a b sh = (x, sh') \<Longrightarrow> heap_step a sh sh'"
  by (auto simp: awsStore_def at_handler_def heap_step_def split: if_splits prod.splits)

lemma updateRegistry_heap:
  assumes "updateChannelRegistry (awsOps z) ch i k rg a desc sh = (r, desc', sh')"
  shows "heap_step a sh sh'"
proof (cases "parseBucketAndEndpoint (Pathname (chSpec ch))")
  case (Panic p)
  then show ?thesis using assms by (simp add: updateChannelRegistry_def)
next
  case (Return eb)
  obtain ep b where eb: "eb = (ep, b)" by fastforce
  obtain r1 s1 where i: "hoInit (awsOps z) a ep i k rg sh = (r1, s1)" by fastforce
  obtain r2 s2 where x: "hoExists (awsOps z) a b s1 = (r2, s2)" by fastforce
  have "sh' = s1 \<or> sh' = s2"
    using assms Return eb i x by (auto simp: updateChannelRegistry_def split: outcome.splits option.splits)
  then show ?thesis using aws_heap_step(1) [OF i] aws_heap_step(2) [OF x] heap_step_trans by blast
qed

text \<open>Every registered handler is allocated, and no two channels share one.\<close>

definition separate :: "nat ChannelDescriptor \<Rightarrow> ('c, 's) StoreHeap \<Rightarrow> bool" where
  "separate desc sh \<longleftrightarrow> (\<forall>n a. handler_of desc n = Some a \<longrightarrow> a < length (shHandlers sh)) \<and>
     (\<forall>n m a. handler_of desc n = Some a \<and> handler_of desc m = Some a \<longrightarrow> n = m)"

lemma separate_heap_step: "separate desc sh \<Longrightarrow> heap_step a sh sh' \<Longrightarrow> separate desc sh'"
  by (simp add: separate_def heap_step_def)

lemma handler_of_put [simp]:
  "handler_of (desc_Put desc n d) m = (if m = n then cdObjectStore d else handler_of desc m)"
  by (simp add: handler_of_def desc.lookup_insert)

text \<open>Without an injected handler, the one of the registry or a new one is taken.\<close>

lemma pick_own:
  assumes "pickHandler (awsOps z) [] (desc_Get desc n) sh = (a, sh1)" and "separate desc sh"
  shows "separate desc sh1" and "a < length (shHandlers sh1)" and "m \<noteq> n \<Longrightarrow> handler_of desc m \<noteq> Some a"
    and "j < length (shHandlers sh) \<Longrightarrow> shHandlers sh1 ! j = shHandlers sh ! j" and "length (shHandlers sh) \<le> length (shHandlers sh1)"
  using assms
  by (auto simp: pickHandler_def separate_def handler_of_def nth_append split: option.splits)
    (metis less_SucI | metis less_irrefl)+

lemma Connect_separate:
  assumes run: "ConnectWithResourceHost e (awsOps z) ch [] desc sh w = (r, desc', sh', w')" and sep: "separate desc sh"
  shows "separate desc' sh'"
    and "m \<noteq> chName ch \<Longrightarrow> handler_of desc m = Some a \<Longrightarrow>
      handler_of desc' m = Some a \<and> shHandlers sh' ! a = shHandlers sh ! a"
proof -
  obtain h sh1 where h: "pickHandler (awsOps z) [] (desc_Get desc (chName ch)) sh = (h, sh1)" by fastforce
  note p = pick_own [OF h sep]
  have step: "heap_step h sh1 sh'"
    using run h unfolding ConnectWithResourceHost_def
    by (auto split: prod.splits sum.splits dest: updateRegistry_heap)
  have reg: "desc' = desc \<or> (\<exists>d. cdObjectStore d = Some h \<and> desc' = desc_Put desc (chName ch) d)"
  proof (cases "r = Return None")
    case True
    from Connect_result(2) [OF run True] h obtain b where
      "desc' = desc_Put desc (chName ch) \<lparr>cdChannel = ch, cdBucket = b, cdObjectStore = Some h\<rparr>" by auto
    then show ?thesis by (intro disjI2 exI conjI) simp_all
  next
    case False
    then show ?thesis using Connect_result(1) [OF run] by simp
  qed
  have len: "h < length (shHandlers sh')" using step p(2) by (simp add: heap_step_def)
  show "separate desc' sh'"
    using reg separate_heap_step [OF p(1) step] len p(3) by (auto simp: separate_def split: if_splits)
  assume m: "m \<noteq> chName ch" "handler_of desc m = Some a"
  then have "a < length (shHandlers sh)" "a \<noteq> h" using sep p(3) by (auto simp: separate_def)
  then have "shHandlers sh' ! a = shHandlers sh ! a" using step p(4) by (simp add: heap_step_def)
  then show "handler_of desc' m = Some a \<and> shHandlers sh' ! a = shHandlers sh ! a" using reg m by auto
qed

text \<open>The handler that is registered under the name is taken again, and connected anew.\<close>

lemma Connect_again:
  assumes run: "ConnectWithResourceHost e (awsOps z) ch [] desc sh w = (r, desc', sh', w')"
    and a: "handler_of desc (chName ch) = Some a"
  shows "handler_of desc' (chName ch) = Some a"
    and "r = Return None \<Longrightarrow> \<exists>ep b i k rg. path_parts (Pathname (chSpec ch)) ep b \<and> secret_login e ch w (i, k, rg) w' \<and>
      shHandlers sh' ! a = snd (InitObjectStoreConnection z ep i k rg (shHandlers sh ! a))"
proof -
  have ok: "\<exists>ep b i k rg s2. path_parts (Pathname (chSpec ch)) ep b \<and> secret_login e ch w (i, k, rg) w' \<and>
      hoInit (awsOps z) a ep i k rg sh = (Return None, s2) \<and> hoExists (awsOps z) a b s2 = (Return None, sh') \<and>
      handler_of desc' (chName ch) = Some a" if nil: "r = Return None"
  proof -
    obtain h b where c: "connects e (awsOps z) ch [] desc sh w h b sh' w'"
        "desc' = desc_Put desc (chName ch) \<lparr>cdChannel = ch, cdBucket = b, cdObjectStore = Some h\<rparr>"
      using Connect_connects(2) [OF run nil] by blast
    then have "h = a" using a by (auto simp: connects_def)
    moreover obtain s2 ep i k rg where "secret_login e ch w (i, k, rg) w'" "path_parts (Pathname (chSpec ch)) ep b"
        "hoInit (awsOps z) h ep i k rg sh = (Return None, s2)" "hoExists (awsOps z) h b s2 = (Return None, sh')"
      using c(1) a by (auto simp: connects_def)
    ultimately show ?thesis using c(2) by (intro exI conjI) simp_all
  qed
  then show "handler_of desc' (chName ch) = Some a"
    using Connect_connects(1) [OF run] a by (cases "r = Return None") auto
  assume "r = Return None"
  with ok obtain ep b i k rg s2 where 1: "path_parts (Pathname (chSpec ch)) ep b" "secret_login e ch w (i, k, rg) w'"
    and i: "hoInit (awsOps z) a ep i k rg sh = (Return None, s2)" and x: "hoExists (awsOps z) a b s2 = (Return None, sh')" by blast
  have "shHandlers s2 ! a = snd (InitObjectStoreConnection z ep i k rg (shHandlers sh ! a))"
    using i by (auto simp: awsStore_def split: if_splits prod.splits)
  moreover have "shHandlers sh' = shHandlers s2"
    using x by (auto simp: awsStore_def at_handler_def split: if_splits prod.splits)
  ultimately show "\<exists>ep b i k rg. path_parts (Pathname (chSpec ch)) ep b \<and> secret_login e ch w (i, k, rg) w' \<and>
      shHandlers sh' ! a = snd (InitObjectStoreConnection z ep i k rg (shHandlers sh ! a))" using 1 by auto
qed

section \<open>Properties\<close>

text \<open>
  C14. Connecting a channel succeeds exactly when every step does: the handler is the injected one, else
  the one registered under the channel's name, else a new one; the credentials come from the channel's
  secret; its path splits into endpoint and bucket; the handler connects to the endpoint and then finds
  the bucket. Exactly then the entry under the channel's name holds the channel, the bucket and the
  handler, otherwise the registry is unchanged. Other entries always stay.
\<close>

theorem Connect_registers:
  assumes "ConnectWithResourceHost e ho ch hs desc s w = (r, desc', s', w')"
  shows "(r = Return None \<longleftrightarrow> (\<exists>h b t u. connects e ho ch hs desc s w h b t u)) \<and>
    (\<forall>h b t u. connects e ho ch hs desc s w h b t u \<longrightarrow> s' = t \<and> w' = u \<and>
      desc_Get desc' (chName ch) = Some \<lparr>cdChannel = ch, cdBucket = b, cdObjectStore = Some h\<rparr>) \<and>
    (r \<noteq> Return None \<longrightarrow> desc' = desc) \<and> (\<forall>n. n \<noteq> chName ch \<longrightarrow> desc_Get desc' n = desc_Get desc n)"
proof (cases "r = Return None")
  case True
  from Connect_connects(2) [OF assms True] obtain h b where c: "connects e ho ch hs desc s w h b s' w'"
      "desc' = desc_Put desc (chName ch) \<lparr>cdChannel = ch, cdBucket = b, cdObjectStore = Some h\<rparr>" by blast
  have "s' = t \<and> w' = u \<and> desc_Get desc' (chName ch) = Some \<lparr>cdChannel = ch, cdBucket = b, cdObjectStore = Some h\<rparr>"
    if "connects e ho ch hs desc s w h b t u" for h b t u
    using Connect_connects(3) [OF assms that] by (simp add: desc.lookup_insert)
  moreover have "\<forall>n. n \<noteq> chName ch \<longrightarrow> desc_Get desc' n = desc_Get desc n" by (simp add: c(2) desc.lookup_insert)
  ultimately show ?thesis using True c(1) by blast
next
  case False
  then show ?thesis using Connect_connects(1,3) [OF assms] by blast
qed


definition ex_bucket :: Channel where
  "ex_bucket = ex_channel\<lparr>chSpec := (chSpec ex_channel)\<lparr>Pathname := ''http://minio/b'', SecretRef := None\<rparr>\<rparr>"

definition ex_samename :: Channel where
  "ex_samename = ex_bucket\<lparr>chMeta := plain_meta ''ops'' ''charts''\<rparr>"

definition ex_heap :: "(unit, (string \<times> (string \<times> bytes) list) list) StoreHeap" where
  "ex_heap = \<lparr>shHandlers = [], shStore = [(''b'', [])]\<rparr>"

lemma ex_connect:
  "ConnectWithResourceHost memEnv (awsOps memS3) ex_bucket [] CreateObjectStorageChannelDescriptor ex_heap empty_mem =
   (Return None, desc_Put CreateObjectStorageChannelDescriptor ''charts''
      \<lparr>cdChannel = ex_bucket, cdBucket = ''b'', cdObjectStore = Some 0\<rparr>,
    \<lparr>shHandlers = [\<lparr>awsClient = Some ()\<rparr>], shStore = [(''b'', [])]\<rparr>, empty_mem)"
proof -
  have "parseBucketAndEndpoint (Pathname (chSpec ex_bucket)) = Return (''http://minio'', ''b'')" by code_simp
  then show ?thesis
    by (simp add: ConnectWithResourceHost_def pickHandler_def updateChannelRegistry_def awsStore_def at_handler_def InitObjectStoreConnection_def
        aws_Exists_def with_client_def memS3_def ex_bucket_def ex_channel_def ex_heap_def desc.lookup_empty Let_def)
qed

theorem Connect_registers_witness:
  "\<exists>h b t u. connects memEnv (awsOps memS3) ex_bucket [] CreateObjectStorageChannelDescriptor ex_heap empty_mem h b t u"
  using Connect_registers [OF ex_connect] by simp

text \<open>
  C15. As long as no handler is injected, every channel name has a handler of its own: connecting a
  channel does not touch the handlers of other names, whether it succeeds, fails or panics. The
  namespace plays no part: a channel whose name is registered already, also one of another namespace,
  takes the registered handler over, and a successful connection connects it anew, to the endpoint and
  with the credentials of the new channel.
\<close>

theorem Connect_keeps_handlers_apart:
  assumes "ConnectWithResourceHost e (awsOps z) ch [] desc sh w = (r, desc', sh', w')" and "separate desc sh"
  shows "separate desc' sh' \<and>
    (\<forall>m a. m \<noteq> chName ch \<longrightarrow> handler_of desc m = Some a \<longrightarrow>
      handler_of desc' m = Some a \<and> shHandlers sh' ! a = shHandlers sh ! a) \<and>
    (\<forall>a. handler_of desc (chName ch) = Some a \<longrightarrow> handler_of desc' (chName ch) = Some a \<and>
      (r = Return None \<longrightarrow> (\<exists>ep b i k rg. path_parts (Pathname (chSpec ch)) ep b \<and> secret_login e ch w (i, k, rg) w' \<and>
         shHandlers sh' ! a = snd (InitObjectStoreConnection z ep i k rg (shHandlers sh ! a)))))"
proof (intro conjI allI impI)
  show "separate desc' sh'" by (rule Connect_separate(1) [OF assms])
  show "handler_of desc' m = Some a" "shHandlers sh' ! a = shHandlers sh ! a"
    if "m \<noteq> chName ch" "handler_of desc m = Some a" for m a
    using Connect_separate(2) [OF assms that] by simp_all
qed (use Connect_again [OF assms(1)] in blast)+

text \<open>A channel of the same name in another namespace takes the handler of the first one over.\<close>

theorem Connect_keeps_handlers_apart_witness:
  "chNamespace ex_bucket \<noteq> chNamespace ex_samename \<and>
   (\<exists>desc' s'. ConnectWithResourceHost memEnv (awsOps memS3) ex_bucket [] CreateObjectStorageChannelDescriptor ex_heap empty_mem =
       (Return None, desc', s', empty_mem) \<and> separate desc' s' \<and> handler_of desc' ''charts'' = Some 0 \<and>
     (\<exists>r d2 s2 w2. ConnectWithResourceHost memEnv (awsOps memS3) ex_samename [] desc' s' empty_mem = (r, d2, s2, w2) \<and>
        handler_of d2 ''charts'' = Some 0))"
proof -
  let ?d = "desc_Put CreateObjectStorageChannelDescriptor ''charts''
      \<lparr>cdChannel = ex_bucket, cdBucket = ''b'', cdObjectStore = Some (0::nat)\<rparr>"
  let ?s = "\<lparr>shHandlers = [\<lparr>awsClient = Some ()\<rparr>], shStore = [(''b'', [])]\<rparr>"
  have "separate CreateObjectStorageChannelDescriptor ex_heap"
    by (simp add: separate_def handler_of_def desc.lookup_empty)
  note sep = conjunct1 [OF Connect_keeps_handlers_apart [OF ex_connect this]]
  obtain r d2 s2 w2 where run: "ConnectWithResourceHost memEnv (awsOps memS3) ex_samename [] ?d ?s empty_mem = (r, d2, s2, w2)"
    by (rule prod_cases4)
  have names: "chName ex_samename = ''charts''" "handler_of ?d ''charts'' = Some 0" "chNamespace ex_bucket \<noteq> chNamespace ex_samename"
    by (simp_all add: ex_samename_def ex_bucket_def ex_channel_def)
  from Connect_keeps_handlers_apart [OF run sep] names have "handler_of d2 ''charts'' = Some 0" by simp
  with ex_connect sep names run show ?thesis by blast
qed

text \<open>
  C16. A path made of an endpoint, a slash and a bucket name, with or without a slash at the end, is
  split into the two again, and every split the code returns for a path is of this form.
\<close>

theorem bucket_path_split:
  assumes "CHR ''/'' \<notin> set b" and "b \<noteq> []"
  shows "parseBucketAndEndpoint (ep @ ''/'' @ b) = Return (ep, b) \<and>
    parseBucketAndEndpoint (ep @ ''/'' @ b @ ''/'') = Return (ep, b) \<and>
    (parseBucketAndEndpoint p = Return (ep, b) \<longrightarrow> p \<in> {ep @ ''/'' @ b, ep @ ''/'' @ b @ ''/''})"
proof -
  have "trimmed (ep @ ''/'' @ b) = ep @ ''/'' @ b" "trimmed (ep @ ''/'' @ b @ ''/'') = ep @ ''/'' @ b"
    using trimmed_simps(1) [OF assms, of "ep @ ''/''"] trimmed_simps(2) [of "ep @ ''/'' @ b"] by simp_all
  moreover have "p \<in> {ep @ ''/'' @ b, ep @ ''/'' @ b @ ''/''}" if run: "parseBucketAndEndpoint p = Return (ep, b)"
  proof -
    have "p \<noteq> []" using run assms(2) by (auto simp: parseBucketAndEndpoint_def)
    then have "trimmed p = ep @ ''/'' @ b" using parse_complete [OF run] by blast
    then show ?thesis by (auto simp: trimmed_def strings_HasSuffix_iff split: if_splits)
  qed
  ultimately show ?thesis using parse_split assms(1) by simp
qed

theorem bucket_path_split_witness:
  "parseBucketAndEndpoint ''http://minio:9000/bucket'' = Return (''http://minio:9000'', ''bucket'') \<and>
   parseBucketAndEndpoint ''http://minio:9000/bucket/'' = Return (''http://minio:9000'', ''bucket'')"
  using bucket_path_split [of "''bucket''" "''http://minio:9000''"] by simp

text \<open>
  C31. A path that has no slash once a slash at its end is cut off makes the code slice with index -1
  and panic, and no other path does.
\<close>

theorem bucket_path_panics:
  "(\<exists>x. parseBucketAndEndpoint p = Panic x) = (p \<noteq> [] \<and> CHR ''/'' \<notin> set (trimmed p))"
proof (cases "p \<noteq> [] \<and> CHR ''/'' \<in> set (trimmed p)")
  case True
  then obtain u v where "trimmed p = u @ ''/'' @ v" "CHR ''/'' \<notin> set v" by (metis split_list_last append_Cons append_Nil)
  with parse_split [of p u v] True show ?thesis by simp
next
  case False
  then show ?thesis using parse_panic [of p] by (auto simp: parseBucketAndEndpoint_def)
qed

end
