(* ===== verification/Manager_Startup.thy ===== *)
theory Manager_Startup
  imports Cert_Mem Tls_Config Zap_Flags Channel_Descriptor
begin

text \<open>
  The start of the process: the command-line options (\<open>cmd/manager/exec/options.go\<close>), the
  detection of the cluster API (\<open>pkg/utils/placement.go\<close>), the registration of schemes and of the
  controller (\<open>pkg/apis/apis.go\<close>, \<open>pkg/controller\<close>) and \<open>RunManager\<close> with its ways out
  (\<open>cmd/manager/exec/manager.go\<close>). Constructors of third-party objects are the record
  \<open>Platform\<close>; the repository's own steps are the definitions of the other theories. A step ends
  with a value, with \<open>os.Exit\<close> or with a panic. The event broadcaster, signal handling and log
  lines are left out. The task that creates the webhook's objects runs beside the manager: it is
  part of the result, with \<open>wireUpTask\<close> as its body.
\<close>

section \<open>Options\<close>

text \<open>Durations in nanoseconds.\<close>

record ChannelCMDOptions =
  MetricsAddr :: string
  KubeConfig :: string
  SyncInterval :: go_int
  LeaderElect :: bool
  Debug :: bool
  LogLevel :: bool
  LeaderElectionLeaseDuration :: int
  LeaderElectionRenewDeadline :: int
  LeaderElectionRetryPeriod :: int

definition defaultSyncInterval :: go_int where
  "defaultSyncInterval = 60"

definition default_options :: ChannelCMDOptions where
  "default_options = \<lparr>MetricsAddr = [], KubeConfig = [], SyncInterval = defaultSyncInterval, LeaderElect = False,
     Debug = False, LogLevel = False, LeaderElectionLeaseDuration = 137 * 1000000000,
     LeaderElectionRenewDeadline = 107 * 1000000000, LeaderElectionRetryPeriod = 26 * 1000000000\<rparr>"

datatype flag_val = StringVal string | IntVal go_int | BoolVal bool | DurationVal int

record Flag =
  flName :: string
  flDefValue :: flag_val
  flHidden :: bool

abbreviation new_flag :: "string \<Rightarrow> flag_val \<Rightarrow> Flag" where
  "new_flag n v \<equiv> \<lparr>flName = n, flDefValue = v, flHidden = False\<rparr>"

text \<open>Declaring a flag also sets its variable to the default.\<close>

definition ProcessFlags :: "ChannelCMDOptions \<Rightarrow> Flag list \<Rightarrow> ChannelCMDOptions \<times> Flag list" where
  "ProcessFlags options flags =
     (options\<lparr>Debug := False, LogLevel := False\<rparr>,
      flags @
       [new_flag ''metrics-addr'' (StringVal (MetricsAddr options)),
        new_flag ''kubeconfig'' (StringVal (KubeConfig options)),
        new_flag ''sync-interval'' (IntVal (SyncInterval options)),
        new_flag ''debug'' (BoolVal False),
        new_flag ''zap-devel'' (BoolVal False),
        new_flag ''leader-election-lease-duration'' (DurationVal (LeaderElectionLeaseDuration options)),
        new_flag ''leader-election-renew-deadline'' (DurationVal (LeaderElectionRenewDeadline options)),
        new_flag ''leader-election-retry-period'' (DurationVal (LeaderElectionRetryPeriod options))])"

definition hidden_klog_flags :: "string list" where
  "hidden_klog_flags = [''log_backtrace_at'', ''add_dir_header'', ''log_dir'', ''log_file_max_size'', ''log_file'',
     ''skip_headers'', ''skip_log_headers'', ''stderrthreshold'', ''vmodule'', ''alsologtostderr'']"

text \<open>\<open>Lookup\<close> gives a pointer into the set, and \<open>nil\<close> for an unknown name.\<close>

definition HidKlogFlag :: "Flag list \<Rightarrow> Flag list" where
  "HidKlogFlag pf = fold (\<lambda>f. map (\<lambda>t. if flName t = f then t\<lparr>flHidden := True\<rparr> else t)) hidden_klog_flags pf"

section \<open>Ways out\<close>

datatype 'a proc = Running 'a | Exited nat | Crashed go_panic

definition exitCode :: nat where
  "exitCode = 1"

definition proc_bind :: "'a proc \<times> 'w \<Rightarrow> ('a \<Rightarrow> 'w \<Rightarrow> 'b proc \<times> 'w) \<Rightarrow> 'b proc \<times> 'w" where
  "proc_bind x f = (case x of
      (Running a, w) \<Rightarrow> f a w
    | (Exited n, w) \<Rightarrow> (Exited n, w)
    | (Crashed p, w) \<Rightarrow> (Crashed p, w))"

definition must :: "(go_error + 'a) \<times> 'w \<Rightarrow> 'a proc \<times> 'w" where
  "must x = (case x of (Inl _, w) \<Rightarrow> (Exited exitCode, w) | (Inr a, w) \<Rightarrow> (Running a, w))"

definition mustNil :: "go_error option \<times> 'w \<Rightarrow> unit proc \<times> 'w" where
  "mustNil x = (case x of (Some _, w) \<Rightarrow> (Exited exitCode, w) | (None, w) \<Rightarrow> (Running (), w))"

section \<open>The platform\<close>

record ManagerOptions =
  moBindAddress :: string
  moLeaderElection :: bool
  moLeaderElectionID :: string
  moLeaderElectionNamespace :: string
  moLeaseDuration :: int
  moRenewDeadline :: int
  moRetryPeriod :: int

text \<open>The dynamic client, by the one call that the operator makes of it.\<close>

type_synonym 'w dynamic_client = "GroupVersionResource \<Rightarrow> 'w \<Rightarrow> (MultiClusterHub list option \<times> api_err option) \<times> 'w"

text \<open>
  The reconciler. Its \<open>scheme\<close> is only passed to \<open>SetControllerReference\<close> and is part of the
  environment, as in \<open>Reconcile\<close>; recorder and logger are left out.
\<close>

record 'w ReconcileChannel =
  rcClient :: "'w Env"
  rcDynamicClient :: "'w dynamic_client"

definition rc_env :: "'w ReconcileChannel \<Rightarrow> 'w Env" where
  "rc_env r = (rcClient r)\<lparr>dynListHubs := rcDynamicClient r\<rparr>"

text \<open>A dynamic client for the same API server makes this the environment that the controller needs.\<close>

lemma rc_env_kube_api:
  assumes "kube_api (rcClient r) st" and "\<And>gvr w h w'. rcDynamicClient r gvr w = (h, w') \<Longrightarrow> st w' = st w"
    and "\<And>gvr w hs w'. gvrResource gvr = ''multiclusterhubs'' \<Longrightarrow> rcDynamicClient r gvr w = ((Some hs, None), w') \<Longrightarrow>
      set hs = ran (clHubs (st w)) \<and> distinct (map (\<lambda>h. key_of_meta (mchMeta h)) hs)"
  shows "kube_api (rc_env r) st"
  using assms unfolding kube_api_def kube_api_axioms_def rc_env_def by simp

record ('w, 'cfg, 'kc, 'm) Platform =
  zap_Build :: "'w \<Rightarrow> go_error option \<times> 'w"
  zap_NewDevelopment :: "'w \<Rightarrow> go_error option \<times> 'w"
  config_GetConfig :: "'w \<Rightarrow> (go_error + 'cfg) \<times> 'w"
  ioutil_ReadFile :: "string \<Rightarrow> 'w \<Rightarrow> (go_error + bytes) \<times> 'w"
  NewClientConfigFromBytes :: "bytes \<Rightarrow> go_error + 'kc"
  ClientConfig :: "'kc \<Rightarrow> go_error + 'cfg"
  Semantic_DeepEqual :: "'cfg \<Rightarrow> 'cfg \<Rightarrow> bool"
  rest_InClusterConfig :: "'w \<Rightarrow> go_error option \<times> 'w"
  ctrl_NewManager :: "'cfg \<Rightarrow> ManagerOptions \<Rightarrow> 'w \<Rightarrow> (go_error + 'm) \<times> 'w"
  dynamic_NewForConfigOrDie :: "'cfg \<Rightarrow> 'w \<Rightarrow> 'w dynamic_client outcome \<times> 'w"
  scheme_Add :: "string \<Rightarrow> 'm \<Rightarrow> 'w \<Rightarrow> go_error option \<times> 'w"
  kubernetes_NewForConfig :: "'cfg \<Rightarrow> 'w \<Rightarrow> go_error option \<times> 'w"
  controller_New :: "string \<Rightarrow> 'w ReconcileChannel \<Rightarrow> 'm \<Rightarrow> 'w \<Rightarrow> go_error option \<times> 'w"
  controller_Watch :: "string \<Rightarrow> 'm \<Rightarrow> 'w \<Rightarrow> go_error option \<times> 'w"
  mgr_GetClient :: "'m \<Rightarrow> 'w Env"
  mgr_GetAPIReader :: "'m \<Rightarrow> 'w Env"
  client_NewFor :: "'cfg \<Rightarrow> 'w \<Rightarrow> (go_error + 'w Env) \<times> 'w"
  os_LookupEnv :: "string \<Rightarrow> string option"
  mgr_Start :: "'m \<Rightarrow> 'w \<Rightarrow> go_error option \<times> 'w"

section \<open>Configuration\<close>

definition GetClientConfig :: "('w, 'cfg, 'kc, 'm) Platform \<Rightarrow> string \<Rightarrow> 'w \<Rightarrow> (go_error + 'cfg) \<times> 'w" where
  "GetClientConfig pl kubeConfigFile w =
     (case ioutil_ReadFile pl (filepath_Clean kubeConfigFile) w of
        (Inl er, w) \<Rightarrow> (Inl er, w)
      | (Inr kubeConfigBytes, w) \<Rightarrow>
         (case NewClientConfigFromBytes pl kubeConfigBytes of
            Inl er \<Rightarrow> (Inl er, w)
          | Inr kubeConfig \<Rightarrow>
             (case ClientConfig pl kubeConfig of
                Inl er \<Rightarrow> (Inl er, w)
              | Inr clientConfig \<Rightarrow> (Inr clientConfig, w))))"

definition getClientConfigFromKubeConfig :: "('w, 'cfg, 'kc, 'm) Platform \<Rightarrow> string \<Rightarrow> 'w \<Rightarrow> (go_error + 'cfg) \<times> 'w" where
  "getClientConfigFromKubeConfig pl kubeconfigFile w =
     (if 0 < length kubeconfigFile then GetClientConfig pl kubeconfigFile w
      else (Inl (NewErr ''no kubeconfig file found''), w))"

text \<open>\<open>cfg\<close>, \<open>inConfig\<close> and \<open>isExternalAPIServer\<close>.\<close>

definition chooseConfig :: "('w, 'cfg, 'kc, 'm) Platform \<Rightarrow> ChannelCMDOptions \<Rightarrow> 'w \<Rightarrow> ('cfg \<times> 'cfg \<times> bool) proc \<times> 'w" where
  "chooseConfig pl options w =
     proc_bind (must (config_GetConfig pl w)) (\<lambda>inConfig w.
     proc_bind (if KubeConfig options \<noteq> []
         then must (case getClientConfigFromKubeConfig pl (KubeConfig options) w of
             (Inl er, w) \<Rightarrow> (Inl er, w) | (Inr c, w) \<Rightarrow> (Inr (Some c), w))
         else (Running None, w)) (\<lambda>outConfig w.
       (Running (case outConfig of
            None \<Rightarrow> (inConfig, inConfig, False)
          | Some oc \<Rightarrow> if \<not> Semantic_DeepEqual pl inConfig oc then (oc, inConfig, True) else (inConfig, inConfig, False)), w)))"

definition chooseLogger :: "('w, 'cfg, 'kc, 'm) Platform \<Rightarrow> ChannelCMDOptions \<Rightarrow> 'w \<Rightarrow> unit proc \<times> 'w" where
  "chooseLogger pl options w =
     (case zap_Build pl w of (er, w) \<Rightarrow>
        mustNil (if LogLevel options then zap_NewDevelopment pl w else (er, w)))"

text \<open>The option of the webhook server: it takes over three fields of the cached settings.\<close>

definition webhookTLSOpt :: "tlsLib \<Rightarrow> tlsVars \<Rightarrow> tlsConfig \<Rightarrow> tlsConfig outcome" where
  "webhookTLSOpt lib v config = map_outcome_bind (GetClusterTLSConfig lib v)
     (\<lambda>c. Return (config\<lparr>MinVersion := MinVersion c, CipherSuites := CipherSuites c, CurvePreferences := CurvePreferences c\<rparr>))"

definition metricsHost :: string where
  "metricsHost = ''0.0.0.0''"

definition metricsPort :: nat where
  "metricsPort = 8384"

definition managerOptions :: "ChannelCMDOptions \<Rightarrow> bool \<Rightarrow> ManagerOptions" where
  "managerOptions options enableLeaderElection =
     \<lparr>moBindAddress = metricsHost @ '':'' @ itoa_nat metricsPort,
      moLeaderElection = enableLeaderElection,
      moLeaderElectionID = ''multicloud-operators-channel-leader.open-cluster-management.io'',
      moLeaderElectionNamespace = ''kube-system'',
      moLeaseDuration = LeaderElectionLeaseDuration options,
      moRenewDeadline = LeaderElectionRenewDeadline options,
      moRetryPeriod = LeaderElectionRetryPeriod options\<rparr>"

section \<open>Registration\<close>

fun addSchemes :: "('w, 'cfg, 'kc, 'm) Platform \<Rightarrow> string list \<Rightarrow> 'm \<Rightarrow> 'w \<Rightarrow> go_error option \<times> 'w" where
  "addSchemes pl [] m w = (None, w)"
| "addSchemes pl (s # ss) m w =
     (case scheme_Add pl s m w of (Some er, w) \<Rightarrow> (Some er, w) | (None, w) \<Rightarrow> addSchemes pl ss m w)"

text \<open>\<open>AddToSchemes\<close>: the \<open>init\<close> of addtoscheme_apps_v1.go appends the operator's own group version.\<close>

definition AddToSchemes :: "string list" where
  "AddToSchemes = [] @ [gv_String (sbGroupVersion registered_types)]"

definition apis_AddToScheme :: "('w, 'cfg, 'kc, 'm) Platform \<Rightarrow> 'm \<Rightarrow> 'w \<Rightarrow> go_error option \<times> 'w" where
  "apis_AddToScheme pl = addSchemes pl ([''cluster/v1'', ''admissionregistration/v1''] @ AddToSchemes)"

definition controllerName :: string where
  "controllerName = ''channel''"

definition newReconciler :: "('w, 'cfg, 'kc, 'm) Platform \<Rightarrow> 'm \<Rightarrow> 'w dynamic_client \<Rightarrow> 'w ReconcileChannel" where
  "newReconciler pl mgr dynamicClient = \<lparr>rcClient = mgr_GetClient pl mgr, rcDynamicClient = dynamicClient\<rparr>"

text \<open>An error of adding the CRD scheme is only logged.\<close>

definition ctl_add :: "('w, 'cfg, 'kc, 'm) Platform \<Rightarrow> 'm \<Rightarrow> 'w ReconcileChannel \<Rightarrow> 'w \<Rightarrow> go_error option \<times> 'w" where
  "ctl_add pl m r w =
     (case controller_New pl controllerName r m w of
        (Some er, w) \<Rightarrow> (Some er, w)
      | (None, w) \<Rightarrow>
         (case scheme_Add pl ''apiextensions/v1beta1'' m w of (_, w) \<Rightarrow> controller_Watch pl controllerName m w))"

text \<open>The channel descriptor that \<open>Add\<close> also gets is not used.\<close>

definition ctl_Add :: "('w, 'cfg, 'kc, 'm) Platform \<Rightarrow> 'm \<Rightarrow> 'w dynamic_client \<Rightarrow> 'w \<Rightarrow> go_error option \<times> 'w" where
  "ctl_Add pl mgr dynamicClient = ctl_add pl mgr (newReconciler pl mgr dynamicClient)"

text \<open>The \<open>init\<close> of add_channel.go appends the channel controller to the list of controllers.\<close>

definition AddToManagerFuncs ::
  "('w, 'cfg, 'kc, 'm) Platform \<Rightarrow> ('m \<Rightarrow> 'w dynamic_client \<Rightarrow> 'w \<Rightarrow> go_error option \<times> 'w) list" where
  "AddToManagerFuncs pl = [] @ [ctl_Add pl]"

fun AddToManager ::
  "('m \<Rightarrow> 'w dynamic_client \<Rightarrow> 'w \<Rightarrow> go_error option \<times> 'w) list \<Rightarrow> 'm \<Rightarrow> 'w dynamic_client \<Rightarrow> 'w \<Rightarrow> go_error option \<times> 'w" where
  "AddToManager [] m dynamicClient w = (None, w)"
| "AddToManager (f # fs) m dynamicClient w =
     (case f m dynamicClient w of (Some er, w) \<Rightarrow> (Some er, w) | (None, w) \<Rightarrow> AddToManager fs m dynamicClient w)"

text \<open>\<open>CreateObjectStorageChannelDescriptor\<close>, which comes after the dynamic client, cannot fail.\<close>

definition registerComponents :: "('w, 'cfg, 'kc, 'm) Platform \<Rightarrow> 'cfg \<Rightarrow> 'm \<Rightarrow> 'w \<Rightarrow> unit proc \<times> 'w" where
  "registerComponents pl cfg m w =
     proc_bind (case dynamic_NewForConfigOrDie pl cfg w of (Panic p, w) \<Rightarrow> (Crashed p, w) | (Return d, w) \<Rightarrow> (Running d, w)) (\<lambda>dynamicClient w.
     proc_bind (mustNil (apis_AddToScheme pl m w)) (\<lambda>_ w.
     proc_bind (mustNil (scheme_Add pl ''apiextensions/v1'' m w)) (\<lambda>_ w.
     proc_bind (mustNil (kubernetes_NewForConfig pl cfg w)) (\<lambda>_ w.
       mustNil (AddToManager (AddToManagerFuncs pl) m dynamicClient w)))))"

section \<open>Detecting the cluster API\<close>

definition IsReadyClusterRegistry :: "'w Env \<Rightarrow> 'w \<Rightarrow> bool \<times> 'w" where
  "IsReadyClusterRegistry clReader w =
     (case kList (managedClusters clReader) all_objects w of
        (Inr _, w) \<Rightarrow> (True, w)
      | (Inl _, w) \<Rightarrow> (False, w))"

text \<open>One turn of the loop that runs every ten seconds.\<close>

definition detectTurn :: "'w Env \<Rightarrow> 'w \<Rightarrow> unit proc \<times> 'w" where
  "detectTurn clReader w =
     (case IsReadyClusterRegistry clReader w of (ready, w) \<Rightarrow> (if ready then Exited 1 else Running (), w))"

text \<open>The result says whether the loop was started.\<close>

definition DetectClusterRegistry :: "'w Env \<Rightarrow> 'w \<Rightarrow> bool \<times> 'w" where
  "DetectClusterRegistry clReader w =
     (case IsReadyClusterRegistry clReader w of (ready, w) \<Rightarrow> (\<not> ready, w))"

section \<open>The webhook\<close>

record ('w, 'h) WebhookTask =
  wtWireUp :: "'h WireUp"
  wtInClient :: "'w Env"
  wtCACert :: bytes

definition setupWebhook ::
  "('w, 'cfg, 'kc, 'm) Platform \<Rightarrow> ('w, 'k, 'p) Crypto \<Rightarrow> 'w FileSystem \<Rightarrow> (string \<Rightarrow> 'h option \<Rightarrow> 'w \<Rightarrow> 'w outcome) \<Rightarrow>
   'h \<Rightarrow> ChannelCMDOptions \<Rightarrow> 'cfg \<Rightarrow> 'cfg \<Rightarrow> 'w \<Rightarrow> ('w, 'h) WebhookTask option proc \<times> 'w" where
  "setupWebhook pl cr fs Register validator options cfg inConfig w =
     (if Debug options then (Running None, w)
      else proc_bind (must (NewWireUp (os_LookupEnv pl)
             (filepath_Join [os_TempDir fs, ''k8s-webhook-server'', ''serving-certs'']) [ValidateLogic validator], w)) (\<lambda>wiredWebhook w.
        proc_bind (must (client_NewFor pl cfg w)) (\<lambda>clt w.
        proc_bind (must (client_NewFor pl inConfig w)) (\<lambda>inClt w.
        proc_bind (case Attach cr fs Register clt wiredWebhook w of Panic p \<Rightarrow> (Crashed p, w) | Return x \<Rightarrow> must x) (\<lambda>caCert w.
          (Running (Some \<lparr>wtWireUp = wiredWebhook, wtInClient = inClt, wtCACert = caCert\<rparr>), w))))))"

definition kindName :: string where
  "kindName = ''channels''"

section \<open>RunManager\<close>

record ('w, 'h, 'm) Setup =
  suManager :: 'm
  suExternal :: bool
  suTls :: tlsVars
  suLeaderElection :: bool
  suDetecting :: bool
  suWebhook :: "('w, 'h) WebhookTask option"

text \<open>The settings are cached for the configuration that was chosen.\<close>

definition cacheTLS ::
  "tlsLib \<Rightarrow> ('w, 'c) fetchVars poll \<Rightarrow> ('cfg \<Rightarrow> ('w, 'c) apiServerClient) \<Rightarrow> 'cfg \<Rightarrow> 'w \<Rightarrow> tlsVars proc \<times> 'w" where
  "cacheTLS lib Poll cl cfg w =
     (case InitClusterTLSConfig lib Poll (cl cfg) True True initial_tls w of
        (r, v, w) \<Rightarrow> (case r of Panic p \<Rightarrow> Crashed p | Return _ \<Rightarrow> Running v, w))"

text \<open>From the election of a leader to the webhook.\<close>

definition buildManager ::
  "('w, 'cfg, 'kc, 'm) Platform \<Rightarrow> ('w, 'k, 'p) Crypto \<Rightarrow> 'w FileSystem \<Rightarrow> (string \<Rightarrow> 'h option \<Rightarrow> 'w \<Rightarrow> 'w outcome) \<Rightarrow> 'h \<Rightarrow>
   ChannelCMDOptions \<Rightarrow> 'cfg \<times> 'cfg \<times> bool \<Rightarrow> tlsVars \<Rightarrow> 'w \<Rightarrow> ('w, 'h, 'm) Setup proc \<times> 'w" where
  "buildManager pl cr fs Register validator options cfgs v w =
     (case cfgs of (cfg, inConfig, isExternalAPIServer) \<Rightarrow>
      case rest_InClusterConfig pl w of (er, w) \<Rightarrow>
      proc_bind (must (ctrl_NewManager pl cfg (managerOptions options (er = None)) w)) (\<lambda>mgr w.
      proc_bind (registerComponents pl cfg mgr w) (\<lambda>_ w.
      case DetectClusterRegistry (mgr_GetAPIReader pl mgr) w of (detecting, w) \<Rightarrow>
      proc_bind (setupWebhook pl cr fs Register validator options cfg inConfig w) (\<lambda>task w.
        (Running \<lparr>suManager = mgr, suExternal = isExternalAPIServer, suTls = v, suLeaderElection = (er = None),
           suDetecting = detecting, suWebhook = task\<rparr>, w)))))"

text \<open>Everything before the manager is started.\<close>

definition setupManager ::
  "('w, 'cfg, 'kc, 'm) Platform \<Rightarrow> ('w, 'k, 'p) Crypto \<Rightarrow> 'w FileSystem \<Rightarrow> (string \<Rightarrow> 'h option \<Rightarrow> 'w \<Rightarrow> 'w outcome) \<Rightarrow> 'h \<Rightarrow>
   tlsLib \<Rightarrow> ('w, 'c) fetchVars poll \<Rightarrow> ('cfg \<Rightarrow> ('w, 'c) apiServerClient) \<Rightarrow> ChannelCMDOptions \<Rightarrow> 'w \<Rightarrow> ('w, 'h, 'm) Setup proc \<times> 'w" where
  "setupManager pl cr fs Register validator lib Poll cl options w =
     proc_bind (chooseLogger pl options w) (\<lambda>_ w.
     proc_bind (chooseConfig pl options w) (\<lambda>cfgs w.
     proc_bind (cacheTLS lib Poll cl (fst cfgs) w) (\<lambda>v w.
       buildManager pl cr fs Register validator options cfgs v w)))"

text \<open>The goroutine that creates the webhook's objects.\<close>

definition wireUpTask :: "('w, 'cfg, 'kc, 'm) Platform \<Rightarrow> ('w, 'h, 'm) Setup \<Rightarrow> ('w, 'h) WebhookTask \<Rightarrow> 'w \<Rightarrow> unit proc \<times> 'w" where
  "wireUpTask pl su t w =
     (case WireUpWebhookSupplymentryResource (wtInClient t) (mgr_GetClient pl (suManager su)) (wtWireUp t) (suExternal su)
             (wtCACert t) \<lparr>gvkGroup = apiGroup, gvkVersion = ''v1'', gvkKind = kindName\<rparr> [''CREATE''] [DelPreValiationCfg20] w of
        (Panic p, w) \<Rightarrow> (Crashed p, w)
      | (Return er, w) \<Rightarrow> mustNil (er, w))"

definition RunManager ::
  "('w, 'cfg, 'kc, 'm) Platform \<Rightarrow> ('w, 'k, 'p) Crypto \<Rightarrow> 'w FileSystem \<Rightarrow> (string \<Rightarrow> 'h option \<Rightarrow> 'w \<Rightarrow> 'w outcome) \<Rightarrow> 'h \<Rightarrow>
   tlsLib \<Rightarrow> ('w, 'c) fetchVars poll \<Rightarrow> ('cfg \<Rightarrow> ('w, 'c) apiServerClient) \<Rightarrow> ChannelCMDOptions \<Rightarrow> 'w \<Rightarrow> unit proc \<times> 'w" where
  "RunManager pl cr fs Register validator lib Poll cl options w =
     proc_bind (setupManager pl cr fs Register validator lib Poll cl options w) (\<lambda>su w. mustNil (mgr_Start pl (suManager su) w))"

text \<open>
  \<open>main\<close>: klog's flags join those of the program, unless their name is taken; \<open>Parse\<close> reads the
  command line.
\<close>

definition main_options :: "Flag list \<Rightarrow> (Flag list \<Rightarrow> ChannelCMDOptions \<Rightarrow> ChannelCMDOptions) \<Rightarrow> ChannelCMDOptions" where
  "main_options klogFlags Parse =
     (case ProcessFlags default_options [] of (options, flags) \<Rightarrow>
        Parse (HidKlogFlag (flags @ filter (\<lambda>f. flName f \<notin> flName ` set flags) klogFlags)) options)"

definition main ::
  "Flag list \<Rightarrow> (Flag list \<Rightarrow> ChannelCMDOptions \<Rightarrow> ChannelCMDOptions) \<Rightarrow>
   ('w, 'cfg, 'kc, 'm) Platform \<Rightarrow> ('w, 'k, 'p) Crypto \<Rightarrow> 'w FileSystem \<Rightarrow> (string \<Rightarrow> 'h option \<Rightarrow> 'w \<Rightarrow> 'w outcome) \<Rightarrow> 'h \<Rightarrow>
   tlsLib \<Rightarrow> ('w, 'c) fetchVars poll \<Rightarrow> ('cfg \<Rightarrow> ('w, 'c) apiServerClient) \<Rightarrow> 'w \<Rightarrow> unit proc \<times> 'w" where
  "main klogFlags Parse pl cr fs Register validator lib Poll cl w =
     RunManager pl cr fs Register validator lib Poll cl (main_options klogFlags Parse) w"

section \<open>Flags\<close>

text \<open>Exactly the listed flags are hidden, and nothing else about the set changes.\<close>

lemma hide_fold:
  "fold (\<lambda>f. map (\<lambda>t. if flName t = f then t\<lparr>flHidden := True\<rparr> else t)) ns pf =
   map (\<lambda>t. if flName t \<in> set ns then t\<lparr>flHidden := True\<rparr> else t) pf"
  by (induction ns arbitrary: pf) (auto simp: comp_def)

lemma HidKlogFlag_result:
  "HidKlogFlag pf = map (\<lambda>t. if flName t \<in> set hidden_klog_flags then t\<lparr>flHidden := True\<rparr> else t) pf"
  by (simp add: HidKlogFlag_def hide_fold)

text \<open>None of the program's own flags is hidden, and their names differ.\<close>

lemma own_flags_visible:
  "\<forall>t\<in>set (HidKlogFlag (snd (ProcessFlags options []))). \<not> flHidden t"
  "distinct (map flName (snd (ProcessFlags options [])))"
  by (simp_all add: HidKlogFlag_result ProcessFlags_def hidden_klog_flags_def)

section \<open>Steps\<close>

lemma proc_bind_Running:
  "proc_bind x f = (Running b, w') \<longleftrightarrow> (\<exists>a w1. x = (Running a, w1) \<and> f a w1 = (Running b, w'))"
  by (auto simp: proc_bind_def split: prod.splits proc.splits)

lemma must_Running:
  "must x = (Running a, w) \<longleftrightarrow> x = (Inr a, w)"
  "mustNil y = (Running u, w) \<longleftrightarrow> y = (None, w)"
  by (auto simp: must_def mustNil_def split: prod.splits sum.splits option.splits)

lemma may_crash_Running:
  "(case x of Panic p \<Rightarrow> (Crashed p, w) | Return y \<Rightarrow> must y) = (Running a, w') \<longleftrightarrow> x = Return (Inr a, w')"
  by (cases x) (simp_all add: must_Running)

text \<open>The only code a step exits with.\<close>

definition exits_one :: "'a proc \<times> 'w \<Rightarrow> bool" where
  "exits_one x \<longleftrightarrow> (\<forall>n. fst x = Exited n \<longrightarrow> n = 1)"

lemma exits_one_basic [simp, intro]:
  "exits_one (Running a, w)" "exits_one (Crashed p, w)" "exits_one (must x)" "exits_one (mustNil y)"
  by (auto simp: exits_one_def must_def mustNil_def exitCode_def split: prod.splits sum.splits option.splits)

lemma exits_one_bind [intro]:
  "exits_one x \<Longrightarrow> (\<And>a w. exits_one (f a w)) \<Longrightarrow> exits_one (proc_bind x f)"
  by (auto simp: exits_one_def proc_bind_def split: prod.splits proc.splits)

lemma steps_exit_one:
  "exits_one (chooseLogger pl options w)"
  "exits_one (chooseConfig pl options w)"
  "exits_one (registerComponents pl cfg m w)"
  "exits_one (setupWebhook pl cr fs Register validator options cfg inConfig w)"
  "exits_one (cacheTLS lib Poll cl cfg w)"
  by (auto simp: chooseLogger_def chooseConfig_def registerComponents_def setupWebhook_def cacheTLS_def
      split: prod.splits outcome.splits intro!: exits_one_bind)

lemma setupManager_exit_one: "exits_one (setupManager pl cr fs Register validator lib Poll cl options w)"
  by (auto simp: setupManager_def buildManager_def steps_exit_one split: prod.splits intro!: exits_one_bind)

text \<open>Initialised settings are there for good.\<close>

lemma InitClusterTLSConfig_cached:
  assumes "InitClusterTLSConfig lib Poll cl a b initial_tls w = (Return u, v, w')"
  shows "\<exists>c. cachedTLSConfig v = Some c"
  using assms
  by (auto simp: InitClusterTLSConfig_def initial_tls_def setCached_def map_outcome_bind_Return
      split: if_splits prod.splits outcome.splits)

lemma NewWireUp_result:
  assumes "NewWireUp env d [ValidateLogic h] = Inr wu"
  shows "wuHandler wu = Some h \<and> (\<exists>ns. env ''POD_NAMESPACE'' = Some ns \<and>
    WebHookeSvcKey wu = nskey ns ''channels-apps-open-cluster-management-webhook-svc'')"
  using assms by (auto simp: NewWireUp_def Let_def findEnvVariable_def ValidateLogic_def GetWebHookServiceName_def
      split: option.splits)

lemma chooseConfig_external:
  "chooseConfig pl options w = (Running (cfg, inConfig, x), w') \<Longrightarrow>
   x \<longrightarrow> KubeConfig options \<noteq> [] \<and> \<not> Semantic_DeepEqual pl inConfig cfg"
  by (auto simp: chooseConfig_def proc_bind_Running split: if_splits option.splits)

text \<open>A webhook that is set up has its certificates.\<close>

definition webhook_ready ::
  "('w, 'cfg, 'kc, 'm) Platform \<Rightarrow> ('w, 'k, 'p) Crypto \<Rightarrow> 'w FileSystem \<Rightarrow> (string \<Rightarrow> 'h option \<Rightarrow> 'w \<Rightarrow> 'w outcome) \<Rightarrow> 'h \<Rightarrow>
   ('w, 'h) WebhookTask \<Rightarrow> bool" where
  "webhook_ready pl cr fs Register validator t \<longleftrightarrow> wuHandler (wtWireUp t) = Some validator \<and>
     (\<exists>ns. os_LookupEnv pl ''POD_NAMESPACE'' = Some ns \<and>
       WebHookeSvcKey (wtWireUp t) = nskey ns ''channels-apps-open-cluster-management-webhook-svc'') \<and>
     (\<exists>clt w1 w2. Attach cr fs Register clt (wtWireUp t) w1 = Return (Inr (wtCACert t), w2))"

lemma setupWebhook_result:
  assumes "setupWebhook pl cr fs Register validator options cfg inConfig w = (Running task, w')"
  shows "(task = None) = Debug options \<and> pred_option (webhook_ready pl cr fs Register validator) task"
proof (cases "Debug options")
  case True
  then show ?thesis using assms by (simp add: setupWebhook_def)
next
  case False
  then obtain wu clt inClt ca w1 w2 where
    wu: "NewWireUp (os_LookupEnv pl) (filepath_Join [os_TempDir fs, ''k8s-webhook-server'', ''serving-certs'']) [ValidateLogic validator] = Inr wu"
    and ca: "Attach cr fs Register clt wu w1 = Return (Inr ca, w2)"
    and t: "task = Some \<lparr>wtWireUp = wu, wtInClient = inClt, wtCACert = ca\<rparr>"
    using assms by (auto simp: setupWebhook_def proc_bind_Running must_Running may_crash_Running)
  then show ?thesis using False NewWireUp_result [OF wu] by (auto simp: webhook_ready_def)
qed

lemma cacheTLS_Running:
  "cacheTLS lib Poll cl cfg w = (Running v, w') \<longleftrightarrow> InitClusterTLSConfig lib Poll (cl cfg) True True initial_tls w = (Return (), v, w')"
  by (auto simp: cacheTLS_def split: prod.splits outcome.splits)

text \<open>
  The controller is registered with the manager's client and a dynamic client for the API server that
  the manager was made for, and watches the channels.
\<close>

definition controller_ready :: "('w, 'cfg, 'kc, 'm) Platform \<Rightarrow> ChannelCMDOptions \<Rightarrow> 'cfg \<Rightarrow> 'm \<Rightarrow> bool" where
  "controller_ready pl options cfg m \<longleftrightarrow> (\<exists>dyn.
     (\<exists>elect w w'. ctrl_NewManager pl cfg (managerOptions options elect) w = (Inr m, w')) \<and>
     (\<exists>w w'. dynamic_NewForConfigOrDie pl cfg w = (Return dyn, w')) \<and>
     (\<exists>w w'. controller_New pl controllerName (newReconciler pl m dyn) m w = (None, w')) \<and>
     (\<exists>w w'. controller_Watch pl controllerName m w = (None, w')))"

lemma ctl_Add_result:
  assumes "ctl_Add pl m dyn w = (None, w')"
  shows "(\<exists>w w'. controller_New pl controllerName (newReconciler pl m dyn) m w = (None, w')) \<and>
    (\<exists>w w'. controller_Watch pl controllerName m w = (None, w'))"
  using assms by (auto simp: ctl_Add_def ctl_add_def split: prod.splits option.splits)

lemma registerComponents_result:
  assumes "registerComponents pl cfg m w = (Running u, w')"
  shows "\<exists>dyn. (\<exists>w w'. dynamic_NewForConfigOrDie pl cfg w = (Return dyn, w')) \<and> (\<exists>w w'. ctl_Add pl m dyn w = (None, w'))"
proof -
  obtain dyn w1 w2 where "dynamic_NewForConfigOrDie pl cfg w = (Return dyn, w1)"
    and "AddToManager (AddToManagerFuncs pl) m dyn w2 = (None, w')"
    using assms by (auto simp: registerComponents_def proc_bind_Running must_Running split: prod.splits outcome.splits)
  then show ?thesis by (auto simp: AddToManagerFuncs_def split: prod.splits option.splits)
qed

lemma buildManager_result:
  assumes "buildManager pl cr fs Register validator options (cfg, inConfig, x) v w = (Running su, w')"
  shows "suExternal su = x \<and> suTls su = v \<and>
    controller_ready pl options cfg (suManager su) \<and>
    (\<exists>w1. setupWebhook pl cr fs Register validator options cfg inConfig w1 = (Running (suWebhook su), w'))"
proof -
  obtain mgr u w0 w1 w2 w3 task where
    mgr: "ctrl_NewManager pl cfg (managerOptions options (fst (rest_InClusterConfig pl w) = None)) w0 = (Inr mgr, w1)"
    and reg: "registerComponents pl cfg mgr w1 = (Running u, w2)"
    and web: "setupWebhook pl cr fs Register validator options cfg inConfig w3 = (Running task, w')"
    and su: "suManager su = mgr" "suExternal su = x" "suTls su = v" "suWebhook su = task"
    using assms unfolding buildManager_def proc_bind_Running must_Running case_prod_unfold by auto
  from registerComponents_result [OF reg] ctl_Add_result mgr
  have "controller_ready pl options cfg mgr" unfolding controller_ready_def by meson
  with web su show ?thesis by auto
qed

section \<open>Waiting for the cluster API\<close>

text \<open>
  The loop ends the process in the first turn that finds the API ready, and only if it was not
  ready at the start. Between turns the world takes arbitrary steps.
\<close>

inductive detect_run for reader :: "'w Env" where
  detect_start: "DetectClusterRegistry reader w = (True, w1) \<Longrightarrow> detect_run reader w (Running ()) w1"
| detect_off: "DetectClusterRegistry reader w = (False, w1) \<Longrightarrow> detect_run reader w (Running ()) w2"
| detect_turn: "detect_run reader w (Running ()) w1 \<Longrightarrow> DetectClusterRegistry reader w = (True, w0) \<Longrightarrow>
    detectTurn reader w2 = (r, w3) \<Longrightarrow> detect_run reader w r w3"

lemma detect_exit_reason:
  "detect_run reader w r w' \<Longrightarrow> r = Exited n \<Longrightarrow>
   n = 1 \<and> fst (IsReadyClusterRegistry reader w) = False \<and>
   (\<exists>w2 xs. kList (managedClusters reader) all_objects w2 = (Inr xs, w'))"
  by (induction rule: detect_run.induct)
    (auto simp: DetectClusterRegistry_def detectTurn_def IsReadyClusterRegistry_def split: prod.splits sum.splits if_splits)

section \<open>A platform to run on\<close>

definition memPlatform :: "bool \<Rightarrow> (mem \<times> sys, string, string, unit) Platform" where
  "memPlatform schemes_ok = \<lparr>
     zap_Build = (\<lambda>w. (None, w)), zap_NewDevelopment = (\<lambda>w. (None, w)),
     config_GetConfig = (\<lambda>w. (Inr ''in-cluster'', w)),
     ioutil_ReadFile = (\<lambda>f w. (Inr f, w)), NewClientConfigFromBytes = Inr, ClientConfig = Inr,
     Semantic_DeepEqual = (=), rest_InClusterConfig = (\<lambda>w. (None, w)),
     ctrl_NewManager = (\<lambda>_ _ w. (Inr (), w)), dynamic_NewForConfigOrDie = (\<lambda>_ w. (Return (dynListHubs certMem), w)),
     scheme_Add = (\<lambda>_ _ w. (if schemes_ok then None else Some (NewErr ''scheme''), w)),
     kubernetes_NewForConfig = (\<lambda>_ w. (None, w)), controller_New = (\<lambda>_ _ _ w. (None, w)),
     controller_Watch = (\<lambda>_ _ w. (None, w)), mgr_GetClient = (\<lambda>_. certMem), mgr_GetAPIReader = (\<lambda>_. certMem),
     client_NewFor = (\<lambda>_ w. (Inr certMem, w)),
     os_LookupEnv = [''POD_NAMESPACE'' \<mapsto> ''ocm'', ''DEPLOYMENT_LABEL'' \<mapsto> ''channel''],
     mgr_Start = (\<lambda>_ w. (None, w))\<rparr>"

definition noOpenShift :: "string \<Rightarrow> ('w, unit) apiServerClient" where
  "noOpenShift _ = \<lparr>client_New = (\<lambda>w. (Inr (), w)), client_Get = (\<lambda>_ _ w. (Inl NoMatch, w))\<rparr>"

lemma mem_steps:
  "chooseLogger (memPlatform b) default_options w = (Running (), w)"
  "chooseConfig (memPlatform b) default_options w = (Running (''in-cluster'', ''in-cluster'', False), w)"
  "registerComponents (memPlatform b) cfg m w = (if b then Running () else Exited 1, w)"
  by (simp_all add: chooseLogger_def chooseConfig_def registerComponents_def apis_AddToScheme_def AddToSchemes_def AddToManagerFuncs_def ctl_Add_def ctl_add_def
      memPlatform_def default_options_def proc_bind_def must_def mustNil_def exitCode_def)

lemma retry_first:
  "op (s\<lparr>lastErr := None\<rparr>) = (None, s') \<Longrightarrow> retryAPIServerOp memPoll op s = (None, s'\<lparr>lastErr := None\<rparr>)"
  "op (s\<lparr>lastErr := None\<rparr>) = (Some er, s') \<Longrightarrow> isPermanentAPIServerError er \<Longrightarrow>
   retryAPIServerOp memPoll op s = (Some er, s'\<lparr>lastErr := Some er\<rparr>)"
  unfolding retryAPIServerOp_def memPoll_def Suc_eq_plus1 [symmetric] by (simp_all add: retryCondition_def)

lemma mem_fetch: "fetchTLSConfigFromCluster lib memPoll (noOpenShift cfg) w = (Return None, w)"
  unfolding fetchTLSConfigFromCluster_def Let_def
  by (subst retry_first(1), simp add: newClientOp_def noOpenShift_def)
    (simp add: newClientOp_def getServerOp_def noOpenShift_def retry_first(2) isPermanentAPIServerError_def)

lemma mem_cacheTLS: "\<exists>v. cacheTLS exLib memPoll noOpenShift cfg w = (Running v, w)"
proof -
  have "\<exists>c. profileSpecToTLSConfig exLib (TLSProfiles exLib TLSProfileIntermediateType) = Return c"
    by (simp add: profileSpecToTLSConfig_def exLib_def tlsGroupsToCurveIDs_def)
  then show ?thesis
    by (auto simp: cacheTLS_def InitClusterTLSConfig_def mem_fetch initial_tls_def setCached_def)
qed

lemma mem_detect: "DetectClusterRegistry certMem ex_new = (False, ex_new)"
  by (simp add: DetectClusterRegistry_def IsReadyClusterRegistry_def certMem_def part_env_def part_kind_def on_part_def
      memEnv_def mem_client_def faulty_def pop_fault_def ex_new_def empty_mem_def put_fst_def)

lemma mem_build:
  assumes "setupWebhook (memPlatform True) symCrypto memFs Register h options cfg inConfig ex_new = (Running task, w')"
  shows "\<exists>su. fst (buildManager (memPlatform True) symCrypto memFs Register h options (cfg, inConfig, x) v ex_new) = Running su"
proof -
  have "mgr_GetAPIReader (memPlatform True) m = certMem" "rest_InClusterConfig (memPlatform True) w = (None, w)"
    "ctrl_NewManager (memPlatform True) c mo w = (Inr (), w)" for m w c mo
    by (simp_all add: memPlatform_def)
  then show ?thesis
    using assms by (simp add: buildManager_def mem_steps mem_detect proc_bind_def must_def)
qed

text \<open>
  C40. The process starts its manager only when everything is in place: the TLS settings are cached,
  so that the webhook server uses them; an external API server is used only if one was given; and
  outside debug mode the validator is attached under the service of the pod's namespace, with a CA. The
  channel controller is registered with the manager's client, and its dynamic client talks to the API
  server that the manager was made for.
  A step that fails ends the process with code 1 before the manager starts.
\<close>

theorem manager_ready:
  "case fst (setupManager pl cr fs Register validator lib Poll cl options w) of
     Running su \<Rightarrow>
       (\<exists>c. cachedTLSConfig (suTls su) = Some c \<and> (\<forall>cfg. webhookTLSOpt lib (suTls su) cfg =
          Return (cfg\<lparr>MinVersion := MinVersion c, CipherSuites := CipherSuites c, CurvePreferences := CurvePreferences c\<rparr>))) \<and>
       (\<exists>cfg. controller_ready pl options cfg (suManager su)) \<and>
       (suExternal su \<longrightarrow> KubeConfig options \<noteq> []) \<and> (suWebhook su = None) = Debug options \<and>
       pred_option (webhook_ready pl cr fs Register validator) (suWebhook su)
   | Exited n \<Rightarrow> n = 1 \<and> fst (RunManager pl cr fs Register validator lib Poll cl options w) = Exited n
   | Crashed p \<Rightarrow> fst (RunManager pl cr fs Register validator lib Poll cl options w) = Crashed p"
proof -
  obtain r w' where run: "setupManager pl cr fs Register validator lib Poll cl options w = (r, w')" by fastforce
  show ?thesis
  proof (cases r)
    case (Running su)
    then obtain cfg inConfig x w1 w2 v w3 where c: "chooseConfig pl options w1 = (Running (cfg, inConfig, x), w2)"
      and v: "InitClusterTLSConfig lib Poll (cl cfg) True True initial_tls w2 = (Return (), v, w3)"
      and b: "buildManager pl cr fs Register validator options (cfg, inConfig, x) v w3 = (Running su, w')"
      using run by (auto simp: setupManager_def proc_bind_Running cacheTLS_Running)
    obtain w4 where t: "setupWebhook pl cr fs Register validator options cfg inConfig w4 = (Running (suWebhook su), w')"
      and su: "suExternal su = x" "suTls su = v" "controller_ready pl options cfg (suManager su)"
      using buildManager_result [OF b] by blast
    show ?thesis
      using Running run su chooseConfig_external [OF c] InitClusterTLSConfig_cached [OF v] setupWebhook_result [OF t]
      by (auto simp: webhookTLSOpt_def GetClusterTLSConfig_def)
  next
    case (Exited n)
    then show ?thesis using run setupManager_exit_one [of pl cr fs Register validator lib Poll cl options w]
      by (simp add: exits_one_def RunManager_def proc_bind_def)
  next
    case (Crashed p)
    then show ?thesis using run by (simp add: RunManager_def proc_bind_def)
  qed
qed

theorem manager_ready_witness:
  "(\<exists>su t. fst (setupManager (memPlatform True) symCrypto memFs (\<lambda>_ _. Return) () exLib memPoll noOpenShift default_options ex_new) = Running su \<and>
     cachedTLSConfig (suTls su) \<noteq> None \<and> \<not> suExternal su \<and> suWebhook su = Some t \<and>
     webhook_ready (memPlatform True) symCrypto memFs (\<lambda>_ _. Return) () t) \<and>
   fst (RunManager (memPlatform False) symCrypto memFs (\<lambda>_ _. Return) () exLib memPoll noOpenShift default_options ex_new) = Exited 1"
proof
  let ?good = "setupManager (memPlatform True) symCrypto memFs (\<lambda>_ _. Return) () exLib memPoll noOpenShift default_options ex_new"
  let ?bad = "setupManager (memPlatform False) symCrypto memFs (\<lambda>_ _. Return) () exLib memPoll noOpenShift default_options ex_new"
  have "case fst (setupWebhook (memPlatform True) symCrypto memFs (\<lambda>_ _. Return) () default_options ''in-cluster'' ''in-cluster'' ex_new) of
      Running _ \<Rightarrow> True | _ \<Rightarrow> False" by code_simp
  then obtain task w' where "setupWebhook (memPlatform True) symCrypto memFs (\<lambda>_ _. Return) () default_options ''in-cluster'' ''in-cluster'' ex_new =
      (Running task, w')" by (auto split: proc.splits simp: prod_eq_iff)
  then obtain su where su: "fst ?good = Running su"
    using mem_cacheTLS [of "''in-cluster''" ex_new] mem_build
    by (fastforce simp: setupManager_def mem_steps proc_bind_def)
  have opts: "KubeConfig default_options = []" "\<not> Debug default_options" by (simp_all add: default_options_def)
  from manager_ready [where pl = "memPlatform True" and cr = symCrypto and fs = memFs and Register = "\<lambda>_ _. Return"
      and validator = "()" and lib = exLib and Poll = memPoll and cl = noOpenShift and options = default_options and w = ex_new] su
  show "\<exists>su t. fst ?good = Running su \<and> cachedTLSConfig (suTls su) \<noteq> None \<and> \<not> suExternal su \<and> suWebhook su = Some t \<and>
      webhook_ready (memPlatform True) symCrypto memFs (\<lambda>_ _. Return) () t"
    using opts by (cases "suWebhook su") auto
  have "ctrl_NewManager (memPlatform False) c mo w = (Inr (), w)" "rest_InClusterConfig (memPlatform False) w = (None, w)" for c mo w
    by (simp_all add: memPlatform_def)
  then have "case fst ?bad of Exited n \<Rightarrow> True | _ \<Rightarrow> False"
    using mem_cacheTLS [of "''in-cluster''" ex_new]
    by (auto simp: setupManager_def mem_steps buildManager_def proc_bind_def must_def)
  with manager_ready [where pl = "memPlatform False" and cr = symCrypto and fs = memFs and Register = "\<lambda>_ _. Return"
      and validator = "()" and lib = exLib and Poll = memPoll and cl = noOpenShift and options = default_options and w = ex_new]
  show "fst (RunManager (memPlatform False) symCrypto memFs (\<lambda>_ _. Return) () exLib memPoll noOpenShift default_options ex_new) = Exited 1"
    by (auto split: proc.splits)
qed

end
