(* ===== verification/Spec2Isabelle.thy ===== *)
theory Spec2Isabelle
  imports Channel_System Channel_Access Deep_Copy Channel_Validator Helm_Repo Manager_Startup
begin

text \<open>
  \<^bold>\<open>The channel operator of Open Cluster Management.\<close>

  The program is a Kubernetes operator in Go. A \<open>Channel\<close> is a resource that names a source of
  applications (a Git or Helm repository, an object bucket, a namespace) with an optional Secret and
  ConfigMap. The operator has these parts.

  \<^item> The controller (\<open>pkg/controller/channel/channel_controller.go\<close>) reconciles one channel at a
    time: it corrects the path of namespace channels, gives the agents of the managed clusters a role
    and a role binding for the channel, marks the referenced Secret and ConfigMap with a label and an
    annotation that lists the channels they serve, and removes role and binding in the hub's own
    namespace.
  \<^item> The admission webhook (\<open>pkg/webhook/channel_validator.go\<close>) refuses a second channel that is
    not a git channel in a namespace; \<open>pkg/webhook/wireupwebhook.go\<close> creates its configuration,
    service and, for a hosted cluster, its endpoint, and \<open>pkg/webhook/certificate.go\<close> its
    certificate authority and serving certificate, which are kept in two Secrets.
  \<^item> The utilities (\<open>pkg/utils\<close>) look channels up, edit the annotation, read credentials, keep the
    registry of object store connections, talk to S3, fetch the index of a Helm repository, wait for
    the cluster API, and read the TLS settings of the cluster (\<open>pkg/utils/tlsconfig\<close>).
  \<^item> The logging package (\<open>pkg/log/zap\<close>) turns command-line flags into a logger configuration.
  \<^item> The start-up code (\<open>cmd/manager\<close>) declares the options, chooses the API server, caches the TLS
    settings, registers schemes and controller, attaches the webhook and starts the manager; the
    objects of the webhook are created by a task beside it.

  \<^bold>\<open>The theories.\<close> Each operation is a definition under its Go name.

  \<^item> \<open>Prelude\<close>: slices, errors, outcomes of code that may panic, shared list lemmas.
  \<^item> \<open>Go_Lib\<close>: what the code uses of \<open>strings\<close>, slice expressions, the order of a map range (an
    argument, with the locale \<open>go_map_order\<close>), machine integers (the locale \<open>saturating\<close>).
  \<^item> \<open>Channel_Types\<close>: the Channel API (\<open>pkg/apis/apps/v1\<close>) and the Kubernetes objects.
  \<^item> \<open>Kube_Api\<close>: the API client and the other third-party functions as a record \<open>Env\<close> that every
    operation takes, and what they promise: \<open>kind_api\<close> for one kind of object, \<open>kube_api\<close> for the
    whole environment, both also for a world without faults (\<open>kind_api_calm\<close>, \<open>kube_api_calm\<close>).
    A write that fails may have reached the server. \<open>cluster\<close> is the state of the API server.
  \<^item> \<open>Kube_Mem\<close>, \<open>Kube_Pair\<close>: an executable in-memory server with a script of faults, and two of
    them side by side; they satisfy the laws and carry the examples.
  \<^item> \<open>Serving_Channel\<close>: \<open>pkg/utils/channel.go\<close>. The annotation is shown to behave as a set of
    channels (locale \<open>serving_set\<close>), for every order of the map.
  \<^item> \<open>Go_Heap\<close>, \<open>Deep_Copy\<close>: the generated deep copies over an explicit store with pointers, maps
    and slices. The contract of a \<open>DeepCopyInto\<close> is the locale \<open>deep_copy\<close>; the one of
    apimachinery's types is assumed (locale \<open>api_machinery\<close>), those of the repository's types are
    derived from it.
  \<^item> \<open>Channel_Rbac\<close>, \<open>Referred_Objects\<close>, \<open>Channel_Reconcile\<close>: the controller. Every function is
    described as a step on the cluster (which entries it may write, and with what), for runs in which
    any call may fail, and then as a run that succeeds when none does.
  \<^item> \<open>Channel_Access\<close>: what role and role binding together let an agent do.
  \<^item> \<open>Referred_Entries\<close>, \<open>Channel_Sweep\<close>, \<open>Channel_Recovery\<close>: how the reconciles of different
    channels interact (locale \<open>object_relation\<close>: whatever relation between an old and a new object the
    single updates keep, a reconcile keeps): each edits only its own entry of an annotation, channels
    that are reconciled one after the other are all settled, also when earlier reconciles were cut short
    by faults or only corrected a path.
  \<^item> \<open>Channel_Validator\<close>: the admission handler and its contract \<open>one_per_namespace\<close>.
  \<^item> \<open>Channel_System\<close>: users, API server, webhook and controller as a step relation with labelled moves;
    a request is checked in one move and stored in a later one, and \<open>orderly\<close> says which moves keep the
    contract.
  \<^item> \<open>Webhook_Wireup\<close>: the set-up of the webhook, with one client or two (locale \<open>two_clusters\<close>).
  \<^item> \<open>Object_Store\<close>, \<open>Channel_Descriptor\<close>: the S3 handler over the SDK (locale \<open>s3_api\<close>), which
    keeps the contract of the interface \<open>ObjectStore\<close> (locale \<open>object_store\<close>, with the data of the fake
    store as the abstract state), and the registry (locale \<open>registry\<close>); handlers live on a heap, so that
    sharing them is visible.
  \<^item> \<open>Go_Path\<close>: \<open>filepath.Clean\<close> and \<open>filepath.Join\<close>.
  \<^item> \<open>Webhook_Certs\<close>: certificates and \<open>Attach\<close>. The cryptographic library, the clock and the file
    system are records; \<open>cert_lib\<close> states what they promise, \<open>cert_store\<close> adds the API for Secrets,
    \<open>cert_store_calm\<close> a world without faults. \<open>Cert_Mem\<close> gives an executable instance with symbolic
    signatures and the properties of the certificates.
  \<^item> \<open>Tls_Config\<close>: the TLS settings, with the poller as a locale (\<open>poller\<close>) that promises one try at
    once and one per interval.
  \<^item> \<open>Helm_Repo\<close>: the repository index, with the open files as a locale (\<open>body_store\<close>).
  \<^item> \<open>Manager_Startup\<close>: options, registration, detection of the cluster API and \<open>RunManager\<close>, as
    steps that may end the process.
  \<^item> \<open>Zap_Flags\<close>: flag values (locale \<open>flag_value\<close>) and the logger configuration.
  \<^item> This theory: the properties that span components.

  \<^bold>\<open>How the model relates to the code.\<close> Effects are explicit: an operation takes the world and returns
  it. Errors are values, every early return is a branch, and panics (index, nil pointer, slice bounds)
  are values of the type \<open>outcome\<close>. Log lines, contexts and mutexes are left out; the laws describe a
  period in which no other actor writes to the cluster, and concurrency between the operator's parts is
  modelled as the interleaving of moves in \<open>system_step\<close>: whole reconciles (the controller runs one at a
  time), the handler's check of a request and, later, the creation of its channel. No definition
  needs fuel: the loops run over finite lists, and the retries are those of the poller, which the TLS
  settings call with ten seconds and two minutes, so that 13 tries are the bound that C36 proves. The
  waiting loop of the cluster detection may run for ever; it is the relation \<open>detect_run\<close>, turn by
  turn. Types with a function as a field are compared by their fields.

  \<^bold>\<open>What the theorems show.\<close> C1 to C6, C20 and C25 are about the operator as a whole: the two ways in
  which a namespace can come to hold two channels outside git, the footprint of a reconcile, that it
  reaches the wanted state, recovers from faults and corrects paths, that channels do not disturb each
  other, that no role grants too much, and exactly what the agents may read afterwards. C7 to C11 are about the controller's and the webhook's parts,
  C12, C13 and C21 about the webhook's set-up, C14 to C16 and C19 about object stores, C17, C18 and C26
  about logging, C22, C23 and C27 about the deep copies. C32 to C34 show that the served certificate belongs to the authority that the API server is
  told to trust, C39 carries this through to the webhook configuration, C36 and C37 are about retries
  and the TLS settings, C38 about the Helm index, C40 about the order of the start-up. C24, C28 to C31,
  C35 and parts of C1, C15, C19, C26, C34 and C38 record places where the code does not do what it means to.

  \<^bold>\<open>Not modelled.\<close> The string constants of \<open>utilconsts.go\<close> and a few others that no code reads
  (\<open>clusterCRDName\<close>, \<open>InsecureSkipVerifyFlag\<close>, the \<open>x-amz-meta\<close> keys); log lines, the event recorder and
  the signal handler. The deep copies of apimachinery's types, the constructors of controller-runtime
  and client-go and the parser of command lines are parameters, or modelled by the calls they make
  of the repository's code; the manager's own scheduling is only present as the interleavings of
  \<open>system_step\<close>. A channel as the controller handles it is a value; that it is a struct with
  pointers matters only to \<open>Deep_Copy\<close>, whose views give these values.
\<close>

section \<open>An example cluster\<close>

text \<open>
  A channel with a secret, one managed cluster and a hub in another namespace, used to show that
  the hypotheses of the theorems below can hold.
\<close>

definition ex_mem :: mem where
  "ex_mem = empty_mem\<lparr>mChannels := [ex_channel], mDataObjects := [(srtGvk, ex_secret)],
     mManagedClusters := [\<lparr>mcMeta = plain_meta [] ''cluster1''\<rparr>], mHubs := [\<lparr>mchMeta = plain_meta ''ocm'' ''hub''\<rparr>]\<rparr>"

text \<open>The same channel as a namespace channel, whose path is wrong at first.\<close>

definition ex_nschannel :: Channel where
  "ex_nschannel = ex_channel\<lparr>chSpec := (chSpec ex_channel)\<lparr>spType := ''Namespace''\<rparr>\<rparr>"

definition ex_nsmem :: mem where
  "ex_nsmem = ex_mem\<lparr>mChannels := [ex_nschannel]\<rparr>"

text \<open>The channel is gone; the secret still names it.\<close>

definition ex_gone :: mem where
  "ex_gone = ex_mem\<lparr>mChannels := [], mDataObjects := [(srtGvk, ex_secret\<lparr>doMeta := (doMeta ex_secret)\<lparr>
     omLabels := [ServingChannel \<mapsto> ''true''], omAnnotations := [ServingChannel \<mapsto> ''dev/charts,ops/git'']\<rparr>\<rparr>)]\<rparr>"

text \<open>Two channels that share the secret, one with a wrong path, and a server on which the third call fails.\<close>

definition ex_git :: Channel where
  "ex_git = ex_channel\<lparr>chMeta := plain_meta ''dev'' ''git'', chSpec := (chSpec ex_channel)\<lparr>spType := ''Git''\<rparr>\<rparr>"

definition ex_gitkey :: NamespacedName where
  "ex_gitkey = nskey ''dev'' ''git''"

definition ex_storm :: mem where
  "ex_storm = ex_mem\<lparr>mChannels := [ex_nschannel, ex_git], mFaults := [None, None, Some ''timeout'']\<rparr>"

text \<open>The channel refers to the secret \<open>creds\<close>, and \<open>old\<close> lists it from before.\<close>

definition ex_moved :: mem where
  "ex_moved = ex_mem\<lparr>mDataObjects := [(srtGvk, ex_secret), (srtGvk, ex_secret\<lparr>doMeta := (doMeta ex_secret)\<lparr>
     omName := ''old'', omLabels := [ServingChannel \<mapsto> ''true''], omAnnotations := [ServingChannel \<mapsto> ''dev/charts'']\<rparr>\<rparr>)]\<rparr>"

lemma ex_serving_key [simp]: "serving_key (nnString memEnv ex_key)"
  by (simp add: serving_key_def ex_key_def)

lemma ex_calm [simp]: "mem_calm ex_mem" "mem_calm ex_nsmem" "mem_calm ex_gone"
  by (simp_all add: mem_calm_def ex_mem_def ex_nsmem_def ex_gone_def empty_mem_def)

lemma ex_channels:
  "clChannels (mem_cluster ex_mem) = [ex_key \<mapsto> ex_channel]"
  "clChannels (mem_cluster ex_nsmem) = [ex_key \<mapsto> ex_nschannel]"
  "clChannels (mem_cluster ex_gone) = Map.empty"
  by (simp_all add: mem_cluster_def ex_mem_def ex_nsmem_def ex_gone_def empty_mem_def ex_key_def
      ex_channel_def ex_nschannel_def key_of_meta_def)

lemma ex_objects:
  "clDataObjects (mem_cluster ex_mem) srtGvk = [nskey ''dev'' ''creds'' \<mapsto> ex_secret]"
  "clDataObjects (mem_cluster ex_nsmem) srtGvk = [nskey ''dev'' ''creds'' \<mapsto> ex_secret]"
  "clRoles (mem_cluster ex_mem) = Map.empty" "clRoles (mem_cluster ex_nsmem) = Map.empty"
  "clRoleBindings (mem_cluster ex_mem) = Map.empty" "clRoleBindings (mem_cluster ex_nsmem) = Map.empty"
  by (simp_all add: mem_cluster_def ex_mem_def ex_nsmem_def empty_mem_def mem_data_sel_def ex_secret_def key_of_meta_def)

lemma ex_ready:
  "ready memEnv ex_channel (mem_cluster ex_mem)" "ready memEnv (fixed_path ex_nschannel) (mem_cluster ex_nsmem)"
  by (simp_all add: ready_def adoptable_def adopts_def ref_there_def ex_objects ex_channel_def ex_nschannel_def
      fixed_path_def mem_ctrl_ref_def key_of_meta_def)

lemma ex_hub: "hub_namespace (mem_cluster ex_mem) = ''ocm''" "hub_namespace (mem_cluster ex_nsmem) = ''ocm''"
  by (simp_all add: hub_namespace_def mem_cluster_def ex_mem_def ex_nsmem_def empty_mem_def key_of_meta_def is_singleton_def)

lemma ex_path: "\<not> path_fix ex_channel" "path_fix ex_nschannel"
proof -
  have "\<not> strings_EqualFold ''HelmRepo'' ChannelTypeNamespace" "strings_EqualFold ''Namespace'' ChannelTypeNamespace" by code_simp+
  then show "\<not> path_fix ex_channel" "path_fix ex_nschannel"
    by (simp_all add: path_fix_def ex_channel_def ex_nschannel_def)
qed

lemma ex_one: "one_per_namespace (mem_cluster ex_mem)"
  by (simp add: one_per_namespace_def ex_channels split: if_splits)

text \<open>The example cluster with the hub in the namespace of the channel, and a client that cannot list hubs.\<close>

definition ex_hubmem :: mem where
  "ex_hubmem = ex_mem\<lparr>mHubs := [\<lparr>mchMeta = plain_meta ''dev'' ''hub''\<rparr>]\<rparr>"

definition ex_blind :: "mem Env" where
  "ex_blind = rc_env \<lparr>rcClient = memEnv, rcDynamicClient = (\<lambda>gvr m. ((None, Some (OtherErr ''timeout'')), m))\<rparr>"

definition ex_subject :: Subject where
  "ex_subject = \<lparr>sjKind = ''Group'', sjAPIGroup = rbacGroup,
     sjName = ''system:open-cluster-management:cluster:cluster1:addon:application-manager'', sjNamespace = []\<rparr>"

lemma ex_agent:
  "is_agent (mem_cluster ex_mem) ex_subject" "is_agent (mem_cluster ex_hubmem) = is_agent (mem_cluster ex_mem)"
proof -
  let ?cl = "\<lparr>mcMeta = plain_meta [] ''cluster1''\<rparr>"
  have "clManagedClusters (mem_cluster ex_mem) (nskey [] ''cluster1'') = Some ?cl"
    by (simp add: mem_cluster_def ex_mem_def empty_mem_def key_of_meta_def)
  moreover have "ex_subject \<in> set (clusterSubjects ?cl)"
    by (simp add: clusterSubjects_def ex_subject_def)
  ultimately show "is_agent (mem_cluster ex_mem) ex_subject"
    unfolding is_agent_def by blast
  show "is_agent (mem_cluster ex_hubmem) = is_agent (mem_cluster ex_mem)"
    by (simp add: is_agent_def fun_eq_iff mem_cluster_def ex_hubmem_def)
qed

lemma ex_reads:
  "channel_reads ex_channel ''get'' [] ''secrets'' ''creds''" "\<not> channel_reads ex_channel ''get'' [] ''secrets'' ''other''"
  by (simp_all add: channel_reads_def refers_def ex_channel_def apiGroup_def)

section \<open>Properties of the operator\<close>

text \<open>
  C1. The namespace contract can be broken in two ways only. Requests that are checked and stored in
  separate moves, deletions, arbitrary updates and reconciles may interleave, and any call may fail: if a
  namespace that held at most one channel outside git ends up with two, then some move of the run checked
  such a channel while another one was admitted for the namespace but not stored yet, or turned a git
  channel into another kind. C24 shows that the first really breaks it; the second is possible because
  the webhook is called for creations only.
\<close>

theorem one_channel_per_namespace:
  assumes "kube_api e st" and "system_run e decode (w0, []) tr (w, ps)" and "one_per_namespace (st w0)"
  shows "one_per_namespace (st w) \<or> (\<exists>(s, m)\<in>set tr. \<not> orderly st s m)"
  using kube_api.system_run_contract [OF assms] by (auto simp: contract_def)

theorem one_channel_per_namespace_witness:
  "fst (Handle memEnv Inr ex_second ex_mem) = Allowed [] \<and>
   one_per_namespace (mem_cluster (snd (kCreate (channels memEnv) ex_second
     (snd (Reconcile memEnv ex_key (snd (Handle memEnv Inr ex_second ex_mem)))))))"
proof -
  let ?w1 = "snd (Handle memEnv Inr ex_second ex_mem)"
  let ?w2 = "snd (Reconcile memEnv ex_key ?w1)"
  let ?w3 = "snd (kCreate (channels memEnv) ex_second ?w2)"
  have allowed: "fst (Handle memEnv Inr ex_second ex_mem) = Allowed []" by code_simp
  have ns: "chNamespace ex_second \<noteq> []" by (simp add: ex_second_def)
  have check: "system_step memEnv Inr (ex_mem, []) (Checked ex_second) (?w1, [ex_second])"
    by (rule step_check [where req = ex_second and msg = "[]"]) (simp_all add: prod_eq_iff allowed ns)
  have rec: "system_step memEnv Inr (?w1, [ex_second]) (Reconciled ex_key) (?w2, [ex_second])"
    by (rule step_reconcile [OF ex_serving_key prod.collapse [symmetric]])
  have "system_step memEnv Inr (?w2, [ex_second]) (Stored ex_second) (?w3, remove1 ex_second [ex_second])"
    by (rule step_store [OF _ prod.collapse [symmetric]]) simp
  moreover have "remove1 ex_second [ex_second] = []" by simp
  ultimately have store: "system_step memEnv Inr (?w2, [ex_second]) (Stored ex_second) (?w3, [])" by (simp only:)
  have run: "system_run memEnv Inr (ex_mem, []) [((?w2, [ex_second]), Stored ex_second), ((?w1, [ex_second]), Reconciled ex_key),
      ((ex_mem, []), Checked ex_second)] (?w3, [])"
    by (rule run_step [OF run_step [OF run_step [OF run_start check] rec] store])
  from one_channel_per_namespace [OF mem_kube_api run ex_one] allowed show ?thesis by auto
qed

text \<open>
  C2. Whatever fails, one reconcile touches nothing but the channel, role and role binding of its own
  key, and of Secrets and ConfigMaps only the labels and annotations of those that carry the serving
  label or that the channel refers to in its own namespace.
\<close>

theorem Reconcile_footprint:
  assumes "kube_api e st" and "serving_key (nnString e rq)"
  shows "confined rq (st w) (st (snd (Reconcile e rq w)))"
  using kube_api.Reconcile_confined [OF assms(1) _ assms(2)] by (metis prod.collapse)

theorem Reconcile_footprint_witness:
  "confined ex_key (mem_cluster (ex_mem\<lparr>mFaults := [None, None, Some ''timeout'']\<rparr>))
     (mem_cluster (snd (Reconcile memEnv ex_key (ex_mem\<lparr>mFaults := [None, None, Some ''timeout'']\<rparr>))))"
  by (rule Reconcile_footprint [OF mem_kube_api ex_serving_key])



text \<open>
  C4. When a channel is gone and no call fails, a reconcile of its key takes the channel out of the
  annotation of every labelled Secret and ConfigMap, whatever other channels are listed there, and
  leaves their data alone.
\<close>

theorem Reconcile_deleted_channel:
  assumes "kube_api_calm e st calm" and "calm w" and "clChannels (st w) rq = None" and "serving_key (nnString e rq)"
  shows "\<exists>w'. calm w' \<and> Reconcile e rq w = ((\<lparr>RequeueAfter = requeuAfter\<rparr>, None), w') \<and>
    (\<forall>g k ob. g = srtGvk \<or> g = cmGvk \<longrightarrow> clDataObjects (st w) g k = Some ob \<longrightarrow> serving_labelled ob \<longrightarrow>
      (\<exists>ob'. clDataObjects (st w') g k = Some ob' \<and> same_but_marks ob ob' \<and>
        served (serving_annotation ob') = served (serving_annotation ob) - {nnString e rq}))"
  by (rule kube_api_calm.Reconcile_calm_deleted [OF assms])

theorem Reconcile_deleted_channel_witness:
  "\<exists>w' ob'. Reconcile memEnv ex_key ex_gone = ((\<lparr>RequeueAfter = requeuAfter\<rparr>, None), w') \<and>
     clDataObjects (mem_cluster w') srtGvk (nskey ''dev'' ''creds'') = Some ob' \<and>
     served (serving_annotation ob') = {''ops/git''}"
proof -
  obtain ob where ob: "clDataObjects (mem_cluster ex_gone) srtGvk (nskey ''dev'' ''creds'') = Some ob" "serving_labelled ob"
      "serving_annotation ob = ''dev/charts,ops/git''"
    by (simp add: mem_cluster_def ex_gone_def ex_mem_def empty_mem_def mem_data_sel_def ex_secret_def key_of_meta_def
        serving_labelled_def serving_annotation_def)
  have gone: "clChannels (mem_cluster ex_gone) ex_key = None" by (simp add: ex_channels)
  have key: "nnString memEnv ex_key = ''dev/charts''" by (simp add: ex_key_def)
  have old: "served ''dev/charts,ops/git'' = {''dev/charts'', ''ops/git''}" by (auto simp: served_def)
  obtain w' where run: "Reconcile memEnv ex_key ex_gone = ((\<lparr>RequeueAfter = requeuAfter\<rparr>, None), w')"
    and all: "\<forall>g k ob. g = srtGvk \<or> g = cmGvk \<longrightarrow> clDataObjects (mem_cluster ex_gone) g k = Some ob \<longrightarrow> serving_labelled ob \<longrightarrow>
      (\<exists>ob'. clDataObjects (mem_cluster w') g k = Some ob' \<and> same_but_marks ob ob' \<and>
        served (serving_annotation ob') = served (serving_annotation ob) - {nnString memEnv ex_key})"
    using Reconcile_deleted_channel [OF fake.kube_api_calm_axioms ex_calm(3) gone ex_serving_key] by (elim exE conjE)
  from all [rule_format, OF disjI1 [OF refl] ob(1,2)] run show ?thesis
    unfolding ob(3) key old by auto
qed

text \<open>
  C5. The operator recovers. Take channels that are ready at first: the objects they refer to exist, and
  their role and binding can be adopted. Take any history of reconciles, cut short by failing calls
  wherever they may be, and of users who create channels and change or delete others than these. After it,
  two rounds over the given channels without faults settle all of them: every reconcile returns nil,
  the paths of the namespace channels are corrected and nothing else in a channel has changed, each
  role and binding is as wanted (and gone in the hub's namespace), and the Secrets and ConfigMaps
  carry both labels and list every channel that refers to them, also where channels share an object.
\<close>

theorem operator_recovers:
  assumes "kube_api_calm e st calm" and "ctrl_ref_stable e" and "history e (set rqs) w0 w" and "calm w" and "distinct rqs"
    and "\<forall>rq\<in>set rqs. clChannels (st w0) rq = Some (f rq) \<and> ready e (f rq) (st w0)"
    and "\<forall>rq\<in>set rqs. serving_key (nnString e rq) \<and> CHR ''/'' \<notin> set (nnNamespace rq)"
  shows "\<exists>w'. sweep e (rqs @ rqs) w = (replicate (2 * length rqs) None, w') \<and>
    (\<forall>rq\<in>set rqs. clChannels (st w') rq = Some (correct_path (f rq)) \<and>
       settled (nnString e rq) (correct_path (f rq)) (st w'))"
  by (rule kube_api_calm.recovery [OF assms(1,3,4,2,5)]) (use assms(6,7) in blast)+

theorem operator_recovers_witness:
  "snd (fst (Reconcile memEnv ex_gitkey ex_storm)) \<noteq> None \<and>
   (\<exists>w' ob. snd (sweep memEnv [ex_key, ex_gitkey, ex_key, ex_gitkey] (snd (Reconcile memEnv ex_gitkey ex_storm))) = w' \<and>
      clChannels (mem_cluster w') ex_key = Some (fixed_path ex_nschannel) \<and> clChannels (mem_cluster w') ex_gitkey = Some ex_git \<and>
      clDataObjects (mem_cluster w') srtGvk (nskey ''dev'' ''creds'') = Some ob \<and>
      ''dev/charts'' \<in> served (serving_annotation ob) \<and> ''dev/git'' \<in> served (serving_annotation ob) \<and>
      settled ''dev/charts'' (fixed_path ex_nschannel) (mem_cluster w') \<and> settled ''dev/git'' ex_git (mem_cluster w'))"
proof -
  let ?w = "snd (Reconcile memEnv ex_gitkey ex_storm)"
  let ?f = "\<lambda>rq. if rq = ex_key then ex_nschannel else ex_git"
  have err: "snd (fst (Reconcile memEnv ex_gitkey ex_storm)) \<noteq> None" by code_simp
  have calm: "mem_calm ?w" unfolding mem_calm_def by code_simp
  have neq: "ex_gitkey \<noteq> ex_key" by (simp add: ex_key_def ex_gitkey_def)
  have keys: "\<forall>rq\<in>set [ex_key, ex_gitkey]. serving_key (nnString memEnv rq) \<and> CHR ''/'' \<notin> set (nnNamespace rq)"
    and gitkey: "serving_key (nnString memEnv ex_gitkey)" and dist: "distinct [ex_key, ex_gitkey]"
    by (simp_all add: serving_key_def ex_key_def ex_gitkey_def)
  have storm: "history memEnv (set [ex_key, ex_gitkey]) ex_storm ?w"
    by (rule hist_reconcile [OF hist_start gitkey prod.collapse [symmetric]])
  have "clChannels (mem_cluster ex_storm) ex_key = Some ex_nschannel" "clChannels (mem_cluster ex_storm) ex_gitkey = Some ex_git"
    by (simp_all add: mem_cluster_def ex_storm_def ex_key_def ex_gitkey_def ex_channel_def ex_nschannel_def ex_git_def key_of_meta_def)
  moreover have "ready memEnv ex_nschannel (mem_cluster ex_storm)" "ready memEnv ex_git (mem_cluster ex_storm)"
    by (simp_all add: ready_def adoptable_def adopts_def ref_there_def mem_cluster_def mem_data_sel_def ex_storm_def
        ex_mem_def empty_mem_def ex_channel_def ex_nschannel_def ex_git_def ex_secret_def mem_ctrl_ref_def key_of_meta_def)
  ultimately have chs: "\<forall>rq\<in>set [ex_key, ex_gitkey]. clChannels (mem_cluster ex_storm) rq = Some (?f rq) \<and>
      ready memEnv (?f rq) (mem_cluster ex_storm)"
    using neq by simp
  have "\<not> strings_EqualFold ''Git'' ChannelTypeNamespace" by code_simp
  then have "\<not> path_fix ex_git" by (simp add: path_fix_def ex_git_def)
  then have right: "correct_path ex_nschannel = fixed_path ex_nschannel" "correct_path ex_git = ex_git"
    using ex_path(2) by (simp_all add: correct_path_def)
  obtain w' where run: "snd (sweep memEnv [ex_key, ex_gitkey, ex_key, ex_gitkey] ?w) = w'"
    and c: "clChannels (mem_cluster w') ex_key = Some (fixed_path ex_nschannel)" "clChannels (mem_cluster w') ex_gitkey = Some ex_git"
    and s: "settled (nnString memEnv ex_key) (fixed_path ex_nschannel) (mem_cluster w')"
      "settled (nnString memEnv ex_gitkey) ex_git (mem_cluster w')"
    using operator_recovers [OF fake.kube_api_calm_axioms mem_ctrl_ref_stable storm calm dist chs keys]
    by (auto simp: right neq simp del: sweep.simps)
  have names: "nnString memEnv ex_key = ''dev/charts''" "nnString memEnv ex_gitkey = ''dev/git''"
    by (simp_all add: ex_key_def ex_gitkey_def)
  note s' = s [unfolded names]
  have "entry_there ''dev/charts'' (mem_cluster w') srtGvk ''dev'' (SecretRef (chSpec ex_channel))"
    "entry_there ''dev/git'' (mem_cluster w') srtGvk ''dev'' (SecretRef (chSpec ex_channel))"
    using s' by (simp_all add: settled_def ex_channel_def ex_nschannel_def ex_git_def fixed_path_def)
  then obtain ob where "clDataObjects (mem_cluster w') srtGvk (nskey ''dev'' ''creds'') = Some ob"
      "''dev/charts'' \<in> served (serving_annotation ob)" "''dev/git'' \<in> served (serving_annotation ob)"
    by (auto simp: entry_there_def ex_channel_def)
  then show ?thesis using err run c s' by blast
qed

text \<open>
  C6. Whatever fails, a reconcile never leaves a role under its key that grants more than the channel
  needs: the role is the one that was there before, or gone, or has exactly the rules built from the
  channel.
\<close>

theorem Reconcile_never_overgrants:
  assumes "kube_api e st" and "serving_key (nnString e rq)"
    and "clRoles (st (snd (Reconcile e rq w))) rq = Some role" and "clRoles (st w) rq \<noteq> Some role"
  shows "\<exists>ch. clChannels (st w) rq = Some ch \<and> roleRules role = buildChannelRoleRules ch"
  using kube_api.Reconcile_role_safe [OF assms(1) _ assms(2), of w] assms(3,4)
  by (metis option.distinct(1) option.inject prod.collapse)

theorem Reconcile_never_overgrants_witness:
  "\<exists>role. clRoles (mem_cluster (snd (Reconcile memEnv ex_key ex_mem))) ex_key = Some role \<and>
     (\<exists>ch. clChannels (mem_cluster ex_mem) ex_key = Some ch \<and> roleRules role = buildChannelRoleRules ch)"
proof -
  have "clRoles (mem_cluster (snd (Reconcile memEnv ex_key ex_mem))) ex_key \<noteq> None"
    by (simp only: mem_cluster_def cluster.select_convs) code_simp
  then obtain role where role: "clRoles (mem_cluster (snd (Reconcile memEnv ex_key ex_mem))) ex_key = Some role" by blast
  have "clRoles (mem_cluster ex_mem) ex_key \<noteq> Some role" by (simp add: ex_objects)
  with Reconcile_never_overgrants [OF mem_kube_api ex_serving_key role] role show ?thesis by blast
qed

text \<open>
  C20. The channels that share a Secret or ConfigMap do not disturb each other. However many
  reconciles of other keys run, and whatever calls of them fail, an object lists a channel
  afterwards exactly when it did before, keeps its data, its other annotations and its other
  labels, and does not lose the serving label.
\<close>

theorem entries_independent:
  assumes "kube_api e st" and "reconciles_others e key w0 w" and "clDataObjects (st w0) g k = Some ob"
  shows "\<exists>ob'. clDataObjects (st w) g k = Some ob' \<and> same_but_marks ob ob' \<and>
    (key \<in> served (serving_annotation ob') \<longleftrightarrow> key \<in> served (serving_annotation ob)) \<and>
    (\<forall>a. a \<noteq> ServingChannel \<longrightarrow> omAnnotations (doMeta ob') a = omAnnotations (doMeta ob) a) \<and>
    (\<forall>l. l \<noteq> ServingChannel \<and> l \<noteq> backupLabel \<longrightarrow> omLabels (doMeta ob') l = omLabels (doMeta ob) l) \<and>
    (serving_labelled ob \<longrightarrow> serving_labelled ob')"
  by (rule kube_api.reconciles_others_entry [OF assms])

theorem entries_independent_witness:
  "\<exists>ob'. clDataObjects (mem_cluster (snd (Reconcile memEnv ex_key ex_gone))) srtGvk (nskey ''dev'' ''creds'') = Some ob' \<and>
     ''ops/git'' \<in> served (serving_annotation ob')"
proof -
  let ?w = "snd (Reconcile memEnv ex_key ex_gone)"
  obtain ob where ob: "clDataObjects (mem_cluster ex_gone) srtGvk (nskey ''dev'' ''creds'') = Some ob"
      "serving_annotation ob = ''dev/charts,ops/git''"
    by (simp add: mem_cluster_def ex_gone_def ex_mem_def empty_mem_def mem_data_sel_def ex_secret_def key_of_meta_def
        serving_annotation_def)
  have "nnString memEnv ex_key \<noteq> ''ops/git''" by (simp add: ex_key_def)
  then have "reconciles_others memEnv ''ops/git'' ex_gone ?w"
    by (rule others_step [OF others_start ex_serving_key _ prod.collapse [symmetric]])
  from entries_independent [OF mem_kube_api this ob(1)] show ?thesis
    unfolding ob(2) by (auto simp: served_def)
qed

text \<open>
  C25. The access the controller gives is exact. Take a channel whose path is right and which is ready:
  the objects it refers to exist, and its role and binding can be adopted. After a reconcile without
  faults the binding under its key lets a subject do something exactly when the subject is an agent of a
  managed cluster, the namespace is not the hub's own, and the request reads channels of the namespace
  (the rule names none, so that it covers all of them) or the Secret or ConfigMap that this channel
  refers to.
\<close>

theorem agents_access:
  assumes "kube_api_calm e st calm" and "calm w" and "clChannels (st w) rq = Some ch" and "\<not> path_fix ch"
    and "serving_key (nnString e rq)" and "ready e ch (st w)"
  shows "snd (fst (Reconcile e rq w)) = None \<and>
    (\<forall>sj v g r n. grants (st (snd (Reconcile e rq w))) rq sj v g r n \<longleftrightarrow>
       nnNamespace rq \<noteq> hub_namespace (st w) \<and> is_agent (st w) sj \<and> channel_reads ch v g r n)"
  by (rule kube_api_calm.Reconcile_grants [OF assms])

theorem agents_access_witness:
  "grants (mem_cluster (snd (Reconcile memEnv ex_key ex_mem))) ex_key ex_subject ''get'' [] ''secrets'' ''creds'' \<and>
   (\<forall>sj. \<not> grants (mem_cluster (snd (Reconcile memEnv ex_key ex_mem))) ex_key sj ''get'' [] ''secrets'' ''other'')"
proof -
  have ch: "clChannels (mem_cluster ex_mem) ex_key = Some ex_channel" by (simp add: ex_channels)
  have "nnNamespace ex_key \<noteq> hub_namespace (mem_cluster ex_mem)" by (simp add: ex_key_def ex_hub)
  then show ?thesis
    using agents_access [OF fake.kube_api_calm_axioms ex_calm(1) ch ex_path(1) ex_serving_key ex_ready(1)] ex_agent(1) ex_reads by blast
qed

text \<open>
  C28. A reference that moves on leaves its mark behind: as long as a channel exists and its
  references have names, no reconcile of it takes it out of the annotation of any object, also not of
  one that it does not refer to any more.
\<close>

theorem stale_mark_stays:
  assumes "kube_api e st" and "serving_key (nnString e rq)" and "clChannels (st w) rq = Some ch" and "named_refs ch"
    and "clDataObjects (st w) g k = Some ob" and "nnString e rq \<in> served (serving_annotation ob)"
  shows "\<exists>ob'. clDataObjects (st (snd (Reconcile e rq w))) g k = Some ob' \<and>
    nnString e rq \<in> served (serving_annotation ob')"
proof -
  obtain res r where "Reconcile e rq w = ((res, r), snd (Reconcile e rq w))"
    by (metis prod.collapse)
  from entries_keptD [OF kube_api.Reconcile_own_entries [OF assms(1) this assms(2,3,4)] assms(5)] assms(6)
  show ?thesis by (auto simp: own_entry_kept_def)
qed

theorem stale_mark_stays_witness:
  "snd (fst (Reconcile memEnv ex_key ex_moved)) = None \<and>
   (\<exists>ob. clDataObjects (mem_cluster (snd (Reconcile memEnv ex_key ex_moved))) srtGvk (nskey ''dev'' ''old'') = Some ob \<and>
      ''dev/charts'' \<in> served (serving_annotation ob))"
proof -
  let ?old = "ex_secret\<lparr>doMeta := (doMeta ex_secret)\<lparr>omName := ''old'', omLabels := [ServingChannel \<mapsto> ''true''],
     omAnnotations := [ServingChannel \<mapsto> ''dev/charts'']\<rparr>\<rparr>"
  have ch: "clChannels (mem_cluster ex_moved) ex_key = Some ex_channel"
    by (simp add: mem_cluster_def ex_moved_def ex_mem_def empty_mem_def ex_key_def ex_channel_def key_of_meta_def)
  have ob: "clDataObjects (mem_cluster ex_moved) srtGvk (nskey ''dev'' ''old'') = Some ?old"
    by (simp add: mem_cluster_def ex_moved_def ex_mem_def empty_mem_def mem_data_sel_def ex_secret_def key_of_meta_def)
  have named: "named_refs ex_channel"
    by (simp add: named_refs_def ex_channel_def)
  have key: "nnString memEnv ex_key = ''dev/charts''"
    by (simp add: ex_key_def)
  have listed: "nnString memEnv ex_key \<in> served (serving_annotation ?old)"
    unfolding key by (simp add: serving_annotation_def served_def)
  have "snd (fst (Reconcile memEnv ex_key ex_moved)) = None" by code_simp
  with stale_mark_stays [OF mem_kube_api ex_serving_key ch named ob listed] show ?thesis
    unfolding key by (intro conjI)
qed

text \<open>
  C29. The error of listing the hubs is dropped. When that call of a reconcile fails, the channel's path
  needs no correction, and the list of the managed clusters is not answered with an unknown kind, then a
  reconcile that returns nil has given the agents of all managed clusters the access of C25 in whatever
  namespace the channel is, also in the hub's own, where nobody may have it.
\<close>

theorem hub_list_failure_grants:
  assumes "kube_api e st" and "clChannels (st w) rq = Some ch" and "\<not> path_fix ch" and "serving_key (nnString e rq)"
    and "nnNamespace rq \<noteq> []" and "fst (fst (dynListHubs e mchGVR (snd (kGet (channels e) rq w)))) = None"
    and "\<not> clusters_unknown e (snd (setupRole e ch (rbac_world e rq w)))"
    and "snd (fst (Reconcile e rq w)) = None"
  shows "grants (st (snd (Reconcile e rq w))) rq sj v g r n \<longleftrightarrow> is_agent (st w) sj \<and> channel_reads ch v g r n"
proof -
  obtain res w' where "Reconcile e rq w = ((res, None), w')" using assms(8) by (metis prod.collapse)
  from kube_api.Reconcile_unknown_hub [OF assms(1) this assms(2-7)] this show ?thesis by simp
qed

theorem hub_list_failure_grants_witness:
  "hub_namespace (mem_cluster ex_hubmem) = nnNamespace ex_key \<and> snd (fst (Reconcile ex_blind ex_key ex_hubmem)) = None \<and>
   grants (mem_cluster (snd (Reconcile ex_blind ex_key ex_hubmem))) ex_key ex_subject ''get'' [] ''secrets'' ''creds''"
proof -
  have hub: "hub_namespace (mem_cluster ex_hubmem) = nnNamespace ex_key"
    by (simp add: hub_namespace_def mem_cluster_def ex_hubmem_def ex_mem_def empty_mem_def key_of_meta_def is_singleton_def ex_key_def)
  have api: "kube_api ex_blind mem_cluster"
    unfolding ex_blind_def by (rule rc_env_kube_api) (simp_all add: mem_kube_api)
  have ch: "clChannels (mem_cluster ex_hubmem) ex_key = Some ex_channel"
    using ex_channels(1) by (simp add: mem_cluster_def ex_hubmem_def)
  have names: "nnString ex_blind = nnString memEnv" "managedClusters ex_blind = managedClusters memEnv"
    by (simp_all add: ex_blind_def rc_env_def)
  have known: "\<not> clusters_unknown ex_blind (snd (setupRole ex_blind ex_channel (rbac_world ex_blind ex_key ex_hubmem)))"
    unfolding clusters_unknown_def names by (auto simp: mem_client_def faulty_def pop_fault_def split: list.splits option.splits)
  have blind: "fst (fst (dynListHubs ex_blind mchGVR (snd (kGet (channels ex_blind) ex_key ex_hubmem)))) = None"
    by (simp add: ex_blind_def rc_env_def)
  have ns: "nnNamespace ex_key \<noteq> []" by (simp add: ex_key_def)
  have key: "serving_key (nnString ex_blind ex_key)" unfolding names by (rule ex_serving_key)
  have run: "snd (fst (Reconcile ex_blind ex_key ex_hubmem)) = None" by code_simp
  from hub_list_failure_grants [OF api ch ex_path(1) key ns blind known run] ex_agent ex_reads hub run show ?thesis by simp
qed

text \<open>
  C39. Attaching and wiring up fit together. Without faults, when the Secrets keep the invariant of C32
  and a configuration that exists has a webhook with a service, the operator serves a certificate for
  the name of its service, and the webhook configuration that the API server reads afterwards points at
  that service and trusts exactly the authority that signed the certificate.
\<close>

theorem webhook_trusted:
  assumes "cert_store_calm cr fs st files check e calm" and "kube_api_calm e st calm"
    and "Register (ValidtorPath wu) (wuHandler wu) w = Return w1" and "calm w1"
    and "ia5 (nnNamespace (WebHookeSvcKey wu))" and "ia5 (nnName (WebHookeSvcKey wu))"
    and "certs_inv cr check (WebHookeSvcKey wu) (st w1)"
    and "\<And>cfg. clWebhookConfigs (st w1) (nskey [] (GetValidatorName (WebhookName wu))) = Some cfg \<Longrightarrow> refreshable cfg"
  shows "\<exists>ca c w2 w3 cfg. Attach cr fs Register e wu w = Return (Inr (Cert ca), w2) \<and>
    WireUpWebhookSupplymentryResource e e wu False (Cert ca) g ops [DelPreValiationCfg20] w2 = (Return None, w3) \<and>
    clWebhookConfigs (st w3) (nskey [] (GetValidatorName (WebhookName wu))) = Some cfg \<and> config_wired wu (Cert ca) cfg \<and>
    served_pair fs (CertDir wu) (files w2) c \<and>
    serves cr check (alternateDNS (nnNamespace (WebHookeSvcKey wu)) (nnName (WebHookeSvcKey wu))) ca c"
proof -
  obtain ca c w2 where att: "Attach cr fs Register e wu w = Return (Inr (Cert ca), w2)" "calm w2"
      "secret_step (st w1) (st w2)" "served_pair fs (CertDir wu) (files w2) c"
      "serves cr check (alternateDNS (nnNamespace (WebHookeSvcKey wu)) (nnName (WebHookeSvcKey wu))) ca c"
    using cert_store_calm.Attach_calm [OF assms(1), of Register wu w w1] assms(3-7) by blast
  have ref: "\<And>cfg. clWebhookConfigs (st w2) (nskey [] (GetValidatorName (WebhookName wu))) = Some cfg \<Longrightarrow> refreshable cfg"
    using assms(8) secret_step_webhooks [OF att(3)] by simp
  obtain w3 cfg where
    "WireUpWebhookSupplymentryResource e e wu False (Cert ca) g ops [DelPreValiationCfg20] w2 = (Return None, w3)"
    "clWebhookConfigs (st w3) (nskey [] (GetValidatorName (WebhookName wu))) = Some cfg" "config_wired wu (Cert ca) cfg"
    using kube_api_calm.WireUp_calm [OF assms(2) att(2) ref, of wu "Cert ca" g ops] by fastforce
  then show ?thesis using att by blast
qed

theorem webhook_trusted_witness:
  "\<exists>ca c w2 w3 cfg. Attach symCrypto memFs (\<lambda>_ _. Return) certMem ex_wireup ex_new = Return (Inr (Cert ca), w2) \<and>
    WireUpWebhookSupplymentryResource certMem certMem ex_wireup False (Cert ca)
      \<lparr>gvkGroup = apiGroup, gvkVersion = ''v1'', gvkKind = ''channels''\<rparr> [''CREATE''] [DelPreValiationCfg20] w2 = (Return None, w3) \<and>
    clWebhookConfigs (cert_st w3) (nskey [] (GetValidatorName (WebhookName ex_wireup))) = Some cfg \<and>
    config_wired ex_wireup (Cert ca) cfg \<and> served_pair memFs (CertDir ex_wireup) (cert_files w2) c \<and>
    serves symCrypto sym_check (alternateDNS ''ns'' ''wh'') ca c"
proof -
  have "clWebhookConfigs (cert_st ex_new) k = None" for k
    by (simp add: ex_new_def empty_mem_def mem_cluster_def)
  then show ?thesis
    using webhook_trusted [OF sym_store_calm certMem_api _ ex_new_calm _ _ ex_new_inv, of "\<lambda>_ _. Return" ex_wireup ex_new
        "\<lparr>gvkGroup = apiGroup, gvkVersion = ''v1'', gvkKind = ''channels''\<rparr>" "[''CREATE'']"]
    by (simp add: ia5_def)
qed

end
